(* ===== verification/Prelude.thy ===== *)
theory Prelude
  imports Main "HOL-Library.Char_ord" "HOL-Library.List_Lexorder" "HOL-Library.Finite_Map"
    "HOL-Library.Word" "HOL-Library.Sublist"
begin

text \<open>
  Shared vocabulary of the development: the types that stand for Rust's own (bytes, strings,
  \<open>Result\<close>, \<open>HashMap\<close>), the collections of rewrite rules the component theories add to, and
  the generic facts on lists and finite maps they share.

  A Rust \<open>u8\<close> slice and a Rust \<open>str\<close> are both a list of bytes here, and Isabelle's
  \<open>char\<close> is exactly a byte, so the type \<open>string\<close> of HOL is used for both; a
  \<open>String\<close> is a byte list that is well-formed UTF-8 (\<open>utf8_valid\<close> in \<open>Rust_Str\<close>).
  Lengths and offsets are byte counts, as in Rust.
\<close>

type_synonym bytes = "char list"
type_synonym ('e, 'a) result = "'e + 'a"
type_synonym headers = "(string, string) fmap"
type_synonym u8 = "8 word"
type_synonym u32 = "32 word"
type_synonym u64 = "64 word"
type_synonym i64 = "64 word"

text \<open>Rewrite rules for string methods, number conversion and the wire encoders.\<close>

named_theorems str_simps
named_theorems num_simps
named_theorems codec_simps
named_theorems queue_simps

abbreviation NL :: char where "NL \<equiv> CHR 0x0A"
abbreviation CR :: char where "CR \<equiv> CHR 0x0D"
abbreviation SP :: char where "SP \<equiv> CHR 0x20"
abbreviation COLON :: char where "COLON \<equiv> CHR 0x3A"
abbreviation COMMA :: char where "COMMA \<equiv> CHR 0x2C"
abbreviation QUOTE :: char where "QUOTE \<equiv> CHR 0x27"
abbreviation BSLASH :: char where "BSLASH \<equiv> CHR 0x5C"

section \<open>Results\<close>

text \<open>The \<open>?\<close> operator on \<open>Result\<close>: stop at the first error.\<close>

definition res_bind :: "('e, 'a) result \<Rightarrow> ('a \<Rightarrow> ('e, 'b) result) \<Rightarrow> ('e, 'b) result" where
  "res_bind r f = (case r of Inl e \<Rightarrow> Inl e | Inr x \<Rightarrow> f x)"

lemma res_bind_simps [simp]:
  "res_bind (Inl e) f = Inl e"
  "res_bind (Inr x) f = f x"
  by (simp_all add: res_bind_def)

lemma res_bind_eq_Inr: "res_bind r f = Inr y \<longleftrightarrow> (\<exists>x. r = Inr x \<and> f x = Inr y)"
  by (cases r) auto

lemma res_bind_eq_Inl: "res_bind r f = Inl e \<longleftrightarrow> r = Inl e \<or> (\<exists>x. r = Inr x \<and> f x = Inl e)"
  by (cases r) auto

definition is_ok :: "('e, 'a) result \<Rightarrow> bool" where
  "is_ok r = (case r of Inl _ \<Rightarrow> False | Inr _ \<Rightarrow> True)"

lemma is_ok_simps [simp]: "is_ok (Inr x)" "\<not> is_ok (Inl e)"
  by (simp_all add: is_ok_def)

lemma is_ok_iff: "is_ok r \<longleftrightarrow> (\<exists>x. r = Inr x)"
  by (cases r) auto

text \<open>\<open>Result::ok()\<close>.\<close>

definition ok_opt :: "('e, 'a) result \<Rightarrow> 'a option" where
  "ok_opt r = (case r of Inl _ \<Rightarrow> None | Inr x \<Rightarrow> Some x)"

lemma ok_opt_simps [simp]: "ok_opt (Inr x) = Some x" "ok_opt (Inl e) = None"
  by (simp_all add: ok_opt_def)

lemma ok_opt_eq_Some [simp]: "ok_opt r = Some x \<longleftrightarrow> r = Inr x"
  by (cases r) auto

section \<open>Lists\<close>

lemma append_eq_append_notin:
  assumes "a @ c # b = a' @ c # b'" "c \<notin> set a" "c \<notin> set a'"
  shows "a = a' \<and> b = b'"
  using assms
proof (induction a arbitrary: a')
  case Nil
  then show ?case by (cases a') auto
next
  case (Cons x a)
  then show ?case by (cases a') auto
qed

lemma take_length_append [simp]: "take (length a) (a @ b) = a"
  by simp

lemma drop_length_append [simp]: "drop (length a) (a @ b) = b"
  by simp

lemma butlast_last_cases: "xs \<noteq> [] \<Longrightarrow> \<exists>ys y. xs = ys @ [y]"
  by (metis append_butlast_last_id)

section \<open>Finite maps\<close>

lemma fmap_eqI: "(\<And>k. fmlookup m k = fmlookup n k) \<Longrightarrow> m = n"
  by (rule fmap_ext)

lemma fmap_of_list_sorted [simp]: "fmap_of_list (sorted_list_of_fmap m) = m"
  by (rule fmap_eqI) (simp add: fmlookup_of_list)

lemma distinct_sorted_list_of_fmap [simp]:
  fixes m :: "('a::linorder, 'b) fmap"
  shows "distinct (map fst (sorted_list_of_fmap m))"
proof -
  have "distinct (sorted_list_of_fset A)" for A :: "'a fset"
    by (simp add: sorted_list_of_fset.rep_eq)
  then show ?thesis by (simp add: sorted_list_of_fmap_def comp_def)
qed

lemma set_sorted_list_of_fmap: "(k, v) \<in> set (sorted_list_of_fmap m) \<longleftrightarrow> fmlookup m k = Some v"
  by (metis distinct_sorted_list_of_fmap map_of_sorted_list map_of_eq_Some_iff)

lemma map_of_map_value: "map_of (map (\<lambda>(k, v). (k, f v)) xs) k = map_option f (map_of xs k)"
  by (induction xs) auto

lemma fold_fmupd_distinct:
  "distinct (map fst xs) \<Longrightarrow>
   fmlookup (fold (\<lambda>(k, v). fmupd k (f v)) xs m) k =
     (case map_of xs k of Some v \<Rightarrow> Some (f v) | None \<Rightarrow> fmlookup m k)"
proof (induction xs arbitrary: m)
  case (Cons x xs)
  then have "map_of xs (fst x) = None" by (simp add: map_of_eq_None_iff)
  with Cons show ?case by (cases x) (auto split: option.splits)
qed simp

lemma fold_fmupd_of_list:
  assumes "distinct (map fst xs)"
  shows "fold (\<lambda>(k, v). fmupd k (f v)) xs fmempty = fmap_of_list (map (\<lambda>(k, v). (k, f v)) xs)"
  by (rule fmap_eqI)
     (simp add: fold_fmupd_distinct[OF assms] fmlookup_of_list map_of_map_value split: option.splits)

end
