(* ===== verification/Rust_Str.thy ===== *)
theory Rust_Str
  imports Prelude
begin

text \<open>
  The methods of Rust's \<open>str\<close> the crate uses, over byte lists. All of them are the
  standard library's documented behaviour: searches go left to right, \<open>lines\<close> ends a line
  at a line feed and drops one carriage return before it, \<open>trim\<close> removes Unicode
  \<open>White_Space\<close> (in UTF-8), \<open>from_utf8\<close> accepts exactly the well-formed sequences of the
  Unicode standard.

  \<open>to_uppercase\<close> and \<open>to_lowercase\<close> are exact on ASCII and on every code point whose
  mapping is pure ASCII; a code point whose mapping keeps a non-ASCII character is left as it
  is. The crate only ever compares the mapped string with ASCII names, and such a comparison
  has the same outcome under Rust's full mapping.
\<close>

section \<open>Prefixes, suffixes, search\<close>

fun strip_prefix :: "string \<Rightarrow> string \<Rightarrow> string option" where
  "strip_prefix [] s = Some s"
| "strip_prefix (p # ps) [] = None"
| "strip_prefix (p # ps) (c # cs) = (if p = c then strip_prefix ps cs else None)"

lemma strip_prefix_Some [str_simps]: "strip_prefix p s = Some r \<longleftrightarrow> s = p @ r"
  by (induction p s rule: strip_prefix.induct) auto

lemma strip_prefix_append [simp]: "strip_prefix p (p @ r) = Some r"
  by (simp add: strip_prefix_Some)

lemma strip_prefix_None: "strip_prefix p s = None \<longleftrightarrow> (\<nexists>r. s = p @ r)"
  using strip_prefix_Some[of p s] by (cases "strip_prefix p s") auto

definition starts_with :: "string \<Rightarrow> string \<Rightarrow> bool" where
  "starts_with p s = (strip_prefix p s \<noteq> None)"

lemma starts_with_iff: "starts_with p s \<longleftrightarrow> (\<exists>r. s = p @ r)"
  by (auto simp: starts_with_def strip_prefix_None)

definition strip_suffix :: "string \<Rightarrow> string \<Rightarrow> string option" where
  "strip_suffix p s = map_option rev (strip_prefix (rev p) (rev s))"

lemma strip_suffix_Some [str_simps]: "strip_suffix p s = Some r \<longleftrightarrow> s = r @ p"
proof -
  have "strip_suffix p s = Some r \<longleftrightarrow> strip_prefix (rev p) (rev s) = Some (rev r)"
    by (auto simp: strip_suffix_def)
  also have "\<dots> \<longleftrightarrow> rev s = rev p @ rev r" by (rule strip_prefix_Some)
  also have "\<dots> \<longleftrightarrow> s = r @ p" by (metis rev_append rev_rev_ident)
  finally show ?thesis .
qed

lemma strip_suffix_append [simp]: "strip_suffix p (r @ p) = Some r"
  by (simp add: strip_suffix_Some)

lemma strip_suffix_None: "strip_suffix p s = None \<longleftrightarrow> (\<nexists>r. s = r @ p)"
  using strip_suffix_Some[of p s] by (cases "strip_suffix p s") auto

text \<open>\<open>str::find\<close> with a string pattern: the offset of the first occurrence.\<close>

fun find_sub :: "string \<Rightarrow> string \<Rightarrow> nat option" where
  "find_sub p [] = (if p = [] then Some 0 else None)"
| "find_sub p (c # s) = (if starts_with p (c # s) then Some 0 else map_option Suc (find_sub p s))"

lemma find_sub_sound: "find_sub p s = Some i \<Longrightarrow> \<exists>a r. s = a @ p @ r \<and> length a = i"
proof (induction p s arbitrary: i rule: find_sub.induct)
  case (1 p)
  then show ?case by (simp split: if_splits)
next
  case (2 p c s)
  show ?case
  proof (cases "starts_with p (c # s)")
    case True
    with "2.prems" show ?thesis by (auto simp: starts_with_iff)
  next
    case False
    with "2.prems" obtain j where j: "find_sub p s = Some j" "i = Suc j" by auto
    with "2.IH"[OF False j(1)] obtain a r where "s = a @ p @ r" "length a = j" by blast
    with j have "c # s = (c # a) @ p @ r \<and> length (c # a) = i" by simp
    then show ?thesis by blast
  qed
qed

lemma find_sub_first:
  "find_sub p s = Some i \<Longrightarrow> j < i \<Longrightarrow> \<not> starts_with p (drop j s)"
proof (induction p s arbitrary: i j rule: find_sub.induct)
  case (1 p)
  then show ?case by (simp split: if_splits)
next
  case (2 p c s)
  from "2.prems" have nsw: "\<not> starts_with p (c # s)" by (auto split: if_splits)
  with "2.prems" obtain k where k: "find_sub p s = Some k" "i = Suc k" by auto
  show ?case
  proof (cases j)
    case 0
    with nsw show ?thesis by simp
  next
    case (Suc j')
    with "2.IH"[OF nsw k(1)] k(2) "2.prems"(2) show ?thesis by simp
  qed
qed

lemma find_sub_None: "find_sub p s = None \<longleftrightarrow> (\<nexists>a b. s = a @ p @ b)"
proof (induction p s rule: find_sub.induct)
  case (1 p)
  then show ?case by auto
next
  case (2 p c s)
  show ?case
  proof (cases "starts_with p (c # s)")
    case True
    then have "\<exists>a b. c # s = a @ p @ b"
      by (metis append_Nil starts_with_iff)
    with True show ?thesis by simp
  next
    case False
    have "(\<exists>a b. c # s = a @ p @ b) \<longleftrightarrow> (\<exists>a b. s = a @ p @ b)"
    proof
      assume "\<exists>a b. c # s = a @ p @ b"
      then obtain a b where ab: "c # s = a @ p @ b" by blast
      with False have "a \<noteq> []" by (auto simp: starts_with_iff)
      with ab show "\<exists>a b. s = a @ p @ b" by (cases a) auto
    next
      assume "\<exists>a b. s = a @ p @ b"
      then show "\<exists>a b. c # s = a @ p @ b" by (metis append_Cons)
    qed
    with 2[OF False] False show ?thesis by simp
  qed
qed

text \<open>
  The first occurrence of a pattern of two different bytes in \<open>a @ [x, y] @ b\<close> is at
  \<open>length a\<close> unless \<open>a\<close> holds one already: two occurrences cannot overlap.
\<close>

definition no_sub :: "string \<Rightarrow> string \<Rightarrow> bool" where
  "no_sub p s = (find_sub p s = None)"

lemma no_sub_iff: "no_sub p s \<longleftrightarrow> (\<nexists>a b. s = a @ p @ b)"
  by (simp add: no_sub_def find_sub_None)

lemma no_sub_Cons: "no_sub p (c # s) \<longleftrightarrow> \<not> starts_with p (c # s) \<and> no_sub p s"
  by (auto simp: no_sub_def split: if_splits)

lemma find_sub_append_pair:
  assumes "x \<noteq> y" "no_sub [x, y] a"
  shows "find_sub [x, y] (a @ x # y # b) = Some (length a)"
  using assms(2)
proof (induction a)
  case Nil
  then show ?case by (simp add: starts_with_def)
next
  case (Cons c a)
  then have nsw: "\<not> starts_with [x, y] (c # a)" and ns: "no_sub [x, y] a"
    by (simp_all add: no_sub_Cons)
  have "\<not> starts_with [x, y] (c # a @ x # y # b)"
    using nsw assms(1) by (cases a) (auto simp: starts_with_def)
  with Cons.IH[OF ns] show ?case by simp
qed

text \<open>\<open>str::find\<close> with a one-byte pattern, and \<open>str::split_once\<close>.\<close>

fun find_char :: "char \<Rightarrow> string \<Rightarrow> nat option" where
  "find_char c [] = None"
| "find_char c (x # xs) = (if x = c then Some 0 else map_option Suc (find_char c xs))"

lemma find_char_Some:
  "find_char c s = Some i \<longleftrightarrow> i < length s \<and> s ! i = c \<and> c \<notin> set (take i s)"
proof (induction s arbitrary: i)
  case Nil
  then show ?case by simp
next
  case (Cons x s)
  then show ?case by (cases i) auto
qed

lemma find_char_None [str_simps]: "find_char c s = None \<longleftrightarrow> c \<notin> set s"
  by (induction s) auto

lemma find_char_append: "c \<notin> set a \<Longrightarrow> find_char c (a @ c # b) = Some (length a)"
  by (induction a) auto

fun split_once :: "char \<Rightarrow> string \<Rightarrow> (string \<times> string) option" where
  "split_once c [] = None"
| "split_once c (x # xs) =
     (if x = c then Some ([], xs) else map_option (\<lambda>(a, b). (x # a, b)) (split_once c xs))"

lemma split_once_Some: "split_once c s = Some (a, b) \<longleftrightarrow> s = a @ c # b \<and> c \<notin> set a"
proof (induction s arbitrary: a)
  case Nil
  then show ?case by simp
next
  case (Cons x s)
  then show ?case by (cases a) auto
qed

lemma split_once_append [str_simps]: "c \<notin> set a \<Longrightarrow> split_once c (a @ c # b) = Some (a, b)"
  by (simp add: split_once_Some)

lemma split_once_None [str_simps]: "split_once c s = None \<longleftrightarrow> c \<notin> set s"
  by (induction s) auto

section \<open>Splitting, joining, replacing\<close>

fun join :: "string \<Rightarrow> string list \<Rightarrow> string" where
  "join sep [] = []"
| "join sep [x] = x"
| "join sep (x # y # xs) = x @ sep @ join sep (y # xs)"

lemma join_Cons: "join sep (x # xs) = x @ (if xs = [] then [] else sep @ join sep xs)"
  by (cases xs) auto

lemma join_append:
  "join sep (xs @ ys) =
     (if xs = [] then join sep ys else if ys = [] then join sep xs
      else join sep xs @ sep @ join sep ys)"
  by (induction xs) (auto simp: join_Cons)

text \<open>The loop \<open>for (i, item) in items.iter().enumerate() { if i > 0 { write sep } write item }\<close>.\<close>

definition write_separated :: "string \<Rightarrow> string list \<Rightarrow> string" where
  "write_separated sep items =
     concat (map (\<lambda>(i, item). (if i > 0 then sep else []) @ item) (List.enumerate 0 items))"

lemma write_separated_from:
  "concat (map (\<lambda>(i, item). (if i > (0::nat) then sep else []) @ item) (List.enumerate (Suc n) xs))
     = concat (map (\<lambda>x. sep @ x) xs)"
  by (induction xs arbitrary: n) auto

lemma write_separated_join: "write_separated sep xs = join sep xs"
proof (cases xs)
  case Nil
  then show ?thesis by (simp add: write_separated_def)
next
  case (Cons x ys)
  have "join sep (x # ys) = x @ concat (map (\<lambda>y. sep @ y) ys)"
    by (induction ys arbitrary: x) (simp_all add: join_Cons)
  with Cons show ?thesis by (simp add: write_separated_def write_separated_from)
qed

text \<open>
  \<open>str::split\<close> with a string pattern, and \<open>str::replace\<close>, which is the pieces of the split
  joined with the replacement. Rust also defines both for an empty pattern; the crate passes
  none, and the model returns the string whole there.
\<close>

function split_str :: "string \<Rightarrow> string \<Rightarrow> string list" where
  "split_str p s =
     (if p = [] then [s] else
      case find_sub p s of
        None \<Rightarrow> [s]
      | Some i \<Rightarrow> take i s # split_str p (drop (i + length p) s))"
  by pat_completeness auto
termination
proof (relation "measure (\<lambda>(p, s). length s)", goal_cases)
  case 1
  show ?case by simp
next
  case (2 p s i)
  from find_sub_sound[OF 2(2)] obtain a r where "s = a @ p @ r" "length a = i" by blast
  with 2(1) show ?case by (cases p) auto
qed

declare split_str.simps [simp del]

definition replace_str :: "string \<Rightarrow> string \<Rightarrow> string \<Rightarrow> string" where
  "replace_str p r s = join r (split_str p s)"

definition replace_char :: "char \<Rightarrow> string \<Rightarrow> string \<Rightarrow> string" where
  "replace_char c r s = concat (map (\<lambda>x. if x = c then r else [x]) s)"

lemma replace_char_simps [simp]:
  "replace_char c r [] = []"
  "replace_char c r (x # s) = (if x = c then r else [x]) @ replace_char c r s"
  "replace_char c r (s @ t) = replace_char c r s @ replace_char c r t"
  by (simp_all add: replace_char_def)

lemma split_str_nonempty [simp]: "split_str p s \<noteq> []"
  by (subst split_str.simps) (auto split: option.splits)

lemma join_split_str: "join p (split_str p s) = s"
proof (induction p s rule: split_str.induct)
  case (1 p s)
  show ?case
  proof (cases "p = [] \<or> find_sub p s = None")
    case True
    then show ?thesis by (subst split_str.simps) auto
  next
    case False
    then obtain i where i: "find_sub p s = Some i" and p: "p \<noteq> []" by auto
    from find_sub_sound[OF i] obtain a r where s: "s = a @ p @ r" and a: "length a = i" by blast
    then have d: "drop (i + length p) s = r" by simp
    have "join p (split_str p s) = take i s @ p @ join p (split_str p (drop (i + length p) s))"
      using p i by (subst split_str.simps) (simp add: join_Cons)
    with "1.IH"[OF p i] d s a show ?thesis by simp
  qed
qed

lemma split_str_no_sub: "no_sub p s \<Longrightarrow> split_str p s = [s]"
  by (subst split_str.simps) (simp add: no_sub_def)

lemma split_str_pair:
  assumes "x \<noteq> y" "no_sub [x, y] a"
  shows "split_str [x, y] (a @ x # y # b) = a # split_str [x, y] b"
  by (subst split_str.simps) (simp add: find_sub_append_pair[OF assms])

lemma split_str_join_pair:
  assumes "x \<noteq> y" "xs \<noteq> []" "\<forall>s \<in> set xs. no_sub [x, y] s"
  shows "split_str [x, y] (join [x, y] xs) = xs"
  using assms(2,3)
proof (induction xs)
  case Nil
  then show ?case by simp
next
  case (Cons a xs)
  then show ?case
    by (cases "xs = []") (simp_all add: join_Cons split_str_no_sub split_str_pair[OF assms(1)])
qed

lemma split_str_set_no_sub_pair:
  assumes "x \<noteq> y"
  shows "\<forall>s \<in> set (split_str [x, y] t). no_sub [x, y] s"
proof (induction "[x, y]" t rule: split_str.induct)
  case (1 s)
  show ?case
  proof (cases "find_sub [x, y] s")
    case None
    then show ?thesis by (subst split_str.simps) (simp add: no_sub_def)
  next
    case (Some i)
    have "no_sub [x, y] (take i s)"
      unfolding no_sub_iff
    proof clarify
      fix a b
      assume ab: "take i s = a @ [x, y] @ b"
      have "length (take i s) = length a + 2 + length b" unfolding ab by simp
      then have lt: "length a < i" by simp
      have "s = a @ [x, y] @ b @ drop i s"
        using append_take_drop_id[of i s] unfolding ab by simp
      then have "drop (length a) s = [x, y] @ b @ drop i s"
        by (metis append_eq_conv_conj)
      with find_sub_first[OF Some lt] show False by (simp add: starts_with_iff)
    qed
    with Some 1 show ?thesis by (subst split_str.simps) simp
  qed
qed

text \<open>The same for a separator of one byte.\<close>

lemma find_sub_char: "c \<notin> set a \<Longrightarrow> find_sub [c] (a @ c # b) = Some (length a)"
  by (induction a) (auto simp: starts_with_def)

lemma find_sub_char_None: "c \<notin> set a \<Longrightarrow> find_sub [c] a = None"
  by (induction a) (auto simp: starts_with_def)

lemma split_str_join_char:
  assumes "xs \<noteq> []" "\<forall>s \<in> set xs. c \<notin> set s"
  shows "split_str [c] (join [c] xs) = xs"
  using assms
proof (induction xs)
  case Nil
  then show ?case by simp
next
  case (Cons a xs)
  show ?case
  proof (cases "xs = []")
    case True
    with Cons.prems show ?thesis by (simp add: split_str.simps[of "[c]" a] find_sub_char_None)
  next
    case False
    with Cons.prems have "split_str [c] (a @ c # join [c] xs) = a # split_str [c] (join [c] xs)"
      by (simp add: split_str.simps[of "[c]" "a @ c # join [c] xs"] find_sub_char)
    with Cons False show ?thesis by (simp add: join_Cons)
  qed
qed

text \<open>
  Replacing \<open>\c\<close> by \<open>c\<close> undoes the escaping that replaces \<open>c\<close> by \<open>\c\<close>: every \<open>c\<close> of the
  escaped text is preceded by the backslash the escaping put there.
\<close>

lemma no_sub_pair_notin: "y \<notin> set s \<Longrightarrow> no_sub [x, y] s"
  by (auto simp: no_sub_iff)

lemma replace_char_notin: "c \<notin> set s \<Longrightarrow> replace_char c r s = s"
  by (induction s) auto

lemma split_unescape:
  assumes "x \<noteq> c"
  shows "join [c] (split_str [x, c] (replace_char c [x, c] s)) = s"
proof (induction "length s" arbitrary: s rule: less_induct)
  case less
  show ?case
  proof (cases "c \<in> set s")
    case False
    then show ?thesis by (simp add: replace_char_notin split_str_no_sub no_sub_pair_notin)
  next
    case True
    then obtain a b where s: "s = a @ c # b" and a: "c \<notin> set a"
      by (meson split_list_first)
    have "replace_char c [x, c] s = a @ x # c # replace_char c [x, c] b"
      using s a by (simp add: replace_char_notin)
    then have "split_str [x, c] (replace_char c [x, c] s)
                 = a # split_str [x, c] (replace_char c [x, c] b)"
      by (simp add: split_str_pair[OF assms] no_sub_pair_notin a)
    moreover have "join [c] (split_str [x, c] (replace_char c [x, c] b)) = b"
      by (rule less.hyps) (simp add: s)
    ultimately show ?thesis using s by (simp add: join_Cons)
  qed
qed

lemma replace_unescape:
  "x \<noteq> c \<Longrightarrow> replace_str [x, c] [c] (replace_char c [x, c] s) = s"
  by (simp add: replace_str_def split_unescape)

end
