(* ===== verification/Esl_Constants.thy ===== *)
theory Esl_Constants
  imports Prelude
begin

text \<open>
  The protocol constants of \<open>src/src/constants.rs\<close>, under their own names. Strings unfold by
  \<open>simp\<close>; the size limits stay folded until a proof needs their value. \<open>usize\<close> is taken
  to be 64 bits wide.
\<close>

definition DEFAULT_ESL_PORT :: nat where "DEFAULT_ESL_PORT = 8021"
definition SOCKET_BUF_SIZE :: nat where "SOCKET_BUF_SIZE = 65536"
definition BUF_CHUNK :: nat where "BUF_CHUNK = 64 * 1024"
definition MAX_MESSAGE_SIZE :: nat where "MAX_MESSAGE_SIZE = 8 * 1024 * 1024"
definition MAX_BUFFER_SIZE :: nat where "MAX_BUFFER_SIZE = 16 * 1024 * 1024"

definition HEADER_TERMINATOR :: string where [simp]: "HEADER_TERMINATOR = [NL, NL]"
definition LINE_TERMINATOR :: string where [simp]: "LINE_TERMINATOR = [NL]"

definition CONTENT_TYPE_AUTH_REQUEST :: string where
  [simp]: "CONTENT_TYPE_AUTH_REQUEST = ''auth/request''"
definition CONTENT_TYPE_COMMAND_REPLY :: string where
  [simp]: "CONTENT_TYPE_COMMAND_REPLY = ''command/reply''"
definition CONTENT_TYPE_API_RESPONSE :: string where
  [simp]: "CONTENT_TYPE_API_RESPONSE = ''api/response''"
definition CONTENT_TYPE_TEXT_EVENT_PLAIN :: string where
  [simp]: "CONTENT_TYPE_TEXT_EVENT_PLAIN = ''text/event-plain''"
definition CONTENT_TYPE_TEXT_EVENT_JSON :: string where
  [simp]: "CONTENT_TYPE_TEXT_EVENT_JSON = ''text/event-json''"
definition CONTENT_TYPE_TEXT_EVENT_XML :: string where
  [simp]: "CONTENT_TYPE_TEXT_EVENT_XML = ''text/event-xml''"

definition HEADER_CONTENT_TYPE :: string where [simp]: "HEADER_CONTENT_TYPE = ''Content-Type''"
definition HEADER_CONTENT_LENGTH :: string where [simp]: "HEADER_CONTENT_LENGTH = ''Content-Length''"
definition HEADER_REPLY_TEXT :: string where [simp]: "HEADER_REPLY_TEXT = ''Reply-Text''"
definition HEADER_EVENT_NAME :: string where [simp]: "HEADER_EVENT_NAME = ''Event-Name''"
definition HEADER_UNIQUE_ID :: string where [simp]: "HEADER_UNIQUE_ID = ''Unique-ID''"
definition HEADER_CALLER_UUID :: string where [simp]: "HEADER_CALLER_UUID = ''Caller-Unique-ID''"
definition HEADER_JOB_UUID :: string where [simp]: "HEADER_JOB_UUID = ''Job-UUID''"

definition HEADER_CHANNEL_STATE :: string where [simp]: "HEADER_CHANNEL_STATE = ''Channel-State''"
definition HEADER_CHANNEL_STATE_NUMBER :: string where
  [simp]: "HEADER_CHANNEL_STATE_NUMBER = ''Channel-State-Number''"
definition HEADER_CHANNEL_CALL_STATE :: string where
  [simp]: "HEADER_CHANNEL_CALL_STATE = ''Channel-Call-State''"
definition HEADER_ANSWER_STATE :: string where [simp]: "HEADER_ANSWER_STATE = ''Answer-State''"
definition HEADER_CALL_DIRECTION :: string where [simp]: "HEADER_CALL_DIRECTION = ''Call-Direction''"

definition DEFAULT_TIMEOUT_MS :: u64 where "DEFAULT_TIMEOUT_MS = 2000"
definition MAX_EVENT_QUEUE_SIZE :: nat where "MAX_EVENT_QUEUE_SIZE = 1000"

text \<open>Two maximal messages fit in the buffer (the comment on \<open>MAX_BUFFER_SIZE\<close>).\<close>

lemma two_messages_fit: "2 * MAX_MESSAGE_SIZE \<le> MAX_BUFFER_SIZE"
  by (simp add: MAX_MESSAGE_SIZE_def MAX_BUFFER_SIZE_def)

lemma max_message_usize: "MAX_MESSAGE_SIZE < 2 ^ 64"
  by (simp add: MAX_MESSAGE_SIZE_def)

end
