(* ===== verification/Rust_Text.thy ===== *)
theory Rust_Text
  imports Rust_Str
begin

text \<open>
  The text methods of Rust's \<open>str\<close> that look at characters: \<open>trim\<close>, \<open>lines\<close>, the case
  mappings and the UTF-8 check of \<open>String::from_utf8\<close>. The conventions are those of
  \<open>Rust_Str\<close>.
\<close>

definition byte_val :: "char \<Rightarrow> nat" where
  "byte_val c = of_char c"

definition is_ascii :: "char \<Rightarrow> bool" where
  "is_ascii c = (byte_val c < 128)"

section \<open>Trimming\<close>

definition ascii_ws :: "char \<Rightarrow> bool" where
  "ascii_ws c = (byte_val c = 32 \<or> (9 \<le> byte_val c \<and> byte_val c \<le> 13))"

text \<open>
  The UTF-8 forms of the non-ASCII \<open>White_Space\<close> characters: U+0085, U+00A0 (two bytes);
  U+1680, U+2000 to U+200A, U+2028, U+2029, U+202F, U+205F, U+3000 (three bytes).
\<close>

definition ws2 :: "char \<Rightarrow> char \<Rightarrow> bool" where
  "ws2 a b = (byte_val a = 0xC2 \<and> (byte_val b = 0x85 \<or> byte_val b = 0xA0))"

definition ws3 :: "char \<Rightarrow> char \<Rightarrow> char \<Rightarrow> bool" where
  "ws3 a b c = (case (byte_val a, byte_val b, byte_val c) of (x, y, z) \<Rightarrow>
     (x = 0xE1 \<and> y = 0x9A \<and> z = 0x80) \<or>
     (x = 0xE2 \<and> y = 0x80 \<and> (0x80 \<le> z \<and> z \<le> 0x8A \<or> z = 0xA8 \<or> z = 0xA9 \<or> z = 0xAF)) \<or>
     (x = 0xE2 \<and> y = 0x81 \<and> z = 0x9F) \<or>
     (x = 0xE3 \<and> y = 0x80 \<and> z = 0x80))"

text \<open>The number of bytes of the white space at the front, or (reversed text) at the end.\<close>

fun ws_head :: "string \<Rightarrow> nat" where
  "ws_head (a # b # c # s) =
     (if ascii_ws a then 1 else if ws2 a b then 2 else if ws3 a b c then 3 else 0)"
| "ws_head [a, b] = (if ascii_ws a then 1 else if ws2 a b then 2 else 0)"
| "ws_head [a] = (if ascii_ws a then 1 else 0)"
| "ws_head [] = 0"

fun ws_tail :: "string \<Rightarrow> nat" where
  "ws_tail (c # b # a # s) =
     (if ascii_ws c then 1 else if ws2 b c then 2 else if ws3 a b c then 3 else 0)"
| "ws_tail [b, a] = (if ascii_ws b then 1 else if ws2 a b then 2 else 0)"
| "ws_tail [a] = (if ascii_ws a then 1 else 0)"
| "ws_tail [] = 0"

function strip_ws :: "(string \<Rightarrow> nat) \<Rightarrow> string \<Rightarrow> string" where
  "strip_ws h s = (if h s = 0 \<or> s = [] then s else strip_ws h (drop (h s) s))"
  by pat_completeness auto
termination
  by (relation "measure (\<lambda>(h, s). length s)") auto

declare strip_ws.simps [simp del]

definition trim_start :: "string \<Rightarrow> string" where
  "trim_start s = strip_ws ws_head s"

definition trim_end :: "string \<Rightarrow> string" where
  "trim_end s = rev (strip_ws ws_tail (rev s))"

definition trim :: "string \<Rightarrow> string" where
  "trim s = trim_end (trim_start s)"

lemma strip_ws_id: "h s = 0 \<Longrightarrow> strip_ws h s = s"
  by (subst strip_ws.simps) simp

lemma strip_ws_Nil [simp]: "strip_ws h [] = []"
  by (subst strip_ws.simps) simp

lemma strip_ws_suffix: "\<exists>a. s = a @ strip_ws h s"
proof (induction h s rule: strip_ws.induct)
  case (1 h s)
  show ?case
  proof (cases "h s = 0 \<or> s = []")
    case True
    then show ?thesis by (metis append_Nil strip_ws.simps)
  next
    case False
    with 1 obtain a where a: "drop (h s) s = a @ strip_ws h (drop (h s) s)" by blast
    from False have eq: "strip_ws h s = strip_ws h (drop (h s) s)" by (subst strip_ws.simps) simp
    have "s = take (h s) s @ drop (h s) s" by simp
    also have "\<dots> = (take (h s) s @ a) @ strip_ws h s" using a eq by simp
    finally show ?thesis by blast
  qed
qed

lemma strip_ws_done: "h (strip_ws h s) = 0 \<or> strip_ws h s = []"
proof (induction h s rule: strip_ws.induct)
  case (1 h s)
  then show ?case by (cases "h s = 0 \<or> s = []") (auto simp: strip_ws.simps[of h s])
qed

lemma trim_start_trim: "\<exists>b. trim_start s = trim s @ b"
proof -
  obtain b where "rev (trim_start s) = b @ strip_ws ws_tail (rev (trim_start s))"
    using strip_ws_suffix by blast
  then have "trim_start s = trim s @ rev b"
    unfolding trim_def trim_end_def by (metis rev_append rev_rev_ident)
  then show ?thesis by blast
qed

lemma trim_infix: "\<exists>a b. s = a @ trim s @ b"
proof -
  obtain a where a: "s = a @ trim_start s"
    unfolding trim_start_def using strip_ws_suffix by blast
  obtain b where "trim_start s = trim s @ b" using trim_start_trim by blast
  with a show ?thesis by metis
qed

lemma set_trim: "set (trim s) \<subseteq> set s"
proof -
  obtain a b where "s = a @ trim s @ b" using trim_infix by blast
  then have "set s = set (a @ trim s @ b)" by simp
  then show ?thesis by auto
qed

lemma length_trim: "length (trim s) \<le> length s"
proof -
  obtain a b where "s = a @ trim s @ b" using trim_infix by blast
  then have "length s = length (a @ trim s @ b)" by simp
  then show ?thesis by simp
qed

lemma trim_Nil [simp]: "trim [] = []"
  by (simp add: trim_def trim_start_def trim_end_def)

text \<open>An ASCII character other than white space at an end stops the trimming there.\<close>

definition solid :: "char \<Rightarrow> bool" where
  "solid c = (is_ascii c \<and> \<not> ascii_ws c)"

lemma solid_simps [simp]:
  "solid c \<Longrightarrow> \<not> ascii_ws c"
  "solid c \<Longrightarrow> \<not> ws2 c b"
  "solid c \<Longrightarrow> \<not> ws2 a c"
  "solid c \<Longrightarrow> \<not> ws3 c a b"
  "solid c \<Longrightarrow> \<not> ws3 a c b"
  "solid c \<Longrightarrow> \<not> ws3 a b c"
  by (auto simp: solid_def ws2_def ws3_def is_ascii_def)

lemma ws_head_solid [simp]: "solid c \<Longrightarrow> ws_head (c # s) = 0"
  by (cases "c # s" rule: ws_head.cases) auto

lemma ws_tail_solid [simp]: "solid c \<Longrightarrow> ws_tail (c # s) = 0"
  by (cases "c # s" rule: ws_tail.cases) auto

lemma ws_head_append_solid: "s \<noteq> [] \<Longrightarrow> ws_head s = 0 \<Longrightarrow> solid c \<Longrightarrow> ws_head (s @ c # t) = 0"
  by (cases s rule: ws_head.cases; cases t) (auto split: if_splits)

lemma trim_start_id: "ws_head s = 0 \<Longrightarrow> trim_start s = s"
  by (simp add: trim_start_def strip_ws_id)

lemma trim_end_solid: "solid c \<Longrightarrow> trim_end (s @ [c]) = s @ [c]"
  by (simp add: trim_end_def strip_ws_id)

lemma trim_end_drop_ws: "ascii_ws w \<Longrightarrow> trim_end (s @ [w]) = trim_end s"
proof -
  assume w: "ascii_ws w"
  then have "ws_tail (w # rev s) = 1" by (cases "w # rev s" rule: ws_tail.cases) auto
  then show ?thesis
    by (simp add: trim_end_def) (subst strip_ws.simps, simp)
qed

lemma trim_start_drop_ws: "ascii_ws w \<Longrightarrow> trim_start (w # s) = trim_start s"
proof -
  assume w: "ascii_ws w"
  then have "ws_head (w # s) = 1" by (cases "w # s" rule: ws_head.cases) auto
  then show ?thesis
    by (simp add: trim_start_def) (subst strip_ws.simps, simp)
qed

lemma ascii_ws_SP [simp]: "ascii_ws SP" "ascii_ws NL" "ascii_ws CR"
  by (simp_all add: ascii_ws_def byte_val_def)

lemma solid_COLON [simp]: "solid COLON"
  by code_simp

lemma ws_head_trim_start: "ws_head (trim_start s) = 0"
  using strip_ws_done[of ws_head s] by (auto simp: trim_start_def)

lemma trim_solid_ends: "ws_head (s @ [c]) = 0 \<Longrightarrow> solid c \<Longrightarrow> trim (s @ [c]) = s @ [c]"
  by (simp add: trim_def trim_start_id trim_end_solid)

text \<open>Text made of solid characters only is not changed.\<close>

lemma trim_all_solid: "\<forall>c \<in> set s. solid c \<Longrightarrow> trim s = s"
proof (cases "s = []")
  case True
  then show ?thesis by simp
next
  case False
  assume s: "\<forall>c \<in> set s. solid c"
  from False obtain t c where t: "s = t @ [c]" by (metis append_butlast_last_id)
  have "ws_head s = 0" using False s by (cases s) auto
  with s t show ?thesis by (simp add: trim_solid_ends)
qed

text \<open>What \<open>trim\<close> returns starts with no white space, so trimming the front again is a no-op.\<close>

lemma ws_head_prefix: "ws_head (s @ t) = 0 \<Longrightarrow> ws_head s = 0"
  by (cases s rule: ws_head.cases; cases t rule: ws_head.cases) (auto split: if_splits)

lemma ws_head_trim: "ws_head (trim s) = 0"
  by (metis trim_start_trim ws_head_trim_start ws_head_prefix)

lemma ws_tail_trim: "ws_tail (rev (trim s)) = 0"
  using strip_ws_done [of ws_tail "rev (trim_start s)"] by (auto simp: trim_def trim_end_def)

text \<open>An ASCII character before a text without white space at its end stops the trimming too.\<close>

lemma ws_tail_append_ascii: "s \<noteq> [] \<Longrightarrow> ws_tail s = 0 \<Longrightarrow> is_ascii c \<Longrightarrow> ws_tail (s @ c # t) = 0"
  by (cases s rule: ws_tail.cases; cases t) (auto simp: ws2_def ws3_def is_ascii_def split: if_splits)

lemma trim_end_after_ascii:
  assumes "trim v = v" "v \<noteq> []" "is_ascii c"
  shows "trim_end (u @ c # v) = u @ c # v"
  using ws_tail_append_ascii [of "rev v" c "rev u"] ws_tail_trim [of v] assms
  by (simp add: trim_end_def strip_ws_id)

lemma trim_drop_SP: "trim (SP # s) = trim s"
  by (simp add: trim_def trim_start_drop_ws)

section \<open>Lines\<close>

definition strip_cr :: "string \<Rightarrow> string" where
  "strip_cr l = (case strip_suffix [CR] l of Some l' \<Rightarrow> l' | None \<Rightarrow> l)"

fun lines_from :: "string \<Rightarrow> string \<Rightarrow> string list" where
  "lines_from acc [] = (if acc = [] then [] else [rev acc])"
| "lines_from acc (c # s) =
     (if c = NL then strip_cr (rev acc) # lines_from [] s else lines_from (c # acc) s)"

definition lines :: "string \<Rightarrow> string list" where
  "lines s = lines_from [] s"

lemma lines_from_no_NL:
  "NL \<notin> set l \<Longrightarrow> lines_from acc l = (if rev acc @ l = [] then [] else [rev acc @ l])"
  by (induction l arbitrary: acc) auto

lemma lines_from_NL:
  "NL \<notin> set l \<Longrightarrow> lines_from acc (l @ NL # s) = strip_cr (rev acc @ l) # lines_from [] s"
  by (induction l arbitrary: acc) auto

lemma lines_Nil [simp]: "lines [] = []"
  by (simp add: lines_def)

lemma lines_single: "NL \<notin> set l \<Longrightarrow> l \<noteq> [] \<Longrightarrow> lines l = [l]"
  by (simp add: lines_def lines_from_no_NL)

lemma lines_append_NL: "NL \<notin> set l \<Longrightarrow> lines (l @ NL # s) = strip_cr l # lines s"
  by (simp add: lines_def lines_from_NL)

lemma strip_cr_solid: "c \<noteq> CR \<Longrightarrow> strip_cr (l @ [c]) = l @ [c]"
  by (auto simp: strip_cr_def strip_suffix_Some split: option.splits)

lemma set_strip_cr: "set (strip_cr l) \<subseteq> set l"
  by (auto simp: strip_cr_def strip_suffix_Some split: option.splits)

lemma lines_from_no_NL_set:
  "NL \<notin> set acc \<Longrightarrow> l \<in> set (lines_from acc s) \<Longrightarrow> NL \<notin> set l"
proof (induction acc s arbitrary: l rule: lines_from.induct)
  case (1 acc)
  then show ?case by (auto split: if_splits)
next
  case (2 acc c s)
  then show ?case
    using set_strip_cr[of "rev acc"] by (auto split: if_splits)
qed

lemma lines_no_NL: "l \<in> set (lines s) \<Longrightarrow> NL \<notin> set l"
  using lines_from_no_NL_set[of "[]"] by (simp add: lines_def)

text \<open>Lines joined with line feeds come back, if none is empty or ends in a carriage return.\<close>

definition plain_line :: "string \<Rightarrow> bool" where
  "plain_line l = (NL \<notin> set l \<and> l \<noteq> [] \<and> last l \<noteq> CR)"

lemma strip_cr_plain: "plain_line l \<Longrightarrow> strip_cr l = l"
  by (metis plain_line_def append_butlast_last_id strip_cr_solid)

lemma lines_join: "\<forall>l \<in> set ls. plain_line l \<Longrightarrow> lines (join [NL] ls) = ls"
proof (induction ls)
  case Nil
  then show ?case by simp
next
  case (Cons l ls)
  then have l: "plain_line l" by simp
  then have "NL \<notin> set l" "l \<noteq> []" by (simp_all add: plain_line_def)
  with Cons l show ?case
    by (auto simp: join_Cons lines_single lines_append_NL strip_cr_plain)
qed

section \<open>Case mapping\<close>

definition ascii_upper :: "char \<Rightarrow> char" where
  "ascii_upper c = (if 97 \<le> byte_val c \<and> byte_val c \<le> 122 then char_of (byte_val c - 32) else c)"

definition ascii_lower :: "char \<Rightarrow> char" where
  "ascii_lower c = (if 65 \<le> byte_val c \<and> byte_val c \<le> 90 then char_of (byte_val c + 32) else c)"

text \<open>
  The non-ASCII characters with an all-ASCII mapping: dotless i, long s, sharp s and the Latin
  ligatures to upper case, the Kelvin sign to lower case.
\<close>

definition upper_specials :: "(string \<times> string) list" where
  "upper_specials =
     [([CHR 0xC4, CHR 0xB1], ''I''), ([CHR 0xC5, CHR 0xBF], ''S''), ([CHR 0xC3, CHR 0x9F], ''SS''),
      ([CHR 0xEF, CHR 0xAC, CHR 0x80], ''FF''), ([CHR 0xEF, CHR 0xAC, CHR 0x81], ''FI''),
      ([CHR 0xEF, CHR 0xAC, CHR 0x82], ''FL''), ([CHR 0xEF, CHR 0xAC, CHR 0x83], ''FFI''),
      ([CHR 0xEF, CHR 0xAC, CHR 0x84], ''FFL''), ([CHR 0xEF, CHR 0xAC, CHR 0x85], ''ST''),
      ([CHR 0xEF, CHR 0xAC, CHR 0x86], ''ST'')]"

definition lower_specials :: "(string \<times> string) list" where
  "lower_specials = [([CHR 0xE2, CHR 0x84, CHR 0xAA], ''k'')]"

fun special_at :: "(string \<times> string) list \<Rightarrow> string \<Rightarrow> (string \<times> nat) option" where
  "special_at [] s = None"
| "special_at ((p, r) # t) s =
     (if starts_with p s then Some (r, length p - 1) else special_at t s)"

fun map_case :: "(string \<times> string) list \<Rightarrow> (char \<Rightarrow> char) \<Rightarrow> string \<Rightarrow> string" where
  "map_case t f [] = []"
| "map_case t f (c # s) =
     (case special_at t (c # s) of
        Some (r, n) \<Rightarrow> r @ map_case t f (drop n s)
      | None \<Rightarrow> f c # map_case t f s)"

definition to_uppercase :: "string \<Rightarrow> string" where
  "to_uppercase s = map_case upper_specials ascii_upper s"

definition to_lowercase :: "string \<Rightarrow> string" where
  "to_lowercase s = map_case lower_specials ascii_lower s"

lemma special_at_ascii:
  "is_ascii c \<Longrightarrow> \<forall>(p, r) \<in> set t. p \<noteq> [] \<and> \<not> is_ascii (hd p) \<Longrightarrow> special_at t (c # s) = None"
  by (induction t) (auto simp: starts_with_iff neq_Nil_conv)

lemma map_case_ascii:
  assumes "\<forall>(p, r) \<in> set t. p \<noteq> [] \<and> \<not> is_ascii (hd p)"
  shows "\<forall>c \<in> set s. is_ascii c \<Longrightarrow> map_case t f s = map f s"
  by (induction s) (auto simp: special_at_ascii[OF _ assms])

lemma upper_specials_ok: "\<forall>(p, r) \<in> set upper_specials. p \<noteq> [] \<and> \<not> is_ascii (hd p)"
  by code_simp

lemma lower_specials_ok: "\<forall>(p, r) \<in> set lower_specials. p \<noteq> [] \<and> \<not> is_ascii (hd p)"
  by code_simp

lemma to_uppercase_ascii: "\<forall>c \<in> set s. is_ascii c \<Longrightarrow> to_uppercase s = map ascii_upper s"
  unfolding to_uppercase_def by (rule map_case_ascii[OF upper_specials_ok])

lemma to_lowercase_ascii: "\<forall>c \<in> set s. is_ascii c \<Longrightarrow> to_lowercase s = map ascii_lower s"
  unfolding to_lowercase_def by (rule map_case_ascii[OF lower_specials_ok])

lemma to_uppercase_fixed: "list_all (\<lambda>c. is_ascii c \<and> ascii_upper c = c) s \<Longrightarrow> to_uppercase s = s"
  by (simp add: to_uppercase_ascii list_all_iff map_idI)

lemma to_lowercase_fixed: "list_all (\<lambda>c. is_ascii c \<and> ascii_lower c = c) s \<Longrightarrow> to_lowercase s = s"
  by (simp add: to_lowercase_ascii list_all_iff map_idI)

section \<open>UTF-8\<close>

text \<open>Well-formed byte sequences, by table 3-7 of the Unicode standard.\<close>

definition utf8_cont :: "char \<Rightarrow> bool" where
  "utf8_cont c = (0x80 \<le> byte_val c \<and> byte_val c \<le> 0xBF)"

definition utf8_lead2 :: "char \<Rightarrow> bool" where
  "utf8_lead2 a = (0xC2 \<le> byte_val a \<and> byte_val a \<le> 0xDF)"

definition utf8_lead3 :: "char \<Rightarrow> char \<Rightarrow> bool" where
  "utf8_lead3 a b =
     (let x = byte_val a; y = byte_val b in
        0xE0 \<le> x \<and> x \<le> 0xEF \<and> utf8_cont b \<and> (x = 0xE0 \<longrightarrow> 0xA0 \<le> y) \<and> (x = 0xED \<longrightarrow> y \<le> 0x9F))"

definition utf8_lead4 :: "char \<Rightarrow> char \<Rightarrow> bool" where
  "utf8_lead4 a b =
     (let x = byte_val a; y = byte_val b in
        0xF0 \<le> x \<and> x \<le> 0xF4 \<and> utf8_cont b \<and> (x = 0xF0 \<longrightarrow> 0x90 \<le> y) \<and> (x = 0xF4 \<longrightarrow> y \<le> 0x8F))"

text \<open>The length of the character at the front, 0 where the bytes are ill-formed.\<close>

fun utf8_width :: "string \<Rightarrow> nat" where
  "utf8_width [] = 0"
| "utf8_width (a # s) =
     (if is_ascii a then 1
      else case s of
        [] \<Rightarrow> 0
      | b # s2 \<Rightarrow>
          if utf8_lead2 a \<and> utf8_cont b then 2
          else (case s2 of
              [] \<Rightarrow> 0
            | c # s3 \<Rightarrow>
                if utf8_lead3 a b \<and> utf8_cont c then 3
                else (case s3 of
                    [] \<Rightarrow> 0
                  | d # s4 \<Rightarrow> if utf8_lead4 a b \<and> utf8_cont c \<and> utf8_cont d then 4 else 0)))"

function utf8_valid :: "string \<Rightarrow> bool" where
  "utf8_valid s =
     (if s = [] then True
      else if utf8_width s = 0 then False
      else utf8_valid (drop (utf8_width s) s))"
  by pat_completeness auto
termination
  by (relation "measure length") auto

declare utf8_valid.simps [simp del]

lemma utf8_valid_Nil [simp]: "utf8_valid []"
  by (subst utf8_valid.simps) simp

lemma utf8_width_le: "utf8_width s \<le> length s"
  by (cases s) (auto split: list.splits)

lemma utf8_width_append: "utf8_width s \<noteq> 0 \<Longrightarrow> utf8_width (s @ t) = utf8_width s"
proof (cases s)
  case (Cons a s1)
  assume "utf8_width s \<noteq> 0"
  with Cons show ?thesis
    by (cases s1; cases "tl s1"; cases "tl (tl s1)") (auto split: if_split_asm)
qed simp

lemma utf8_valid_ascii_Cons [simp]: "is_ascii c \<Longrightarrow> utf8_valid (c # s) = utf8_valid s"
  by (subst utf8_valid.simps) simp

lemma utf8_valid_append: "utf8_valid s \<Longrightarrow> utf8_valid (s @ t) = utf8_valid t"
proof (induction s rule: utf8_valid.induct)
  case (1 s)
  show ?case
  proof (cases "s = []")
    case True
    then show ?thesis by simp
  next
    case False
    with "1.prems" have w: "utf8_width s \<noteq> 0" and v: "utf8_valid (drop (utf8_width s) s)"
      by (auto simp: utf8_valid.simps[of s] split: if_splits)
    have "utf8_valid (s @ t) = utf8_valid (drop (utf8_width s) s @ t)"
      using False w utf8_width_le[of s]
      by (subst utf8_valid.simps) (simp add: utf8_width_append)
    with "1.IH"[OF False w v] show ?thesis by simp
  qed
qed

lemma utf8_valid_ascii: "\<forall>c \<in> set s. is_ascii c \<Longrightarrow> utf8_valid s"
  by (induction s) auto

section \<open>Slices\<close>

text \<open>\<open>&s[..n.min(s.len())]\<close> panics when the cut is inside a character.\<close>

definition char_boundary :: "string \<Rightarrow> nat \<Rightarrow> bool" where
  "char_boundary s n = (n \<ge> length s \<or> byte_val (s ! n) < 128 \<or> 192 \<le> byte_val (s ! n))"

definition cut :: "nat \<Rightarrow> string \<Rightarrow> string option" where
  "cut n s = (if char_boundary s n then Some (take n s) else None)"

end
