(* ===== verification/Rust_Num.thy ===== *)
theory Rust_Num
  imports Rust_Text
begin

text \<open>
  Decimal numbers: \<open>Display\<close> and \<open>FromStr\<close> of Rust's integer types. Parsing goes digit by
  digit and reports the first problem met, as \<open>from_str_radix\<close> does: an empty string, a
  character that is no digit, or a value out of range.
\<close>

datatype int_error_kind = EmptyNum | InvalidDigit | PosOverflow | NegOverflow

fun int_error_display :: "int_error_kind \<Rightarrow> string" where
  "int_error_display EmptyNum = ''cannot parse integer from empty string''"
| "int_error_display InvalidDigit = ''invalid digit found in string''"
| "int_error_display PosOverflow = ''number too large to fit in target type''"
| "int_error_display NegOverflow = ''number too small to fit in target type''"

section \<open>Printing\<close>

definition digit_char :: "nat \<Rightarrow> char" where
  "digit_char d = char_of (48 + d)"

fun nat_to_string :: "nat \<Rightarrow> string" where
  "nat_to_string n =
     (if n < 10 then [digit_char n] else nat_to_string (n div 10) @ [digit_char (n mod 10)])"

declare nat_to_string.simps [simp del]

section \<open>Parsing\<close>

definition is_digit :: "char \<Rightarrow> bool" where
  "is_digit c = (48 \<le> byte_val c \<and> byte_val c \<le> 57)"

definition digit_val :: "char \<Rightarrow> nat" where
  "digit_val c = byte_val c - 48"

text \<open>\<open>bound\<close> is the largest value of the type; \<open>over\<close> the error past it.\<close>

fun digits_from :: "int_error_kind \<Rightarrow> nat \<Rightarrow> nat \<Rightarrow> string \<Rightarrow> (int_error_kind, nat) result" where
  "digits_from over bound acc [] = Inr acc"
| "digits_from over bound acc (c # s) =
     (if is_digit c then
        let v = 10 * acc + digit_val c in
        if bound < v then Inl over else digits_from over bound v s
      else Inl InvalidDigit)"

definition parse_uint :: "nat \<Rightarrow> string \<Rightarrow> (int_error_kind, nat) result" where
  "parse_uint bound s =
     (case s of
        [] \<Rightarrow> Inl EmptyNum
      | c # r \<Rightarrow>
          if s = ''+'' \<or> s = ''-'' then Inl InvalidDigit
          else digits_from PosOverflow bound 0 (if c = CHR ''+'' then r else s))"

definition parse_usize :: "string \<Rightarrow> (int_error_kind, nat) result" where
  "parse_usize = parse_uint (2 ^ 64 - 1)"

definition parse_u32 :: "string \<Rightarrow> (int_error_kind, u32) result" where
  "parse_u32 s = map_sum id of_nat (parse_uint (2 ^ 32 - 1) s)"

definition parse_u8 :: "string \<Rightarrow> (int_error_kind, u8) result" where
  "parse_u8 s = map_sum id of_nat (parse_uint (2 ^ 8 - 1) s)"

definition parse_i64 :: "string \<Rightarrow> (int_error_kind, i64) result" where
  "parse_i64 s =
     (case s of
        [] \<Rightarrow> Inl EmptyNum
      | c # r \<Rightarrow>
          if s = ''+'' \<or> s = ''-'' then Inl InvalidDigit
          else if c = CHR ''-'' then
            map_sum id (\<lambda>n. - of_nat n) (digits_from NegOverflow (2 ^ 63) 0 r)
          else map_sum id of_nat
            (digits_from PosOverflow (2 ^ 63 - 1) 0 (if c = CHR ''+'' then r else s)))"

section \<open>Round trip\<close>

lemma byte_val_digit_char [simp]: "d < 10 \<Longrightarrow> byte_val (digit_char d) = 48 + d"
  by (simp add: byte_val_def digit_char_def)

lemma is_digit_digit_char [simp]: "d < 10 \<Longrightarrow> is_digit (digit_char d)"
  by (simp add: is_digit_def)

lemma digit_val_digit_char [simp]: "d < 10 \<Longrightarrow> digit_val (digit_char d) = d"
  by (simp add: digit_val_def)

lemma nat_to_string_digits: "\<forall>c \<in> set (nat_to_string n). is_digit c"
proof (induction n rule: nat_to_string.induct)
  case (1 n)
  then show ?case by (subst nat_to_string.simps) auto
qed

lemma nat_to_string_nonempty [simp]: "nat_to_string n \<noteq> []"
  by (subst nat_to_string.simps) simp

lemma is_digit_solid: "is_digit c \<Longrightarrow> solid c"
  by (auto simp: is_digit_def solid_def is_ascii_def ascii_ws_def)

lemma is_digit_neq: "is_digit c \<Longrightarrow> \<not> is_digit x \<Longrightarrow> c \<noteq> x"
  by auto

lemma not_digit_simps [simp]:
  "\<not> is_digit NL" "\<not> is_digit CR" "\<not> is_digit SP" "\<not> is_digit COLON"
  "\<not> is_digit (CHR ''+'')" "\<not> is_digit (CHR ''-'')" "\<not> is_digit COMMA" "\<not> is_digit QUOTE"
  by (simp_all add: is_digit_def byte_val_def)

lemma nat_to_string_notin: "\<not> is_digit x \<Longrightarrow> x \<notin> set (nat_to_string n)"
  using nat_to_string_digits by blast

lemma digits_from_append:
  "digits_from over bound acc s = Inr v \<Longrightarrow>
   digits_from over bound acc (s @ t) = digits_from over bound v t"
  by (induction over bound acc s rule: digits_from.induct) (auto simp: Let_def split: if_splits)

lemma digits_from_nat_to_string: "n \<le> bound \<Longrightarrow> digits_from over bound 0 (nat_to_string n) = Inr n"
proof (induction n rule: nat_to_string.induct)
  case (1 n)
  show ?case
  proof (cases "n < 10")
    case True
    with "1.prems" show ?thesis by (subst nat_to_string.simps) simp
  next
    case False
    then have "digits_from over bound 0 (nat_to_string (n div 10)) = Inr (n div 10)"
      using 1 by simp
    moreover have "n mod 10 < 10" by simp
    ultimately show ?thesis
      using False "1.prems" by (subst nat_to_string.simps) (simp add: digits_from_append)
  qed
qed

lemma parse_uint_digits:
  assumes "s \<noteq> []" "\<forall>c \<in> set s. is_digit c"
  shows "parse_uint bound s = digits_from PosOverflow bound 0 s"
  using assms by (cases s) (auto simp: parse_uint_def)

lemma parse_uint_nat_to_string [num_simps]: "n \<le> bound \<Longrightarrow> parse_uint bound (nat_to_string n) = Inr n"
  by (simp add: parse_uint_digits nat_to_string_digits digits_from_nat_to_string)

lemma nat_to_string_inj: "nat_to_string m = nat_to_string n \<Longrightarrow> m = n"
  by (metis parse_uint_nat_to_string max.cobounded1 max.cobounded2 sum.inject(2))

lemma digits_from_bound: "digits_from over bound acc s = Inr v \<Longrightarrow> acc \<le> bound \<Longrightarrow> v \<le> bound"
  by (induction over bound acc s rule: digits_from.induct) (auto simp: Let_def split: if_splits)

lemma parse_uint_bound: "parse_uint bound s = Inr v \<Longrightarrow> v \<le> bound"
  unfolding parse_uint_def
  by (auto simp del: digits_from.simps split: list.splits if_splits dest!: digits_from_bound)

lemma parse_u32_nat_to_string [num_simps]: "parse_u32 (nat_to_string (unat n)) = Inr n"
proof -
  have "unat n < 2 ^ 32" using unsigned_less[of n, where 'a = nat] by simp
  then have "unat n \<le> 2 ^ 32 - 1" by simp
  then show ?thesis by (simp add: parse_u32_def parse_uint_nat_to_string)
qed

lemma parse_usize_nat_to_string [num_simps]: "n < 2 ^ 64 \<Longrightarrow> parse_usize (nat_to_string n) = Inr n"
  by (simp add: parse_usize_def parse_uint_nat_to_string)

lemma trim_nat_to_string [simp]: "trim (nat_to_string n) = nat_to_string n"
  using nat_to_string_digits is_digit_solid by (intro trim_all_solid) blast

end
