(* ===== verification/Esl_Error.thy ===== *)
theory Esl_Error
  imports Rust_Num
begin

text \<open>
  \<open>src/src/error.rs\<close>: the error type of the crate, its \<open>Display\<close> text and its two
  classifications. A wrapped foreign error (\<open>std::io::Error\<close>, \<open>serde_json::Error\<close>,
  \<open>quick_xml::Error\<close>, \<open>Utf8Error\<close>) is represented by its own display text, all that the crate
  uses of it. \<open>OriginateError\<close> is the error type of \<open>src/src/commands/originate.rs\<close>.
\<close>

datatype OriginateError =
    UnclosedQuote string
  | TooManyApplications
  | ParseError string

fun originate_error_display :: "OriginateError \<Rightarrow> string" where
  "originate_error_display (UnclosedQuote t) = ''unclosed quote at: '' @ t"
| "originate_error_display TooManyApplications = ''too many applications for non-inline dialplan''"
| "originate_error_display (ParseError m) = ''parse error: '' @ m"

datatype EslError =
    Io string
  | NotConnected
  | AuthenticationFailed string
  | ProtocolError string
  | CommandFailed string
  | UnexpectedReply string
  | Timeout u64
  | InvalidEventFormat string
  | JsonError string
  | XmlError string
  | Utf8Error string
  | BufferOverflow nat nat
  | InvalidHeader string
  | MissingHeader string
  | ConnectionClosed
  | HeartbeatExpired u64
  | InvalidUuid string
  | QueueFull
  | Generic string
  | OriginateErr OriginateError

type_synonym 'a EslResult = "(EslError, 'a) result"

fun esl_error_display :: "EslError \<Rightarrow> string" where
  "esl_error_display (Io e) = ''IO error: '' @ e"
| "esl_error_display NotConnected = ''Not connected to FreeSWITCH''"
| "esl_error_display (AuthenticationFailed r) = ''Authentication failed: '' @ r"
| "esl_error_display (ProtocolError m) = ''Protocol error: '' @ m"
| "esl_error_display (CommandFailed r) = ''Command failed: '' @ r"
| "esl_error_display (UnexpectedReply r) = ''Unexpected reply: '' @ r"
| "esl_error_display (Timeout ms) =
     ''Operation timed out after '' @ nat_to_string (unat ms) @ ''ms''"
| "esl_error_display (InvalidEventFormat f) = ''Invalid event format: '' @ f"
| "esl_error_display (JsonError e) = ''JSON parsing error: '' @ e"
| "esl_error_display (XmlError e) = ''XML parsing error: '' @ e"
| "esl_error_display (Utf8Error e) = ''UTF-8 conversion error: '' @ e"
| "esl_error_display (BufferOverflow n l) =
     ''Buffer overflow: message size '' @ nat_to_string n @ '' exceeds limit '' @ nat_to_string l"
| "esl_error_display (InvalidHeader h) = ''Invalid header format: '' @ h"
| "esl_error_display (MissingHeader h) = ''Missing required header: '' @ h"
| "esl_error_display ConnectionClosed = ''Connection closed by FreeSWITCH''"
| "esl_error_display (HeartbeatExpired ms) =
     ''Heartbeat expired after '' @ nat_to_string (unat ms) @ ''ms without traffic''"
| "esl_error_display (InvalidUuid u) = ''Invalid UUID format: '' @ u"
| "esl_error_display QueueFull = ''Event queue is full - dropping events''"
| "esl_error_display (Generic m) = ''ESL error: '' @ m"
| "esl_error_display (OriginateErr e) = ''Originate error: '' @ originate_error_display e"

definition generic :: "string \<Rightarrow> EslError" where
  "generic m = Generic m"

definition protocol_error :: "string \<Rightarrow> EslError" where
  "protocol_error m = ProtocolError m"

definition auth_failed :: "string \<Rightarrow> EslError" where
  "auth_failed r = AuthenticationFailed r"

fun is_recoverable :: "EslError \<Rightarrow> bool" where
  "is_recoverable (Io _) = False"
| "is_recoverable NotConnected = False"
| "is_recoverable ConnectionClosed = False"
| "is_recoverable (AuthenticationFailed _) = False"
| "is_recoverable (HeartbeatExpired _) = False"
| "is_recoverable (Timeout _) = True"
| "is_recoverable (CommandFailed _) = True"
| "is_recoverable (UnexpectedReply _) = True"
| "is_recoverable QueueFull = True"
| "is_recoverable _ = False"

fun is_connection_error :: "EslError \<Rightarrow> bool" where
  "is_connection_error (Io _) = True"
| "is_connection_error NotConnected = True"
| "is_connection_error ConnectionClosed = True"
| "is_connection_error (HeartbeatExpired _) = True"
| "is_connection_error _ = False"

text \<open>The two classifications never hold of the same error: no error is both
  reported as "the connection is usable, retry" and as "the TCP session is dead".\<close>

theorem error_classes_disjoint: "\<not> (is_recoverable e \<and> is_connection_error e)"
  by (cases e) auto

end
