(* ===== verification/Esl_Buffer.thy ===== *)
theory Esl_Buffer
  imports Rust_Str Esl_Constants Esl_Error
begin

text \<open>
  \<open>src/src/buffer.rs\<close>: the receive buffer. A \<open>BytesMut\<close> is its contents; its capacity only
  drives reallocation and log lines and is left out. The bytes before \<open>position\<close> are consumed;
  \<open>wf_buffer\<close> (the position never passes the end) is the invariant that keeps the
  subtraction in \<open>len\<close> and the slices of the code from panicking.

  The parser uses the buffer through the contract \<open>byte_buffer\<close> below, stated over the
  unconsumed bytes only.
\<close>

record EslBuffer =
  buffer :: bytes
  position :: nat

definition buf_new :: EslBuffer where
  "buf_new = \<lparr>buffer = [], position = 0\<rparr>"

definition buf_len :: "EslBuffer \<Rightarrow> nat" where
  "buf_len b = length (buffer b) - position b"

definition extend_from_slice :: "EslBuffer \<Rightarrow> bytes \<Rightarrow> EslBuffer" where
  "extend_from_slice b d = b\<lparr>buffer := buffer b @ d\<rparr>"

definition buf_data :: "EslBuffer \<Rightarrow> bytes" where
  "buf_data b = drop (position b) (buffer b)"

definition advance :: "EslBuffer \<Rightarrow> nat \<Rightarrow> unit EslResult \<times> EslBuffer" where
  "advance b count =
     (let available = buf_len b in
      if count > available then
        (Inl (protocol_error (''cannot advance '' @ nat_to_string count @ '' bytes, only ''
            @ nat_to_string available @ '' available'')), b)
      else (Inr (), b\<lparr>position := position b + count\<rparr>))"

definition find_pattern :: "EslBuffer \<Rightarrow> bytes \<Rightarrow> nat option" where
  "find_pattern b pattern =
     (let data = buf_data b in
      if pattern = [] \<or> length data < length pattern then None
      else find (\<lambda>i. take (length pattern) (drop i data) = pattern)
             [0 ..< Suc (length data - length pattern)])"

definition extract_until_pattern :: "EslBuffer \<Rightarrow> bytes \<Rightarrow> bytes option \<times> EslBuffer" where
  "extract_until_pattern b pattern =
     (case find_pattern b pattern of
        Some pos \<Rightarrow> (Some (take pos (buf_data b)), snd (advance b (pos + length pattern)))
      | None \<Rightarrow> (None, b))"

definition extract_bytes :: "EslBuffer \<Rightarrow> nat \<Rightarrow> bytes option \<times> EslBuffer" where
  "extract_bytes b count =
     (if buf_len b \<ge> count then (Some (take count (buf_data b)), snd (advance b count))
      else (None, b))"

text \<open>\<open>copy_within(from.., 0)\<close> on a slice: the tail is copied over the front.\<close>

definition copy_to_front :: "bytes \<Rightarrow> nat \<Rightarrow> bytes" where
  "copy_to_front xs from = drop from xs @ drop (length xs - from) xs"

definition compact :: "EslBuffer \<Rightarrow> EslBuffer" where
  "compact b =
     (if position b > 0 then
        (let remaining_len = buf_len b;
             moved = (if remaining_len > 0 then copy_to_front (buffer b) (position b) else buffer b)
         in b\<lparr>buffer := take remaining_len moved, position := 0\<rparr>)
      else b)"

definition check_size_limits :: "EslBuffer \<Rightarrow> unit EslResult" where
  "check_size_limits b =
     (if length (buffer b) > MAX_BUFFER_SIZE
      then Inl (BufferOverflow (length (buffer b)) MAX_BUFFER_SIZE)
      else Inr ())"

section \<open>Invariant and abstraction\<close>

definition wf_buffer :: "EslBuffer \<Rightarrow> bool" where
  "wf_buffer b = (position b \<le> length (buffer b))"

lemma wf_buf_new [simp]: "wf_buffer buf_new"
  by (simp add: wf_buffer_def buf_new_def)

lemma buf_data_new [simp]: "buf_data buf_new = []"
  by (simp add: buf_data_def buf_new_def)

lemma buf_len_data: "buf_len b = length (buf_data b)"
  by (simp add: buf_len_def buf_data_def)

lemma wf_extend [simp]: "wf_buffer b \<Longrightarrow> wf_buffer (extend_from_slice b d)"
  by (simp add: wf_buffer_def extend_from_slice_def)

lemma buf_data_extend [simp]: "wf_buffer b \<Longrightarrow> buf_data (extend_from_slice b d) = buf_data b @ d"
  by (simp add: wf_buffer_def buf_data_def extend_from_slice_def)

lemma advance_ok:
  "count \<le> length (buf_data b) \<Longrightarrow>
   buf_data (snd (advance b count)) = drop count (buf_data b)"
  by (simp add: advance_def buf_len_data) (simp add: buf_data_def add.commute)

lemma wf_advance: "wf_buffer b \<Longrightarrow> wf_buffer (snd (advance b count))"
  by (auto simp: advance_def wf_buffer_def buf_len_def Let_def)

text \<open>\<open>find_pattern\<close> is the left-to-right search of the unconsumed bytes.\<close>

lemma take_eq_starts_with: "take (length p) s = p \<longleftrightarrow> starts_with p s"
  by (auto simp: starts_with_iff) (metis append_take_drop_id)

lemma find_upt_find_sub:
  assumes "p \<noteq> []" "length p \<le> length s"
  shows "find (\<lambda>i. take (length p) (drop i s) = p) [0 ..< Suc (length s - length p)] = find_sub p s"
proof (cases "find_sub p s")
  case None
  then have "\<not> starts_with p (drop i s)" for i
    unfolding find_sub_None starts_with_iff by (metis append_take_drop_id)
  with None show ?thesis by (simp add: find_None_iff take_eq_starts_with)
next
  case (Some i)
  from find_sub_sound[OF Some] obtain a r where s: "s = a @ p @ r" "length a = i" by blast
  then have i: "i < Suc (length s - length p)" and at: "starts_with p (drop i s)"
    by (auto simp: starts_with_iff)
  have "[0 ..< Suc (length s - length p)] ! i = i"
    using i by (metis add.left_neutral diff_zero nth_upt)
  with i at show ?thesis
    unfolding Some find_Some_iff take_eq_starts_with
    using find_sub_first[OF Some]
    by (intro exI[of _ i]) (auto simp del: upt_Suc)
qed

lemma find_pattern_find_sub: "p \<noteq> [] \<Longrightarrow> find_pattern b p = find_sub p (buf_data b)"
proof (cases "length (buf_data b) < length p")
  case True
  then have "find_sub p (buf_data b) = None" by (auto simp: find_sub_None)
  with True show ?thesis by (simp add: find_pattern_def)
next
  case False
  assume "p \<noteq> []"
  with False find_upt_find_sub[of p "buf_data b"] show ?thesis
    by (simp add: find_pattern_def del: upt_Suc)
qed

lemma extract_until_Some:
  assumes "p \<noteq> []" "find_sub p (buf_data b) = Some i"
  shows "\<exists>b'. extract_until_pattern b p = (Some (take i (buf_data b)), b')
           \<and> buf_data b' = drop (i + length p) (buf_data b) \<and> (wf_buffer b \<longrightarrow> wf_buffer b')"
proof -
  from find_sub_sound[OF assms(2)] have "i + length p \<le> length (buf_data b)" by force
  with assms show ?thesis
    by (simp add: extract_until_pattern_def find_pattern_find_sub advance_ok wf_advance)
qed

lemma extract_until_None:
  "p \<noteq> [] \<Longrightarrow> find_sub p (buf_data b) = None \<Longrightarrow> extract_until_pattern b p = (None, b)"
  by (simp add: extract_until_pattern_def find_pattern_find_sub)

lemma wf_compact [simp]: "wf_buffer (compact b)" if "wf_buffer b"
  using that by (auto simp: compact_def wf_buffer_def buf_len_def copy_to_front_def Let_def)

lemma buf_data_compact [simp]: "buf_data (compact b) = buf_data b"
  by (auto simp: compact_def buf_data_def buf_len_def copy_to_front_def Let_def)

lemma position_compact [simp]: "position (compact b) = 0"
  by (simp add: compact_def Let_def)

lemma buffer_compact: "buffer (compact b) = buf_data b"
proof -
  have "buf_data (compact b) = buffer (compact b)" by (simp add: buf_data_def)
  then show ?thesis by simp
qed

section \<open>The contract of the buffer\<close>

text \<open>
  The search is stable: what is found in the bytes received so far is found at the same place
  when more bytes follow.
\<close>

lemma find_sub_append: "find_sub p s = Some i \<Longrightarrow> find_sub p (s @ t) = Some i"
proof (induction p s arbitrary: i rule: find_sub.induct)
  case (1 p)
  then show ?case by (cases t) (auto simp: starts_with_def split: if_splits)
next
  case (2 p c s)
  show ?case
  proof (cases "starts_with p (c # s)")
    case True
    then have "starts_with p (c # s @ t)" by (auto simp: starts_with_iff) (metis append_assoc append_Cons)
    with True "2.prems" show ?thesis by simp
  next
    case False
    with "2.prems" obtain j where j: "find_sub p s = Some j" "i = Suc j" by auto
    from find_sub_sound[OF j(1)] have "length p \<le> length s" by force
    have "\<not> starts_with p (c # s @ t)"
    proof
      assume "starts_with p (c # s @ t)"
      then have "take (length p) ((c # s) @ t) = p" by (simp add: take_eq_starts_with)
      moreover have "take (length p) ((c # s) @ t) = take (length p) (c # s)"
        using \<open>length p \<le> length s\<close> by (simp only: take_append) simp
      ultimately have "take (length p) (c # s) = p" by simp
      with False show False by (simp add: take_eq_starts_with)
    qed
    with "2.IH"[OF False j(1)] j(2) show ?thesis by simp
  qed
qed

locale byte_buffer =
  fixes contents :: "'b \<Rightarrow> bytes"
    and inv :: "'b \<Rightarrow> bool"
    and extend :: "'b \<Rightarrow> bytes \<Rightarrow> 'b"
    and take_until :: "'b \<Rightarrow> bytes \<Rightarrow> bytes option \<times> 'b"
    and take_bytes :: "'b \<Rightarrow> nat \<Rightarrow> bytes option \<times> 'b"
    and settle :: "'b \<Rightarrow> 'b"
  assumes contents_extend: "inv b \<Longrightarrow> contents (extend b d) = contents b @ d"
    and inv_extend: "inv b \<Longrightarrow> inv (extend b d)"
    and until_hit: "inv b \<Longrightarrow> p \<noteq> [] \<Longrightarrow> find_sub p (contents b) = Some i \<Longrightarrow>
        \<exists>b'. take_until b p = (Some (take i (contents b)), b') \<and> inv b'
           \<and> contents b' = drop (i + length p) (contents b)"
    and until_miss: "inv b \<Longrightarrow> p \<noteq> [] \<Longrightarrow> find_sub p (contents b) = None \<Longrightarrow>
        take_until b p = (None, b)"
    and bytes_hit: "inv b \<Longrightarrow> n \<le> length (contents b) \<Longrightarrow>
        \<exists>b'. take_bytes b n = (Some (take n (contents b)), b') \<and> inv b'
           \<and> contents b' = drop n (contents b)"
    and bytes_miss: "inv b \<Longrightarrow> length (contents b) < n \<Longrightarrow> take_bytes b n = (None, b)"
    and settle_contents: "contents (settle b) = contents b"
    and inv_settle: "inv b \<Longrightarrow> inv (settle b)"
begin

lemma until_Some_iff:
  assumes "inv b" "p \<noteq> []" "take_until b p = (Some h, b')"
  shows "contents b = h @ p @ contents b' \<and> find_sub p (contents b) = Some (length h) \<and> inv b'"
proof (cases "find_sub p (contents b)")
  case None
  with assms until_miss show ?thesis by simp
next
  case (Some i)
  from find_sub_sound[OF Some] obtain a r where c: "contents b = a @ p @ r" "length a = i" by blast
  from until_hit[OF assms(1,2) Some] assms(3)
  have "h = take i (contents b)" "contents b' = drop (i + length p) (contents b)" "inv b'"
    by auto
  with c Some show ?thesis by simp
qed

lemma until_None_iff:
  "inv b \<Longrightarrow> p \<noteq> [] \<Longrightarrow> fst (take_until b p) = None \<longleftrightarrow> find_sub p (contents b) = None"
  using until_hit until_miss by (metis fst_conv option.exhaust option.distinct(1))

lemma until_stable:
  assumes "inv b" "p \<noteq> []" "take_until b p = (Some h, b')"
  shows "\<exists>b''. take_until (extend b d) p = (Some h, b'') \<and> inv b'' \<and> contents b'' = contents b' @ d"
proof -
  from until_Some_iff[OF assms] have c: "contents b = h @ p @ contents b'"
    and f: "find_sub p (contents b) = Some (length h)" by auto
  have "find_sub p (contents (extend b d)) = Some (length h)"
    using f by (simp add: contents_extend assms(1) find_sub_append)
  from until_hit[OF inv_extend[OF assms(1)] assms(2) this] c show ?thesis
    by (simp add: contents_extend assms(1))
qed

lemma bytes_stable:
  assumes "inv b" "take_bytes b n = (Some h, b')"
  shows "\<exists>b''. take_bytes (extend b d) n = (Some h, b'') \<and> inv b'' \<and> contents b'' = contents b' @ d"
proof -
  have n: "n \<le> length (contents b)"
    using assms bytes_miss by (metis fst_conv not_le option.distinct(1))
  from bytes_hit[OF assms(1) this] assms(2)
  have h: "h = take n (contents b)" "contents b' = drop n (contents b)" by auto
  have "n \<le> length (contents (extend b d))"
    using n by (simp add: contents_extend assms(1))
  from bytes_hit[OF inv_extend[OF assms(1)] this] n h show ?thesis
    by (simp add: contents_extend assms(1))
qed

end

interpretation buf: byte_buffer buf_data wf_buffer extend_from_slice extract_until_pattern
  extract_bytes compact
proof
  show "\<exists>b'. extract_until_pattern b p = (Some (take i (buf_data b)), b') \<and> wf_buffer b'
           \<and> buf_data b' = drop (i + length p) (buf_data b)"
    if "wf_buffer b" "p \<noteq> []" "find_sub p (buf_data b) = Some i" for b p i
    using extract_until_Some[OF that(2,3)] that(1) by blast
  show "\<exists>b'. extract_bytes b n = (Some (take n (buf_data b)), b') \<and> wf_buffer b'
           \<and> buf_data b' = drop n (buf_data b)"
    if "wf_buffer b" "n \<le> length (buf_data b)" for b n
    using that by (simp add: extract_bytes_def buf_len_data advance_ok wf_advance)
qed (simp_all add: extract_until_None extract_bytes_def buf_len_data)

end
