(* ===== verification/Esl_Response.thy ===== *)
theory Esl_Response
  imports Rust_Text Esl_Constants Esl_Error
begin

text \<open>
  \<open>EslResponse\<close> of \<open>src/src/command.rs\<close>: the reply to a command, classified by its
  \<open>Reply-Text\<close> header when it is built. \<open>wf_response\<close> is the invariant of the private fields:
  the stored status is the one of the stored headers.
\<close>

datatype ReplyStatus = StatusOk | StatusErr | StatusOther

record EslResponse =
  resp_headers :: headers
  resp_body :: "string option"
  resp_status :: ReplyStatus

definition response_new :: "headers \<Rightarrow> string option \<Rightarrow> EslResponse" where
  "response_new h b =
     (let status =
        (case fmlookup h HEADER_REPLY_TEXT of
           None \<Rightarrow> StatusOk
         | Some t \<Rightarrow>
             if t = [] then StatusOk
             else if starts_with ''+OK'' t then StatusOk
             else if starts_with ''-ERR'' t then StatusErr
             else StatusOther)
      in \<lparr>resp_headers = h, resp_body = b, resp_status = status\<rparr>)"

definition is_success :: "EslResponse \<Rightarrow> bool" where
  "is_success r = (resp_status r = StatusOk)"

definition reply_status :: "EslResponse \<Rightarrow> ReplyStatus" where
  "reply_status r = resp_status r"

definition body_string :: "EslResponse \<Rightarrow> string" where
  "body_string r = (case resp_body r of Some b \<Rightarrow> b | None \<Rightarrow> [])"

definition resp_header :: "EslResponse \<Rightarrow> string \<Rightarrow> string option" where
  "resp_header r name = fmlookup (resp_headers r) name"

definition reply_text :: "EslResponse \<Rightarrow> string option" where
  "reply_text r = fmlookup (resp_headers r) HEADER_REPLY_TEXT"

definition resp_job_uuid :: "EslResponse \<Rightarrow> string option" where
  "resp_job_uuid r = fmlookup (resp_headers r) HEADER_JOB_UUID"

definition into_result :: "EslResponse \<Rightarrow> EslResponse EslResult" where
  "into_result r =
     (case resp_status r of
        StatusOk \<Rightarrow> Inr r
      | StatusErr \<Rightarrow>
          Inl (CommandFailed (case reply_text r of Some t \<Rightarrow> t | None \<Rightarrow> ''-ERR''))
      | StatusOther \<Rightarrow>
          Inl (UnexpectedReply (case reply_text r of Some t \<Rightarrow> t | None \<Rightarrow> [])))"

definition wf_response :: "EslResponse \<Rightarrow> bool" where
  "wf_response r = (r = response_new (resp_headers r) (resp_body r))"

lemma response_new_fields [simp]:
  "resp_headers (response_new h b) = h" "resp_body (response_new h b) = b"
  by (simp_all add: response_new_def)

lemma wf_response_new [simp]: "wf_response (response_new h b)"
  by (simp add: wf_response_def)

lemma reply_text_new [simp]: "reply_text (response_new h b) = fmlookup h HEADER_REPLY_TEXT"
  by (simp add: reply_text_def)

lemma resp_status_new:
  "resp_status (response_new h b) =
     (case fmlookup h HEADER_REPLY_TEXT of
        None \<Rightarrow> StatusOk
      | Some t \<Rightarrow> if t = [] \<or> starts_with ''+OK'' t then StatusOk
                  else if starts_with ''-ERR'' t then StatusErr else StatusOther)"
  by (simp add: response_new_def Let_def split: option.splits)

lemma ok_err_prefix: "starts_with ''-ERR'' t \<Longrightarrow> \<not> starts_with ''+OK'' t \<and> t \<noteq> []"
  by (auto simp: starts_with_iff)

text \<open>A reply is turned into a result by its \<open>Reply-Text\<close> alone: success exactly when the header
  is absent, empty or starts with \<open>+OK\<close> (and the reply is returned whole); \<open>CommandFailed\<close> with
  the exact text when it starts with \<open>-ERR\<close>; \<open>UnexpectedReply\<close> with the exact text otherwise. No
  error loses the server's text, and every error is one \<open>is_recoverable\<close> keeps the connection for.\<close>

theorem into_result_exact:
  "into_result (response_new h b) =
     (case fmlookup h HEADER_REPLY_TEXT of
        None \<Rightarrow> Inr (response_new h b)
      | Some t \<Rightarrow>
          if t = [] \<or> starts_with ''+OK'' t then Inr (response_new h b)
          else if starts_with ''-ERR'' t then Inl (CommandFailed t)
          else Inl (UnexpectedReply t))
   \<and> (is_ok (into_result (response_new h b)) \<longleftrightarrow> is_success (response_new h b))
   \<and> (\<forall>e. into_result (response_new h b) = Inl e \<longrightarrow> is_recoverable e)"
  unfolding into_result_def is_success_def resp_status_new reply_text_new
  by (auto split: option.splits)

text \<open>The hypothesis of the last conjunct is met by any failed reply.\<close>

theorem into_result_exact_witness:
  "into_result (response_new (fmap_of_list [(''Reply-Text'', ''-ERR no such channel'')]) None)
     = Inl (CommandFailed ''-ERR no such channel'')"
  using into_result_exact[of "fmap_of_list [(''Reply-Text'', ''-ERR no such channel'')]" None]
  by (simp add: fmlookup_of_list starts_with_def)

end
