(* ===== verification/Codec.thy ===== *)
theory Codec
  imports Rust_Num
begin

text \<open>
  The contracts several components share, as locales, with the consequences proved once.

  \<^item> \<open>text_codec\<close>: a \<open>Display\<close> / \<open>FromStr\<close> pair that round-trips on well-formed values.
  \<^item> \<open>name_codec\<close>: the fixed name tables of the crate (event types, channel states, formats):
    the parser folds the case of its input and looks the name up.
  \<^item> \<open>percent_codec\<close>: what the crate relies on of the crate \<open>percent-encoding\<close>.
  \<^item> \<open>map_order\<close>: the iteration order of a \<open>HashMap\<close>, which Rust leaves open.

  The last two are interfaces to code outside the repository. The definitions that use them
  take them as arguments; \<open>percent_encode_ref\<close> and \<open>percent_decode_ref\<close> below are instances
  used by the examples, where a concrete value is needed.
\<close>

section \<open>Display and FromStr\<close>

locale text_codec =
  fixes pr :: "'a \<Rightarrow> string"
    and ps :: "string \<Rightarrow> 'a option"
    and wf :: "'a \<Rightarrow> bool"
  assumes roundtrip: "wf x \<Longrightarrow> ps (pr x) = Some x"
begin

lemma pr_inj: "wf x \<Longrightarrow> wf y \<Longrightarrow> pr x = pr y \<Longrightarrow> x = y"
  by (metis option.inject roundtrip)

lemma reprint: "wf x \<Longrightarrow> map_option pr (ps (pr x)) = Some (pr x)"
  by (simp add: roundtrip)

end

locale name_codec =
  fixes pr :: "'a \<Rightarrow> string"
    and ps :: "string \<Rightarrow> 'a option"
    and fold_case :: "string \<Rightarrow> string"
  assumes parses: "fold_case s = pr x \<Longrightarrow> ps s = Some x"
    and parsed: "ps s = Some x \<Longrightarrow> pr x = fold_case s"
    and canonical: "fold_case (pr x) = pr x"
begin

lemma name_roundtrip: "ps (pr x) = Some x"
  by (rule parses) (rule canonical)

lemma parse_iff: "ps s = Some x \<longleftrightarrow> pr x = fold_case s"
  using parses parsed by metis

lemma case_insensitive: "fold_case s = fold_case t \<Longrightarrow> ps s = ps t"
  by (metis not_None_eq parses parsed)

lemma unknown_iff: "ps s = None \<longleftrightarrow> (\<forall>x. pr x \<noteq> fold_case s)"
  by (metis not_None_eq parse_iff)

end

sublocale name_codec \<subseteq> text_codec pr ps "\<lambda>_. True"
  by unfold_locales (rule name_roundtrip)

text \<open>A table of names gives a codec when the names are different and stable under the folding.\<close>

lemma name_table_codec:
  fixes tbl :: "('a \<times> string) list"
  assumes total: "\<And>x. map_of tbl x = Some (pr x)"
    and parse: "\<And>s. ps s = map_of (map (\<lambda>(x, n). (n, x)) tbl) (fc s)"
    and keys: "distinct (map fst tbl)"
    and dist: "distinct (map snd tbl)"
    and stable: "\<forall>n \<in> snd ` set tbl. fc n = n"
  shows "name_codec pr ps fc"
proof
  have dist': "distinct (map fst (map (\<lambda>(x, n). (n, x)) tbl))"
    using dist by (simp add: comp_def split_beta)
  have in_tbl: "(x, pr x) \<in> set tbl" for x
    using total[of x] by (rule map_of_SomeD)
  show "ps s = Some x" if "fc s = pr x" for s x
  proof -
    have "(pr x, x) \<in> set (map (\<lambda>(x, n). (n, x)) tbl)" using in_tbl[of x] by force
    with dist' that show ?thesis by (simp add: parse map_of_eq_Some_iff)
  qed
  show "pr x = fc s" if "ps s = Some x" for s x
  proof -
    from that have "(x, fc s) \<in> set tbl"
      by (auto simp: parse dest!: map_of_SomeD)
    with keys have "map_of tbl x = Some (fc s)" by (rule map_of_is_SomeI)
    with total[of x] show ?thesis by simp
  qed
  show "fc (pr x) = pr x" for x
    using stable in_tbl[of x] by (metis imageI snd_conv)
qed

section \<open>Percent encoding\<close>

text \<open>
  \<open>percent_encode(bytes, NON_ALPHANUMERIC)\<close> escapes every byte but the ASCII letters and
  digits as \<open>%XX\<close>, and \<open>percent_decode_str\<close> inverts it. The laws are the documented
  behaviour of that crate.
\<close>

definition alnum :: "char \<Rightarrow> bool" where
  "alnum c = (is_digit c \<or> (65 \<le> byte_val c \<and> byte_val c \<le> 90) \<or> (97 \<le> byte_val c \<and> byte_val c \<le> 122))"

definition percent_char :: "char \<Rightarrow> bool" where
  "percent_char c = (alnum c \<or> c = CHR ''%'')"

locale percent_codec =
  fixes penc :: "bytes \<Rightarrow> string"
    and pdec :: "string \<Rightarrow> bytes"
  assumes pdec_penc: "pdec (penc s) = s"
    and penc_chars: "\<forall>c \<in> set (penc s). percent_char c"
    and pdec_plain: "CHR ''%'' \<notin> set s \<Longrightarrow> pdec s = s"
begin

lemma penc_solid: "\<forall>c \<in> set (penc s). solid c"
proof -
  have "solid c" if "percent_char c" for c
    using that by (auto simp: percent_char_def alnum_def is_digit_def solid_def is_ascii_def
        ascii_ws_def byte_val_def)
  then show ?thesis using penc_chars by blast
qed

lemma penc_notin: "\<not> percent_char x \<Longrightarrow> x \<notin> set (penc s)"
  using penc_chars by blast

lemma trim_penc [simp]: "trim (penc s) = penc s"
  by (rule trim_all_solid) (rule penc_solid)

lemma penc_inj: "penc s = penc t \<Longrightarrow> s = t"
  by (metis pdec_penc)

end

lemma not_percent_char [simp]:
  "\<not> percent_char NL" "\<not> percent_char CR" "\<not> percent_char COLON" "\<not> percent_char SP"
  by (simp_all add: percent_char_def alnum_def byte_val_def)

lemma percent_char_percent [simp]: "percent_char (CHR ''%'')"
  by (simp add: percent_char_def)

text \<open>An instance, for concrete examples.\<close>

definition hex_digit :: "nat \<Rightarrow> char" where
  "hex_digit d = (if d < 10 then char_of (48 + d) else char_of (55 + d))"

definition hex_val :: "char \<Rightarrow> nat option" where
  "hex_val c =
     (if is_digit c then Some (byte_val c - 48)
      else if 65 \<le> byte_val c \<and> byte_val c \<le> 70 then Some (byte_val c - 55)
      else if 97 \<le> byte_val c \<and> byte_val c \<le> 102 then Some (byte_val c - 87)
      else None)"

fun percent_encode_ref :: "bytes \<Rightarrow> string" where
  "percent_encode_ref [] = []"
| "percent_encode_ref (c # s) =
     (if alnum c then [c]
      else [CHR ''%'', hex_digit (byte_val c div 16), hex_digit (byte_val c mod 16)])
     @ percent_encode_ref s"

fun percent_decode_ref :: "string \<Rightarrow> bytes" where
  "percent_decode_ref (p # a # b # s) =
     (if p = CHR ''%'' then
        (case (hex_val a, hex_val b) of
           (Some x, Some y) \<Rightarrow> char_of (16 * x + y) # percent_decode_ref s
         | _ \<Rightarrow> p # percent_decode_ref (a # b # s))
      else p # percent_decode_ref (a # b # s))"
| "percent_decode_ref s = s"

lemma byte_val_less: "byte_val c < 256"
  by (simp add: byte_val_def)

lemma hex_val_hex_digit: "d < 16 \<Longrightarrow> hex_val (hex_digit d) = Some d"
  by (auto simp: hex_val_def hex_digit_def is_digit_def byte_val_def)

lemma percent_char_hex_digit: "d < 16 \<Longrightarrow> percent_char (hex_digit d)"
  by (auto simp: percent_char_def alnum_def hex_digit_def is_digit_def byte_val_def)

lemma percent_decode_ref_Cons:
  "c \<noteq> CHR ''%'' \<Longrightarrow> percent_decode_ref (c # s) = c # percent_decode_ref s"
  by (cases "c # s" rule: percent_decode_ref.cases) auto

lemma alnum_not_percent: "alnum c \<Longrightarrow> c \<noteq> CHR ''%''"
  by (auto simp: alnum_def is_digit_def byte_val_def)

interpretation percent_ref: percent_codec percent_encode_ref percent_decode_ref
proof
  show "percent_decode_ref (percent_encode_ref s) = s" for s
  proof (induction s)
    case (Cons c s)
    have "byte_val c div 16 < 16" using byte_val_less[of c] by simp
    moreover have "char_of (16 * (byte_val c div 16) + byte_val c mod 16) = c"
      by (simp add: byte_val_def)
    ultimately show ?case
      using Cons by (simp add: percent_decode_ref_Cons alnum_not_percent hex_val_hex_digit)
  qed simp
  show "\<forall>c \<in> set (percent_encode_ref s). percent_char c" for s
  proof (induction s)
    case (Cons c s)
    have "byte_val c div 16 < 16" using byte_val_less[of c] by simp
    with Cons show ?case by (auto simp: percent_char_hex_digit) (simp add: percent_char_def)
  qed simp
  show "CHR ''%'' \<notin> set s \<Longrightarrow> percent_decode_ref s = s" for s
    by (induction s) (auto simp: percent_decode_ref_Cons)
qed

section \<open>HashMap iteration\<close>

text \<open>
  A \<open>HashMap\<close> yields each entry once, in an order that is not specified and may differ between
  two maps with the same entries; a definition that iterates one takes the order as an argument.
\<close>

locale map_order =
  fixes entries :: "('k, 'v) fmap \<Rightarrow> ('k \<times> 'v) list"
  assumes entries_map: "fmap_of_list (entries m) = m"
    and entries_distinct: "distinct (map fst (entries m))"
begin

lemma entries_iff: "(k, v) \<in> set (entries m) \<longleftrightarrow> fmlookup m k = Some v"
  by (metis entries_distinct entries_map fmlookup_of_list map_of_eq_Some_iff)

lemma entries_empty [simp]: "entries fmempty = []"
proof (rule ccontr)
  assume "entries fmempty \<noteq> []"
  then obtain k v where "(k, v) \<in> set (entries fmempty)" by (metis list.set_sel(1) prod.exhaust)
  then show False by (simp add: entries_iff)
qed

end

interpretation sorted_order: map_order "sorted_list_of_fmap :: (string, string) fmap \<Rightarrow> _"
  by unfold_locales simp_all

end
