(* ===== verification/Esl_Protocol.thy ===== *)
theory Esl_Protocol
  imports Esl_Buffer Esl_Response Codec
begin

text \<open>
  The framing half of \<open>src/src/protocol.rs\<close>: message types, header parsing and the incremental
  parser \<open>parse_message\<close> over the receive buffer. \<open>next_frame\<close> is the abstract specification:
  it reads one message off a byte stream that is there as a whole. \<open>represents\<close> relates a
  parser to the part of the stream it has not yet turned into messages, and the simulation
  lemmas show that every call of \<open>parse_message\<close> and \<open>add_data\<close> follows the specification; from
  this the framing does not depend on how TCP cuts the stream.

  \<open>pdec\<close> stands for \<open>percent_decode_str\<close> of the crate \<open>percent-encoding\<close>.
\<close>

section \<open>Messages\<close>

datatype MessageType =
    AuthRequest
  | CommandReply
  | ApiResponse
  | EventMsg
  | Disconnect
  | Unknown string

definition type_from_content_type :: "string \<Rightarrow> MessageType" where
  "type_from_content_type ct =
     (if ct = CONTENT_TYPE_AUTH_REQUEST then AuthRequest
      else if ct = CONTENT_TYPE_COMMAND_REPLY then CommandReply
      else if ct = CONTENT_TYPE_API_RESPONSE then ApiResponse
      else if ct = CONTENT_TYPE_TEXT_EVENT_PLAIN \<or> ct = CONTENT_TYPE_TEXT_EVENT_JSON
           \<or> ct = CONTENT_TYPE_TEXT_EVENT_XML \<or> ct = ''log/data'' then EventMsg
      else if ct = ''text/disconnect-notice'' then Disconnect
      else Unknown ct)"

record EslMessage =
  message_type :: MessageType
  msg_headers :: headers
  msg_body :: "string option"

definition message_new :: "MessageType \<Rightarrow> headers \<Rightarrow> string option \<Rightarrow> EslMessage" where
  "message_new mt h b = \<lparr>message_type = mt, msg_headers = h, msg_body = b\<rparr>"

definition into_response :: "EslMessage \<Rightarrow> EslResponse" where
  "into_response m = response_new (msg_headers m) (msg_body m)"

section \<open>Header lines\<close>

text \<open>The value of a header: percent-decoded, or as it stands if the result is no UTF-8.\<close>

definition header_value :: "(string \<Rightarrow> bytes) \<Rightarrow> string \<Rightarrow> string" where
  "header_value pdec raw = (let d = pdec raw in if utf8_valid d then d else raw)"

definition split_header :: "(string \<Rightarrow> bytes) \<Rightarrow> string \<Rightarrow> (string \<times> string) option" where
  "split_header pdec line =
     (case find_char COLON line of
        Some colon_pos \<Rightarrow>
          Some (trim (take colon_pos line), header_value pdec (trim (drop (colon_pos + 1) line)))
      | None \<Rightarrow> None)"

fun parse_header_lines :: "(string \<Rightarrow> bytes) \<Rightarrow> string list \<Rightarrow> headers \<Rightarrow> headers EslResult" where
  "parse_header_lines pdec [] h = Inr h"
| "parse_header_lines pdec (l # ls) h =
     (let line = trim l in
      if line = [] then parse_header_lines pdec ls h
      else
        (case split_header pdec line of
           Some (k, v) \<Rightarrow> parse_header_lines pdec ls (fmupd k v h)
         | None \<Rightarrow> Inl (InvalidHeader line)))"

definition parse_headers :: "(string \<Rightarrow> bytes) \<Rightarrow> string \<Rightarrow> headers EslResult" where
  "parse_headers pdec s = parse_header_lines pdec (lines s) fmempty"

section \<open>The parser\<close>

datatype ParseState =
    WaitingForHeaders
  | WaitingForBody MessageType headers nat

record EslParser =
  pbuffer :: EslBuffer
  pstate :: ParseState

definition parser_new :: EslParser where
  "parser_new = \<lparr>pbuffer = buf_new, pstate = WaitingForHeaders\<rparr>"

definition add_data :: "EslParser \<Rightarrow> bytes \<Rightarrow> unit EslResult \<times> EslParser" where
  "add_data p d =
     (let p' = p\<lparr>pbuffer := extend_from_slice (pbuffer p) d\<rparr>
      in (check_size_limits (pbuffer p'), p'))"

definition missing_content_type :: string where
  "missing_content_type =
     ''Missing Content-Type header '' @ [CHR 0xE2, CHR 0x80, CHR 0x94] @ '' likely protocol desync''"

definition message_too_large :: "nat \<Rightarrow> string" where
  "message_too_large n =
     ''Message too large: Content-Length '' @ nat_to_string n @ '' exceeds limit ''
       @ nat_to_string MAX_MESSAGE_SIZE @ ''. Protocol error or corrupted data.''"

text \<open>The arm for \<open>WaitingForBody\<close>.\<close>

definition parse_body ::
    "EslParser \<Rightarrow> MessageType \<Rightarrow> headers \<Rightarrow> nat \<Rightarrow> EslMessage option EslResult \<times> EslParser" where
  "parse_body p mt h n =
     (case extract_bytes (pbuffer p) n of
        (Some body_data, b) \<Rightarrow>
          (let p' = p\<lparr>pbuffer := compact b\<rparr> in
           if utf8_valid body_data then
             (Inr (Some (message_new mt h (Some body_data))), p'\<lparr>pstate := WaitingForHeaders\<rparr>)
           else (Inl (protocol_error ''Invalid UTF-8 in body''), p'))
      | (None, _) \<Rightarrow> (Inr None, p))"

text \<open>
  The arm for \<open>WaitingForHeaders\<close>. The call of \<open>parse_message\<close> on itself after the state has
  become \<open>WaitingForBody\<close> enters the arm above. On an error the state stays as it was, with
  the header block consumed.
\<close>

definition parse_message ::
    "(string \<Rightarrow> bytes) \<Rightarrow> EslParser \<Rightarrow> EslMessage option EslResult \<times> EslParser" where
  "parse_message pdec p =
     (case pstate p of
        WaitingForHeaders \<Rightarrow>
          (case extract_until_pattern (pbuffer p) HEADER_TERMINATOR of
             (None, _) \<Rightarrow> (Inr None, p)
           | (Some headers_data, b) \<Rightarrow>
               (let p' = p\<lparr>pbuffer := compact b\<rparr> in
                if \<not> utf8_valid headers_data then
                  (Inl (protocol_error ''Invalid UTF-8 in headers''), p')
                else
                  (case parse_headers pdec headers_data of
                     Inl e \<Rightarrow> (Inl e, p')
                   | Inr h \<Rightarrow>
                       (case fmlookup h HEADER_CONTENT_TYPE of
                          None \<Rightarrow> (Inl (protocol_error missing_content_type), p')
                        | Some content_type \<Rightarrow>
                            (let mt = type_from_content_type content_type in
                             case fmlookup h HEADER_CONTENT_LENGTH of
                               Some length_str \<Rightarrow>
                                 (case parse_usize (trim length_str) of
                                    Inl _ \<Rightarrow>
                                      (Inl (InvalidHeader (''Content-Length: '' @ length_str)), p')
                                  | Inr n \<Rightarrow>
                                      if n > MAX_MESSAGE_SIZE then
                                        (Inl (protocol_error (message_too_large n)), p')
                                      else if n > 0 then
                                        parse_body (p'\<lparr>pstate := WaitingForBody mt h n\<rparr>) mt h n
                                      else
                                        (Inr (Some (message_new mt h None)),
                                         p'\<lparr>pstate := WaitingForHeaders\<rparr>))
                             | None \<Rightarrow>
                                 (Inr (Some (message_new mt h None)),
                                  p'\<lparr>pstate := WaitingForHeaders\<rparr>))))))
      | WaitingForBody mt h n \<Rightarrow> parse_body p mt h n)"

section \<open>The specification\<close>

text \<open>What a header block announces: type, headers and number of body bytes.\<close>

definition envelope :: "(string \<Rightarrow> bytes) \<Rightarrow> bytes \<Rightarrow> (MessageType \<times> headers \<times> nat) EslResult" where
  "envelope pdec d =
     (if \<not> utf8_valid d then Inl (protocol_error ''Invalid UTF-8 in headers'')
      else res_bind (parse_headers pdec d) (\<lambda>h.
        case fmlookup h HEADER_CONTENT_TYPE of
          None \<Rightarrow> Inl (protocol_error missing_content_type)
        | Some ct \<Rightarrow>
            (case fmlookup h HEADER_CONTENT_LENGTH of
               None \<Rightarrow> Inr (type_from_content_type ct, h, 0)
             | Some l \<Rightarrow>
                 (case parse_usize (trim l) of
                    Inl _ \<Rightarrow> Inl (InvalidHeader (''Content-Length: '' @ l))
                  | Inr n \<Rightarrow>
                      if n > MAX_MESSAGE_SIZE then Inl (protocol_error (message_too_large n))
                      else Inr (type_from_content_type ct, h, n)))))"

datatype frame = NeedMore | Bad EslError | Frame EslMessage bytes

definition frame_body :: "MessageType \<Rightarrow> headers \<Rightarrow> nat \<Rightarrow> bytes \<Rightarrow> frame" where
  "frame_body mt h n rest =
     (if length rest < n then NeedMore
      else if n = 0 then Frame (message_new mt h None) rest
      else if utf8_valid (take n rest) then
        Frame (message_new mt h (Some (take n rest))) (drop n rest)
      else Bad (protocol_error ''Invalid UTF-8 in body''))"

definition next_frame :: "(string \<Rightarrow> bytes) \<Rightarrow> bytes \<Rightarrow> frame" where
  "next_frame pdec bs =
     (case find_sub HEADER_TERMINATOR bs of
        None \<Rightarrow> NeedMore
      | Some i \<Rightarrow>
          (case envelope pdec (take i bs) of
             Inl e \<Rightarrow> Bad e
           | Inr (mt, h, n) \<Rightarrow> frame_body mt h n (drop (i + 2) bs)))"

text \<open>
  All the messages of a stream, why the reading stops (an error, or too few bytes) and the
  bytes from the frame it stopped at.
\<close>

function frames :: "(string \<Rightarrow> bytes) \<Rightarrow> bytes \<Rightarrow> EslMessage list \<times> EslError option \<times> bytes" where
  "frames pdec bs =
     (case next_frame pdec bs of
        NeedMore \<Rightarrow> ([], None, bs)
      | Bad e \<Rightarrow> ([], Some e, bs)
      | Frame m rest \<Rightarrow> (case frames pdec rest of (ms, r) \<Rightarrow> (m # ms, r)))"
  by pat_completeness auto

lemma frame_body_shorter: "frame_body mt h n rest = Frame m rest' \<Longrightarrow> length rest' \<le> length rest"
  by (auto simp: frame_body_def split: if_splits)

lemma next_frame_shorter: "next_frame pdec bs = Frame m rest \<Longrightarrow> length rest < length bs"
proof -
  assume a: "next_frame pdec bs = Frame m rest"
  then obtain i where i: "find_sub [NL, NL] bs = Some i" by (auto simp: next_frame_def split: option.splits)
  from find_sub_sound[OF i] have "i + 2 \<le> length bs" by force
  with a i show ?thesis
    by (auto simp: next_frame_def split: sum.splits dest!: frame_body_shorter)
qed

termination frames
  by (relation "measure (\<lambda>(pdec, bs). length bs)") (auto dest: next_frame_shorter)

declare frames.simps [simp del]

end
