(* ===== verification/Esl_Framing.thy ===== *)
theory Esl_Framing
  imports Esl_Protocol "HOL-Library.Code_Target_Nat"
begin

text \<open>
  The parser of \<open>Esl_Protocol\<close> implements its specification \<open>next_frame\<close>: a simulation between
  parser states and streams, the invariant of the buffer between two calls, the bound on what a
  parser can be asked to hold, and independence of the segmentation of the stream.
\<close>

section \<open>Stability of the specification\<close>

lemma frame_body_append:
  "frame_body mt h n rest \<noteq> NeedMore \<Longrightarrow>
   frame_body mt h n (rest @ d) =
     (case frame_body mt h n rest of Frame m r \<Rightarrow> Frame m (r @ d) | x \<Rightarrow> x)"
  by (auto simp: frame_body_def split: if_splits)

lemma next_frame_append:
  assumes "next_frame pdec bs \<noteq> NeedMore"
  shows "next_frame pdec (bs @ d) =
           (case next_frame pdec bs of Frame m r \<Rightarrow> Frame m (r @ d) | x \<Rightarrow> x)"
proof -
  from assms obtain i where i: "find_sub [NL, NL] bs = Some i"
    by (auto simp: next_frame_def split: option.splits)
  from find_sub_sound[OF i] have len: "i + 2 \<le> length bs" by force
  show ?thesis
  proof (cases "envelope pdec (take i bs)")
    case (Inl e)
    with i len show ?thesis by (simp add: next_frame_def find_sub_append)
  next
    case (Inr t)
    obtain mt h n where t: "t = (mt, h, n)" by (cases t)
    with Inr i assms have "frame_body mt h n (drop (i + 2) bs) \<noteq> NeedMore"
      by (simp add: next_frame_def)
    from frame_body_append[OF this] Inr t i len show ?thesis
      by (simp add: next_frame_def find_sub_append)
  qed
qed

lemma frames_append:
  "frames pdec (bs @ d) =
     (case frames pdec bs of
        (ms, Some e, r) \<Rightarrow> (ms, Some e, r @ d)
      | (ms, None, r) \<Rightarrow> (case frames pdec (r @ d) of (ms', x) \<Rightarrow> (ms @ ms', x)))"
proof (induction pdec bs rule: frames.induct)
  case (1 pdec bs)
  show ?case
  proof (cases "next_frame pdec bs")
    case NeedMore
    then show ?thesis by (simp add: frames.simps[of pdec bs])
  next
    case (Bad e)
    then have "next_frame pdec (bs @ d) = Bad e" by (simp add: next_frame_append)
    with Bad show ?thesis by (simp add: frames.simps[of pdec bs] frames.simps[of pdec "bs @ d"])
  next
    case (Frame m rest)
    then have "next_frame pdec (bs @ d) = Frame m (rest @ d)" by (simp add: next_frame_append)
    with Frame 1[OF Frame] show ?thesis
      by (simp add: frames.simps[of pdec bs] frames.simps[of pdec "bs @ d"]
          split: prod.splits option.splits)
  qed
qed

section \<open>Simulation\<close>

definition represents :: "(string \<Rightarrow> bytes) \<Rightarrow> EslParser \<Rightarrow> bytes \<Rightarrow> bool" where
  "represents pdec p bs =
     (wf_buffer (pbuffer p) \<and> position (pbuffer p) = 0
      \<and> (case pstate p of
           WaitingForHeaders \<Rightarrow> buf_data (pbuffer p) = bs
         | WaitingForBody mt h n \<Rightarrow>
             (\<exists>hd. find_sub HEADER_TERMINATOR bs = Some (length hd)
                 \<and> bs = hd @ HEADER_TERMINATOR @ buf_data (pbuffer p)
                 \<and> envelope pdec hd = Inr (mt, h, n) \<and> 0 < n)))"

lemma represents_new [simp]: "represents pdec parser_new []"
  by (simp add: represents_def parser_new_def) (simp add: buf_new_def)

lemma represents_add_data:
  assumes "represents pdec p bs"
  shows "represents pdec (snd (add_data p d)) (bs @ d)"
proof (cases "pstate p")
  case WaitingForHeaders
  with assms show ?thesis
    by (simp add: represents_def add_data_def Let_def) (simp add: extend_from_slice_def)
next
  case (WaitingForBody mt h n)
  with assms obtain hd where hd: "find_sub [NL, NL] bs = Some (length hd)"
    "bs = hd @ [NL, NL] @ buf_data (pbuffer p)" "envelope pdec hd = Inr (mt, h, n)" "0 < n"
    and wf: "wf_buffer (pbuffer p)" "position (pbuffer p) = 0" by (auto simp: represents_def)
  from find_sub_append[OF hd(1)] have "find_sub [NL, NL] (bs @ d) = Some (length hd)" .
  moreover have "bs @ d = hd @ [NL, NL] @ buf_data (extend_from_slice (pbuffer p) d)"
    using hd(2) wf(1) by simp
  ultimately show ?thesis
    using hd(3,4) wf WaitingForBody
    by (auto simp: represents_def add_data_def Let_def) (simp add: extend_from_slice_def)
qed

lemma represents_headers:
  "represents pdec p bs \<Longrightarrow> pstate p = WaitingForHeaders \<Longrightarrow> buf_data (pbuffer p) = bs"
  by (simp add: represents_def)

lemma represents_compact:
  "wf_buffer b \<Longrightarrow> buf_data b = rest \<Longrightarrow> represents pdec \<lparr>pbuffer = compact b, pstate = WaitingForHeaders\<rparr> rest"
  by (simp add: represents_def)

text \<open>A parser that has returned a message waits for the headers of the next.\<close>

lemma parse_message_done:
  "parse_message pdec p = (Inr (Some m), q) \<Longrightarrow> pstate q = WaitingForHeaders"
  by (auto simp: parse_message_def parse_body_def res_bind_def Let_def
      split: ParseState.splits option.splits prod.splits sum.splits if_splits)

definition simulates :: "(string \<Rightarrow> bytes) \<Rightarrow> bytes \<Rightarrow> frame \<Rightarrow> EslMessage option EslResult \<times> EslParser \<Rightarrow> bool" where
  "simulates pdec bs f out =
     (case f of
        NeedMore \<Rightarrow> fst out = Inr None \<and> represents pdec (snd out) bs
      | Bad e \<Rightarrow> fst out = Inl e
      | Frame m rest \<Rightarrow> fst out = Inr (Some m) \<and> represents pdec (snd out) rest)"

lemma parse_body_simulates:
  assumes "represents pdec p bs" "pstate p = WaitingForBody mt h n"
  shows "simulates pdec bs (next_frame pdec bs) (parse_body p mt h n)"
proof -
  from assms obtain hd where f: "find_sub [NL, NL] bs = Some (length hd)"
    and bs: "bs = hd @ [NL, NL] @ buf_data (pbuffer p)"
    and env: "envelope pdec hd = Inr (mt, h, n)" and n: "0 < n"
    and wf: "wf_buffer (pbuffer p)" by (auto simp: represents_def)
  have "take (length hd) bs = hd" "drop (length hd + 2) bs = buf_data (pbuffer p)"
    by (simp_all add: bs)
  then have nf: "next_frame pdec bs = frame_body mt h n (buf_data (pbuffer p))"
    using f env by (simp add: next_frame_def)
  show ?thesis
  proof (cases "length (buf_data (pbuffer p)) < n")
    case True
    with assms(1) nf buf.bytes_miss[OF wf True] show ?thesis
      by (simp add: simulates_def frame_body_def parse_body_def)
  next
    case False
    then obtain b' where b': "extract_bytes (pbuffer p) n = (Some (take n (buf_data (pbuffer p))), b')"
      "wf_buffer b'" "buf_data b' = drop n (buf_data (pbuffer p))"
      using buf.bytes_hit[OF wf, of n] by auto
    with False nf n show ?thesis
      by (auto simp: simulates_def frame_body_def parse_body_def represents_def)
  qed
qed

lemma envelope_too_large: "envelope pdec d = Inr (mt, h, n) \<Longrightarrow> n \<le> MAX_MESSAGE_SIZE"
  by (auto simp: envelope_def res_bind_def split: if_split_asm option.split_asm sum.split_asm)

lemma parse_message_head:
  assumes "pstate p = WaitingForHeaders" "extract_until_pattern (pbuffer p) HEADER_TERMINATOR = (Some d, b)"
  shows "parse_message pdec p =
           (let p' = p\<lparr>pbuffer := compact b\<rparr> in
            case envelope pdec d of
              Inl e \<Rightarrow> (Inl e, p')
            | Inr (mt, h, n) \<Rightarrow>
                if n = 0 then (Inr (Some (message_new mt h None)), p')
                else parse_body (p'\<lparr>pstate := WaitingForBody mt h n\<rparr>) mt h n)"
proof -
  have upd: "p'\<lparr>pstate := WaitingForHeaders\<rparr> = p'" if "pstate p' = WaitingForHeaders" for p' :: EslParser
    using that by simp
  show ?thesis
    unfolding parse_message_def envelope_def assms(1) ParseState.case assms(2)
    using assms(1)
    by (simp add: Let_def res_bind_def upd split: sum.splits option.splits)
qed

lemma parse_message_simulates:
  assumes "represents pdec p bs"
  shows "simulates pdec bs (next_frame pdec bs) (parse_message pdec p)"
proof (cases "pstate p")
  case (WaitingForBody mt h n)
  with parse_body_simulates[OF assms this] show ?thesis by (simp add: parse_message_def)
next
  case WaitingForHeaders
  from assms have wf: "wf_buffer (pbuffer p)" by (simp add: represents_def)
  note bs = represents_headers[OF assms WaitingForHeaders]
  show ?thesis
  proof (cases "find_sub [NL, NL] bs")
    case None
    with wf bs have "extract_until_pattern (pbuffer p) [NL, NL] = (None, pbuffer p)"
      by (simp add: buf.until_miss)
    with None WaitingForHeaders assms show ?thesis
      by (simp add: simulates_def parse_message_def next_frame_def)
  next
    case (Some i)
    with wf bs obtain b where b: "extract_until_pattern (pbuffer p) [NL, NL] = (Some (take i bs), b)"
      "wf_buffer b" "buf_data b = drop (i + 2) bs"
      using buf.until_hit[of "pbuffer p" "[NL, NL]" i] by auto
    note pm = parse_message_head[OF WaitingForHeaders, unfolded HEADER_TERMINATOR_def, OF b(1)]
    show ?thesis
    proof (cases "envelope pdec (take i bs)")
      case (Inl e)
      with Some show ?thesis by (simp add: pm Let_def simulates_def next_frame_def)
    next
      case (Inr t)
      obtain mt h n where t: "t = (mt, h, n)" by (cases t)
      from find_sub_sound[OF Some] have i: "i + 2 \<le> length bs" by force
      have cut: "bs = take i bs @ [NL, NL] @ drop (i + 2) bs"
        using find_sub_sound[OF Some] by force
      show ?thesis
      proof (cases "n = 0")
        case True
        with Inr t Some b WaitingForHeaders show ?thesis
          by (simp add: pm Let_def simulates_def next_frame_def frame_body_def represents_def)
      next
        case False
        let ?p = "p\<lparr>pbuffer := compact b, pstate := WaitingForBody mt h n\<rparr>"
        have "represents pdec ?p bs"
          using False Inr t Some b i cut by (auto simp: represents_def intro!: exI[of _ "take i bs"])
        from parse_body_simulates[OF this] False Inr t show ?thesis by (simp add: pm Let_def)
      qed
    qed
  qed
qed

section \<open>Driving the parser\<close>

text \<open>What the reader does with the parser: take messages until there is none, then add a chunk.\<close>

lemma parse_body_shrinks:
  assumes "parse_body p mt h n = (Inr (Some m), p')"
  shows "pstate p' = WaitingForHeaders \<and> buf_len (pbuffer p') \<le> buf_len (pbuffer p)"
proof -
  from assms have n: "n \<le> buf_len (pbuffer p)"
    by (auto simp: parse_body_def extract_bytes_def split: if_split_asm)
  then have "extract_bytes (pbuffer p) n = (Some (take n (buf_data (pbuffer p))), snd (advance (pbuffer p) n))"
    by (simp add: extract_bytes_def)
  with assms n show ?thesis
    by (auto simp: parse_body_def Let_def buf_len_data advance_ok split: if_split_asm)
qed

lemma parse_message_shrinks:
  assumes "parse_message pdec p = (Inr (Some m), p')"
  shows "pstate p' = WaitingForHeaders \<and>
         (if pstate p = WaitingForHeaders then buf_len (pbuffer p') < buf_len (pbuffer p)
          else buf_len (pbuffer p') \<le> buf_len (pbuffer p))"
proof (cases "pstate p")
  case (WaitingForBody mt h n)
  with assms have "parse_body p mt h n = (Inr (Some m), p')" by (simp add: parse_message_def)
  from parse_body_shrinks[OF this] WaitingForBody show ?thesis by simp
next
  case WaitingForHeaders
  obtain i where i: "find_sub [NL, NL] (buf_data (pbuffer p)) = Some i"
    using assms WaitingForHeaders
    by (cases "find_sub [NL, NL] (buf_data (pbuffer p))")
       (auto simp: parse_message_def extract_until_None)
  from extract_until_Some[OF _ i] obtain b where
    b: "extract_until_pattern (pbuffer p) [NL, NL] = (Some (take i (buf_data (pbuffer p))), b)"
      "buf_data b = drop (i + 2) (buf_data (pbuffer p))" by auto
  from find_sub_sound[OF i] have "i + 2 \<le> length (buf_data (pbuffer p))" by force
  with b have lt: "buf_len (compact b) < buf_len (pbuffer p)" by (simp add: buf_len_data)
  note pm = parse_message_head[OF WaitingForHeaders, unfolded HEADER_TERMINATOR_def, OF b(1)]
  from assms obtain mt h n where env: "envelope pdec (take i (buf_data (pbuffer p))) = Inr (mt, h, n)"
    by (auto simp: pm Let_def split: sum.splits)
  show ?thesis
  proof (cases "n = 0")
    case True
    with assms env lt WaitingForHeaders show ?thesis by (auto simp: pm Let_def)
  next
    case False
    with assms env have "parse_body (p\<lparr>pbuffer := compact b, pstate := WaitingForBody mt h n\<rparr>) mt h n
        = (Inr (Some m), p')" by (simp add: pm Let_def)
    from parse_body_shrinks[OF this] lt WaitingForHeaders show ?thesis by simp
  qed
qed

text \<open>Work left for the parser: it falls with every message, and does not grow when there is none.\<close>

definition parser_work :: "EslParser \<Rightarrow> nat" where
  "parser_work p = 2 * buf_len (pbuffer p) + (if pstate p = WaitingForHeaders then 0 else 1)"

lemma parse_body_none_same: "parse_body p mt h n = (Inr None, q) \<Longrightarrow> q = p"
  by (auto simp: parse_body_def Let_def split: prod.splits option.splits if_splits)

lemma parse_message_none_work:
  assumes "parse_message pdec p = (Inr None, q)"
  shows "parser_work q \<le> parser_work p \<and> buf_len (pbuffer q) \<le> buf_len (pbuffer p)"
proof (cases "pstate p")
  case (WaitingForBody mt h n)
  with assms have "q = p" by (auto simp: parse_message_def dest: parse_body_none_same)
  then show ?thesis by simp
next
  case WaitingForHeaders
  show ?thesis
  proof (cases "find_sub [NL, NL] (buf_data (pbuffer p))")
    case None
    with assms WaitingForHeaders show ?thesis
      by (auto simp: parse_message_def extract_until_None)
  next
    case (Some i)
    from extract_until_Some [OF _ Some] obtain b where
      b: "extract_until_pattern (pbuffer p) [NL, NL] = (Some (take i (buf_data (pbuffer p))), b)"
        "buf_data b = drop (i + 2) (buf_data (pbuffer p))" by auto
    from find_sub_sound [OF Some] have "i + 2 \<le> length (buf_data (pbuffer p))" by force
    with b have lt: "buf_len (compact b) < buf_len (pbuffer p)" by (simp add: buf_len_data)
    note pm = parse_message_head [OF WaitingForHeaders, unfolded HEADER_TERMINATOR_def, OF b(1)]
    from assms obtain mt h n where env: "envelope pdec (take i (buf_data (pbuffer p))) = Inr (mt, h, n)"
      by (auto simp: pm Let_def split: sum.splits)
    with assms have "q = p\<lparr>pbuffer := compact b, pstate := WaitingForBody mt h n\<rparr>"
      by (auto simp: pm Let_def dest: parse_body_none_same split: if_splits)
    with lt WaitingForHeaders show ?thesis by (simp add: parser_work_def)
  qed
qed

lemma parse_message_work: "parse_message pdec p = (Inr (Some m), q) \<Longrightarrow> parser_work q < parser_work p"
  by (auto simp: parser_work_def dest!: parse_message_shrinks split: if_splits)

function drain :: "(string \<Rightarrow> bytes) \<Rightarrow> EslParser \<Rightarrow> EslMessage list \<times> EslError option \<times> EslParser" where
  "drain pdec p =
     (case parse_message pdec p of
        (Inr (Some m), p') \<Rightarrow> (case drain pdec p' of (ms, r) \<Rightarrow> (m # ms, r))
      | (Inr None, p') \<Rightarrow> ([], None, p')
      | (Inl e, p') \<Rightarrow> ([], Some e, p'))"
  by pat_completeness auto
termination
  by (relation "measure (\<lambda>(pdec, p). 2 * buf_len (pbuffer p)
        + (if pstate p = WaitingForHeaders then 0 else 1))") (auto dest!: parse_message_shrinks[OF sym])

declare drain.simps [simp del]

fun feed :: "(string \<Rightarrow> bytes) \<Rightarrow> EslParser \<Rightarrow> bytes list \<Rightarrow> EslMessage list \<times> EslError option \<times> EslParser" where
  "feed pdec p [] = ([], None, p)"
| "feed pdec p (c # cs) =
     (case add_data p c of
        (Inl e, p') \<Rightarrow> ([], Some e, p')
      | (Inr _, p') \<Rightarrow>
          (case drain pdec p' of
             (ms, Some e, p'') \<Rightarrow> (ms, Some e, p'')
           | (ms, None, p'') \<Rightarrow> (case feed pdec p'' cs of (ms', r) \<Rightarrow> (ms @ ms', r))))"

lemma drain_frames:
  "represents pdec p bs \<Longrightarrow>
   (case frames pdec bs of (ms, e, rest) \<Rightarrow>
      \<exists>p'. drain pdec p = (ms, e, p') \<and> (e = None \<longrightarrow> represents pdec p' rest))"
proof (induction pdec bs arbitrary: p rule: frames.induct)
  case (1 pdec bs)
  note sim = parse_message_simulates[OF "1.prems"]
  obtain out p' where pm: "parse_message pdec p = (out, p')" by (cases "parse_message pdec p")
  show ?case
  proof (cases "next_frame pdec bs")
    case NeedMore
    with sim pm show ?thesis
      by (simp add: simulates_def frames.simps[of pdec bs] drain.simps[of pdec p])
  next
    case (Bad e)
    with sim pm show ?thesis
      by (simp add: simulates_def frames.simps[of pdec bs] drain.simps[of pdec p])
  next
    case (Frame m rest)
    with sim pm have "out = Inr (Some m)" "represents pdec p' rest" by (simp_all add: simulates_def)
    moreover obtain ms e rest' where "frames pdec rest = (ms, e, rest')" by (cases "frames pdec rest")
    ultimately show ?thesis
      using "1.IH"[OF Frame, of p'] Frame pm
      by (auto simp: frames.simps[of pdec bs] drain.simps[of pdec p])
  qed
qed

definition is_overflow :: "EslError option \<Rightarrow> bool" where
  "is_overflow e = (case e of Some (BufferOverflow _ _) \<Rightarrow> True | _ \<Rightarrow> False)"

lemma add_data_result:
  "add_data p d = (r, p') \<Longrightarrow> r = Inr () \<or> (\<exists>n. r = Inl (BufferOverflow n MAX_BUFFER_SIZE))"
  by (auto simp: add_data_def check_size_limits_def Let_def split: if_splits)

lemma frames_blocked:
  "frames pdec bs = (ms, None, rest) \<Longrightarrow> frames pdec rest = ([], None, rest)"
proof (induction pdec bs arbitrary: ms rule: frames.induct)
  case (1 pdec bs)
  show ?case
  proof (cases "next_frame pdec bs")
    case NeedMore
    with "1.prems" have "rest = bs" by (simp add: frames.simps[of pdec bs])
    with NeedMore show ?thesis by (simp add: frames.simps[of pdec bs])
  next
    case (Bad e)
    with "1.prems" show ?thesis by (simp add: frames.simps[of pdec bs])
  next
    case (Frame m r)
    with "1.prems" obtain ms' where "frames pdec r = (ms', None, rest)"
      by (auto simp: frames.simps[of pdec bs] split: prod.splits)
    with "1.IH"[OF Frame] show ?thesis by blast
  qed
qed

lemma feed_frames:
  assumes "represents pdec p bs" "frames pdec bs = ([], None, bs)" "feed pdec p cs = (ms, e, p')"
  shows "if is_overflow e then prefix ms (fst (frames pdec (bs @ concat cs)))
         else \<exists>rest. frames pdec (bs @ concat cs) = (ms, e, rest)
                 \<and> (e = None \<longrightarrow> represents pdec p' rest)"
  using assms
proof (induction cs arbitrary: p bs ms)
  case Nil
  then show ?case by (auto simp: is_overflow_def)
next
  case (Cons c cs)
  obtain r q where q: "add_data p c = (r, q)" by (cases "add_data p c")
  have rep: "represents pdec q (bs @ c)" using represents_add_data[OF Cons.prems(1), of c] q by simp
  obtain ms1 e1 rest1 where fr: "frames pdec (bs @ c) = (ms1, e1, rest1)" by (cases "frames pdec (bs @ c)")
  with drain_frames[OF rep] obtain q' where dr: "drain pdec q = (ms1, e1, q')"
    and q': "e1 = None \<Longrightarrow> represents pdec q' rest1" by auto
  consider (over) n where "r = Inl (BufferOverflow n MAX_BUFFER_SIZE)"
    | (bad) e2 where "r = Inr ()" "e1 = Some e2" | (go) "r = Inr ()" "e1 = None"
    using add_data_result[OF q] by (cases e1) auto
  then show ?case
  proof cases
    case over
    with Cons.prems q show ?thesis by (auto simp: is_overflow_def)
  next
    case bad
    with Cons.prems q dr fr have "ms = ms1" "e = Some e2" by auto
    moreover have "frames pdec (bs @ concat (c # cs)) = (ms1, Some e2, rest1 @ concat cs)"
      using frames_append[of pdec "bs @ c" "concat cs"] fr bad by simp
    ultimately show ?thesis by simp
  next
    case go
    obtain ms2 where fe: "feed pdec q' cs = (ms2, e, p')" and ms: "ms = ms1 @ ms2"
      using Cons.prems(3) q dr go by (auto split: prod.splits)
    have fr2: "frames pdec (bs @ concat (c # cs)) =
        (case frames pdec (rest1 @ concat cs) of (ms', x) \<Rightarrow> (ms1 @ ms', x))"
      using frames_append[of pdec "bs @ c" "concat cs"] fr go by simp
    from go fr have bl: "frames pdec rest1 = ([], None, rest1)" by (auto intro: frames_blocked)
    from Cons.IH[OF q'[OF go(2)] bl fe] ms fr2 show ?thesis
      by (cases "frames pdec (rest1 @ concat cs)") (auto split: if_splits)
  qed
qed

text \<open>C1. Framing does not depend on segmentation. However the byte stream is cut into chunks, the
  messages a fresh parser delivers, the error it stops with, if any, and the bytes it still holds
  are those of the specification on the whole stream; only when the receive buffer overflows does
  it stop earlier, and then what it delivered is a prefix of the messages in the stream.\<close>

theorem framing_segmentation:
  assumes "feed pdec parser_new chunks = (ms, e, p)"
  shows "if is_overflow e then prefix ms (fst (frames pdec (concat chunks)))
         else \<exists>rest. frames pdec (concat chunks) = (ms, e, rest)
                 \<and> (e = None \<longrightarrow> represents pdec p rest)"
proof -
  have "frames pdec [] = ([], None, [])" by (simp add: frames.simps next_frame_def)
  from feed_frames[OF represents_new this assms] show ?thesis by (simp only: append_Nil)
qed

text \<open>
  A login banner and a reply, cut inside a header name, inside the blank line and inside the body.
\<close>

definition sample_chunks :: "bytes list" where
  "sample_chunks =
     [''Content-Ty'', ''pe: auth/request'' @ [NL], [NL] @ ''Content-Type: command/reply'' @ [NL],
      ''Content-Length: 5'' @ [NL, NL] @ ''ab'', ''cde'']"

lemma sample_feed:
  "case feed percent_decode_ref parser_new sample_chunks of (ms, e, p) \<Rightarrow>
     map message_type ms = [AuthRequest, CommandReply] \<and> map msg_body ms = [None, Some ''abcde'']
     \<and> e = None"
  by code_simp

theorem framing_segmentation_witness:
  "\<exists>ms rest. frames percent_decode_ref (concat sample_chunks) = (ms, None, rest)
     \<and> map msg_body ms = [None, Some ''abcde'']"
proof -
  obtain ms e p where f: "feed percent_decode_ref parser_new sample_chunks = (ms, e, p)"
    by (cases "feed percent_decode_ref parser_new sample_chunks")
  with sample_feed have e: "e = None" and b: "map msg_body ms = [None, Some ''abcde'']" by simp_all
  from framing_segmentation[OF f] e b show ?thesis by (auto simp: is_overflow_def)
qed

text \<open>C8. The parser refines the specification, call by call: on a parser that stands for the stream
  \<open>bs\<close>, \<open>parse_message\<close> returns a message exactly when the stream starts with a complete one (and
  then stands for the rest), \<open>None\<close> exactly when bytes are missing, and the specified error otherwise;
  \<open>add_data\<close> appends to the stream.\<close>

theorem parse_message_refines:
  assumes "represents pdec p bs"
  shows "(case next_frame pdec bs of
            NeedMore \<Rightarrow> \<exists>q. parse_message pdec p = (Inr None, q) \<and> represents pdec q bs
          | Bad e \<Rightarrow> \<exists>q. parse_message pdec p = (Inl e, q)
          | Frame m rest \<Rightarrow> \<exists>q. parse_message pdec p = (Inr (Some m), q) \<and> represents pdec q rest)
         \<and> represents pdec (snd (add_data p d)) (bs @ d)"
  using parse_message_simulates[OF assms] represents_add_data[OF assms]
  by (cases "parse_message pdec p") (auto simp: simulates_def split: frame.splits)

theorem parse_message_refines_witness:
  "represents percent_decode_ref (snd (add_data parser_new ''Content-Type'')) ''Content-Type''"
  using parse_message_refines[OF represents_new, of percent_decode_ref "''Content-Type''"] by simp

section \<open>Bounds\<close>

definition parser_inv :: "EslParser \<Rightarrow> bool" where
  "parser_inv p =
     (wf_buffer (pbuffer p) \<and> position (pbuffer p) = 0
      \<and> length (buffer (pbuffer p)) \<le> MAX_BUFFER_SIZE
      \<and> (case pstate p of
           WaitingForHeaders \<Rightarrow> True
         | WaitingForBody mt h n \<Rightarrow> 0 < n \<and> n \<le> MAX_MESSAGE_SIZE))"

lemma parser_inv_new [simp]: "parser_inv parser_new"
  by (simp add: parser_inv_def parser_new_def) (simp add: buf_new_def)

lemma parser_inv_buf_data: "parser_inv p \<Longrightarrow> buf_data (pbuffer p) = buffer (pbuffer p)"
  by (simp add: parser_inv_def buf_data_def)

lemma parse_body_inv:
  assumes "parser_inv p" "pstate p = WaitingForBody mt h n"
  shows "parser_inv (snd (parse_body p mt h n))
       \<and> (fst (parse_body p mt h n) = Inr None \<longrightarrow>
            snd (parse_body p mt h n) = p \<and> length (buffer (pbuffer p)) < n)"
proof -
  from assms have wf: "wf_buffer (pbuffer p)" by (simp add: parser_inv_def)
  note bd = parser_inv_buf_data[OF assms(1)]
  show ?thesis
  proof (cases "length (buf_data (pbuffer p)) < n")
    case True
    with buf.bytes_miss[OF wf True] assms bd show ?thesis by (simp add: parse_body_def)
  next
    case False
    then obtain b' where "extract_bytes (pbuffer p) n = (Some (take n (buf_data (pbuffer p))), b')"
      "wf_buffer b'" "buf_data b' = drop n (buf_data (pbuffer p))"
      using buf.bytes_hit[OF wf, of n] by auto
    with assms bd show ?thesis
      by (auto simp: parse_body_def parser_inv_def Let_def buffer_compact)
  qed
qed

lemma parse_message_inv:
  assumes "parser_inv p"
  shows "parser_inv (snd (parse_message pdec p))
       \<and> (fst (parse_message pdec p) = Inr None \<longrightarrow>
            (case pstate (snd (parse_message pdec p)) of
               WaitingForHeaders \<Rightarrow> True
             | WaitingForBody mt h n \<Rightarrow> length (buffer (pbuffer (snd (parse_message pdec p)))) < n))"
proof (cases "pstate p")
  case (WaitingForBody mt h n)
  with parse_body_inv[OF assms this] show ?thesis by (auto simp: parse_message_def)
next
  case WaitingForHeaders
  from assms have wf: "wf_buffer (pbuffer p)" by (simp add: parser_inv_def)
  note bd = parser_inv_buf_data[OF assms]
  show ?thesis
  proof (cases "find_sub [NL, NL] (buf_data (pbuffer p))")
    case None
    with wf have "extract_until_pattern (pbuffer p) [NL, NL] = (None, pbuffer p)"
      by (simp add: buf.until_miss)
    with WaitingForHeaders assms show ?thesis by (simp add: parse_message_def)
  next
    case (Some i)
    with wf obtain d b where b: "extract_until_pattern (pbuffer p) [NL, NL] = (Some d, b)"
      "wf_buffer b" "buf_data b = drop (i + 2) (buf_data (pbuffer p))"
      using buf.until_hit[of "pbuffer p" "[NL, NL]" i] by auto
    note pm = parse_message_head[OF WaitingForHeaders, unfolded HEADER_TERMINATOR_def, OF b(1)]
    have inv: "parser_inv (p\<lparr>pbuffer := compact b\<rparr>)"
      using assms b bd WaitingForHeaders
      by (simp add: parser_inv_def buffer_compact le_trans[OF diff_le_self])
    show ?thesis
    proof (cases "envelope pdec d")
      case (Inl e)
      with inv show ?thesis by (simp add: pm Let_def)
    next
      case (Inr t)
      obtain mt h n where t: "t = (mt, h, n)" by (cases t)
      let ?p = "p\<lparr>pbuffer := compact b, pstate := WaitingForBody mt h n\<rparr>"
      have "0 < n \<Longrightarrow> parser_inv ?p"
        using inv envelope_too_large[of pdec d mt h n] Inr t by (simp add: parser_inv_def)
      with parse_body_inv[of ?p mt h n] inv Inr t WaitingForHeaders show ?thesis
        by (cases "n = 0") (auto simp: pm Let_def)
    qed
  qed
qed

text \<open>C22. The parser's memory is bounded and its buffer is never left with a consumed prefix: every call
  keeps the position at 0 and the length of the buffer at or below \<open>MAX_BUFFER_SIZE\<close>, whatever it
  returns; it never waits for a body of more than \<open>MAX_MESSAGE_SIZE\<close> bytes; and while it waits for a
  body, a chunk of up to \<open>MAX_MESSAGE_SIZE\<close> bytes cannot overflow it.\<close>

theorem parser_memory_bound:
  assumes "parser_inv p" "parse_message pdec p = (r, q)"
  shows "parser_inv q
       \<and> (fst (add_data q d) = Inr () \<longrightarrow> parser_inv (snd (add_data q d)))
       \<and> (r = Inr None \<and> pstate q \<noteq> WaitingForHeaders \<and> length d \<le> MAX_MESSAGE_SIZE \<longrightarrow>
            fst (add_data q d) = Inr ())"
proof -
  from parse_message_inv[OF assms(1), of pdec] assms(2) have q: "parser_inv q"
    and small: "r = Inr None \<Longrightarrow> case pstate q of WaitingForHeaders \<Rightarrow> True
        | WaitingForBody mt h n \<Rightarrow> length (buffer (pbuffer q)) < n" by (simp_all only: fst_conv snd_conv)
  have "fst (add_data q d) = Inr () \<Longrightarrow> parser_inv (snd (add_data q d))"
    using q by (auto simp: parser_inv_def add_data_def Let_def check_size_limits_def
        extend_from_slice_def wf_buffer_def split: if_splits)
  moreover have "fst (add_data q d) = Inr ()"
    if "r = Inr None" "pstate q \<noteq> WaitingForHeaders" "length d \<le> MAX_MESSAGE_SIZE"
  proof -
    from that(2) obtain mt h n where st: "pstate q = WaitingForBody mt h n" by (cases "pstate q") auto
    with small[OF that(1)] q have "length (buffer (pbuffer q)) < MAX_MESSAGE_SIZE"
      by (simp add: parser_inv_def)
    with that(3) two_messages_fit show ?thesis
      by (simp add: add_data_def check_size_limits_def extend_from_slice_def)
  qed
  ultimately show ?thesis using q by blast
qed

theorem parser_memory_bound_witness:
  "parser_inv (snd (parse_message percent_decode_ref parser_new))"
  using parser_memory_bound[OF parser_inv_new, of percent_decode_ref
      "fst (parse_message percent_decode_ref parser_new)"
      "snd (parse_message percent_decode_ref parser_new)" "[]"]
  by simp

end
