(* ===== verification/Wire_Lines.thy ===== *)
theory Wire_Lines
  imports Esl_Framing
begin

text \<open>
  Blocks of lines on the wire: where the blank line that ends a block is found, and what the
  header parsers of \<open>Esl_Protocol\<close> read from lines \<open>key: value\<close>. The serialisers of the crate
  (\<open>to_plain_format\<close>, \<open>to_wire_format\<close>) all write such blocks.
\<close>

section \<open>The end of a block\<close>

definition block :: "string list \<Rightarrow> string" where
  "block ls = concat (map (\<lambda>l. l @ [NL]) ls)"

lemma block_simps [simp]: "block [] = []" "block (l # ls) = l @ NL # block ls"
  by (simp_all add: block_def)

lemma block_append [simp]: "block (xs @ ys) = block xs @ block ys"
  by (simp add: block_def)

lemma block_join: "ls \<noteq> [] \<Longrightarrow> block ls = join [NL] ls @ [NL]"
  by (induction ls) (auto simp: join_Cons)

lemma find_blank_first: "NL \<notin> set l \<Longrightarrow> find_sub [NL, NL] (l @ NL # NL # b) = Some (length l)"
  by (induction l) (auto simp: starts_with_def)

lemma find_blank_skip:
  "NL \<notin> set l \<Longrightarrow> r \<noteq> [] \<Longrightarrow> hd r \<noteq> NL \<Longrightarrow>
   find_sub [NL, NL] (l @ NL # r) = map_option (\<lambda>i. Suc (length l) + i) (find_sub [NL, NL] r)"
proof (induction l)
  case Nil
  then show ?case by (cases r) (auto simp: starts_with_def map_option_case)
next
  case (Cons c l)
  then have "\<not> starts_with [NL, NL] (c # l @ NL # r)" by (auto simp: starts_with_def)
  with Cons show ?case by (simp add: option.map_comp comp_def)
qed

text \<open>The lines of a block: no line feed, not empty.\<close>

definition wire_line :: "string \<Rightarrow> bool" where
  "wire_line l = (NL \<notin> set l \<and> l \<noteq> [])"

lemma find_blank_block:
  "ls \<noteq> [] \<Longrightarrow> \<forall>l \<in> set ls. wire_line l \<Longrightarrow>
   find_sub [NL, NL] (block ls @ NL # b) = Some (length (join [NL] ls))"
proof (induction ls)
  case Nil
  then show ?case by simp
next
  case (Cons l ls)
  then have l: "NL \<notin> set l" by (simp add: wire_line_def)
  show ?case
  proof (cases ls)
    case Nil
    with l show ?thesis by (simp add: find_blank_first)
  next
    case (Cons l' ls')
    with Cons.prems have "wire_line l'" by simp
    with Cons have "hd (block ls @ NL # b) \<noteq> NL" by (cases l') (auto simp: wire_line_def)
    with l find_blank_skip[of l "block ls @ NL # b"] Cons.IH Cons.prems Cons
    show ?thesis by (simp add: join_Cons)
  qed
qed

lemma take_block: "ls \<noteq> [] \<Longrightarrow> take (length (join [NL] ls)) (block ls @ NL # b) = join [NL] ls"
  by (simp add: block_join)

lemma drop_block: "ls \<noteq> [] \<Longrightarrow> drop (length (join [NL] ls) + 2) (block ls @ NL # b) = b"
  by (simp add: block_join)

section \<open>Header lines\<close>

definition raw_line :: "string \<times> string \<Rightarrow> string" where
  "raw_line kv = fst kv @ '': '' @ snd kv"

definition good_key :: "string \<Rightarrow> bool" where
  "good_key k = (trim k = k \<and> COLON \<notin> set k \<and> NL \<notin> set k)"

text \<open>A value that is one line without white space around it.\<close>

definition tidy :: "string \<Rightarrow> bool" where
  "tidy v = (trim v = v \<and> NL \<notin> set v)"

definition good_raw :: "string \<times> string \<Rightarrow> bool" where
  "good_raw kv = (good_key (fst kv) \<and> tidy (snd kv))"

lemma good_key_simps [simp]:
  "good_key ''Event-Name''" "good_key ''Content-Length''" "good_key ''Content-Type''" "good_key ''Reply-Text''"
  by code_simp+

lemma solid_not_NL: "solid c \<Longrightarrow> c \<noteq> NL \<and> c \<noteq> CR"
  by (auto simp: solid_def ascii_ws_def byte_val_def)

lemma tidy_solid: "\<forall>c \<in> set v. solid c \<Longrightarrow> tidy v"
  using solid_not_NL by (auto simp: tidy_def trim_all_solid)

lemma tidy_last:
  assumes "tidy v" "v \<noteq> []"
  shows "last v \<noteq> CR"
proof
  assume "last v = CR"
  then obtain w where "v = w @ [CR]" using assms(2) by (metis append_butlast_last_id)
  then have "ws_tail (rev v) = 1" by (cases "rev v" rule: ws_tail.cases) auto
  with assms(1) show False using ws_tail_trim [of v] by (simp add: tidy_def)
qed

lemma raw_line_plain: "good_raw kv \<Longrightarrow> plain_line (raw_line kv)"
proof -
  assume g: "good_raw kv"
  then have "NL \<notin> set (raw_line kv)"
    by (auto simp: raw_line_def good_raw_def good_key_def tidy_def)
  moreover have "last (raw_line kv) \<noteq> CR"
    using g tidy_last [of "snd kv"] by (cases "snd kv = []") (auto simp: raw_line_def good_raw_def)
  ultimately show ?thesis by (simp add: plain_line_def raw_line_def)
qed

lemma raw_line_wire: "good_raw kv \<Longrightarrow> wire_line (raw_line kv)"
  using raw_line_plain by (auto simp: plain_line_def wire_line_def)

lemma trim_raw_line:
  assumes "good_raw kv"
  shows "trim (raw_line kv) = fst kv @ COLON # (if snd kv = [] then [] else SP # snd kv)"
proof -
  from assms have k: "trim (fst kv) = fst kv" and v: "trim (snd kv) = snd kv"
    by (auto simp: good_raw_def good_key_def tidy_def)
  have h: "ws_head (fst kv @ COLON # t) = 0" for t
    using ws_head_append_solid[of "fst kv" COLON t] ws_head_trim[of "fst kv"] k
    by (cases "fst kv = []") simp_all
  have start: "trim_start (raw_line kv) = raw_line kv"
    using h[of "SP # snd kv"] by (simp add: raw_line_def trim_start_id)
  show ?thesis
  proof (cases "snd kv = []")
    case True
    have "trim_end ((fst kv @ [COLON]) @ [SP]) = fst kv @ [COLON]"
      by (simp only: trim_end_drop_ws[OF ascii_ws_SP(1)] trim_end_solid[OF solid_COLON])
    with True start show ?thesis by (simp add: trim_def raw_line_def)
  next
    case False
    have "is_ascii SP" by code_simp
    from trim_end_after_ascii [OF v False this, of "fst kv @ [COLON]"] False start
    show ?thesis by (simp add: trim_def raw_line_def)
  qed
qed

lemma split_header_raw:
  assumes "good_raw kv"
  shows "trim (raw_line kv) \<noteq> []"
    and "split_header pdec (trim (raw_line kv)) = Some (fst kv, header_value pdec (snd kv))"
proof -
  from assms have k: "trim (fst kv) = fst kv" "COLON \<notin> set (fst kv)"
    and v: "trim (snd kv) = snd kv"
    by (auto simp: good_raw_def good_key_def tidy_def)
  have "trim (if snd kv = [] then [] else SP # snd kv) = snd kv"
    using v by (auto simp: trim_drop_SP)
  with k show "split_header pdec (trim (raw_line kv)) = Some (fst kv, header_value pdec (snd kv))"
    by (simp add: trim_raw_line[OF assms] split_header_def find_char_append)
  show "trim (raw_line kv) \<noteq> []" by (simp add: trim_raw_line[OF assms])
qed

definition set_raws :: "(string \<Rightarrow> bytes) \<Rightarrow> (string \<times> string) list \<Rightarrow> headers \<Rightarrow> headers" where
  "set_raws pdec raws h = fold (\<lambda>kv. fmupd (fst kv) (header_value pdec (snd kv))) raws h"

lemma set_raws_simps [simp]:
  "set_raws pdec [] h = h"
  "set_raws pdec (kv # raws) h = set_raws pdec raws (fmupd (fst kv) (header_value pdec (snd kv)) h)"
  by (simp_all add: set_raws_def)

lemma set_raws_lookup:
  assumes "distinct (map fst raws)"
  shows "fmlookup (set_raws pdec raws h) k =
           (case map_of raws k of Some v \<Rightarrow> Some (header_value pdec v) | None \<Rightarrow> fmlookup h k)"
  using assms
proof (induction raws arbitrary: h)
  case (Cons kv raws)
  then have "map_of raws (fst kv) = None" by (simp add: map_of_eq_None_iff)
  with Cons show ?case by (cases "k = fst kv") (auto split: option.splits)
qed simp

lemma parse_header_lines_raws:
  "\<forall>kv \<in> set raws. good_raw kv \<Longrightarrow>
   parse_header_lines pdec (map raw_line raws) h = Inr (set_raws pdec raws h)"
  by (induction raws arbitrary: h) (simp_all add: split_header_raw)

lemma lines_raws: "\<forall>kv \<in> set raws. good_raw kv \<Longrightarrow> lines (join [NL] (map raw_line raws)) = map raw_line raws"
  by (rule lines_join) (auto intro: raw_line_plain)

lemma parse_headers_raws:
  "\<forall>kv \<in> set raws. good_raw kv \<Longrightarrow>
   parse_headers pdec (join [NL] (map raw_line raws)) = Inr (set_raws pdec raws fmempty)"
  by (simp add: parse_headers_def lines_raws parse_header_lines_raws)

section \<open>Whole messages\<close>

text \<open>
  The bytes of a message: header lines, a blank line and the body. Any header block of this form
  that names the content type and the length of the body is framed back.
\<close>

definition wire_message :: "(string \<times> string) list \<Rightarrow> string \<Rightarrow> bytes" where
  "wire_message raws body = block (map raw_line raws) @ NL # body"

lemma next_frame_wire_message:
  assumes "raws \<noteq> []" "\<forall>kv \<in> set raws. good_raw kv" "utf8_valid (join [NL] (map raw_line raws))"
  shows "next_frame pdec (wire_message raws body) =
           (case envelope pdec (join [NL] (map raw_line raws)) of
              Inl e \<Rightarrow> Bad e
            | Inr (mt, h, n) \<Rightarrow> frame_body mt h n body)"
proof -
  have "find_sub [NL, NL] (wire_message raws body) = Some (length (join [NL] (map raw_line raws)))"
    unfolding wire_message_def using assms(1,2)
    by (intro find_blank_block) (auto intro: raw_line_wire)
  then show ?thesis
    using assms(1) take_block[of "map raw_line raws" body] drop_block[of "map raw_line raws" body]
    by (simp add: next_frame_def wire_message_def del: take_append drop_append
        split: sum.split)
qed

lemma header_value_digits:
  assumes "percent_codec penc pdec"
  shows "header_value pdec (nat_to_string n) = nat_to_string n"
proof -
  have "CHR ''%'' \<notin> set (nat_to_string n)"
    by (rule nat_to_string_notin) code_simp
  then have "pdec (nat_to_string n) = nat_to_string n"
    by (rule percent_codec.pdec_plain[OF assms])
  then show ?thesis by (simp add: header_value_def)
qed

lemma envelope_raws:
  assumes "\<forall>kv \<in> set raws. good_raw kv" "distinct (map fst raws)"
    "utf8_valid (join [NL] (map raw_line raws))"
  shows "envelope pdec (join [NL] (map raw_line raws)) =
           (case map_of raws ''Content-Type'' of
              None \<Rightarrow> Inl (protocol_error missing_content_type)
            | Some ct \<Rightarrow>
                (let mt = type_from_content_type (header_value pdec ct);
                     h = set_raws pdec raws fmempty in
                 case map_of raws ''Content-Length'' of
                   None \<Rightarrow> Inr (mt, h, 0)
                 | Some rl \<Rightarrow>
                     (let l = header_value pdec rl in
                      case parse_usize (trim l) of
                        Inl _ \<Rightarrow> Inl (InvalidHeader (''Content-Length: '' @ l))
                      | Inr n \<Rightarrow>
                          if n > MAX_MESSAGE_SIZE then Inl (protocol_error (message_too_large n))
                          else Inr (mt, h, n))))"
  using assms
  by (simp add: envelope_def parse_headers_raws set_raws_lookup Let_def split: option.splits)

lemma wire_message_append: "wire_message raws body @ rest = wire_message raws (body @ rest)"
  by (simp add: wire_message_def)

lemma framed_message:
  assumes "percent_codec penc pdec"
    and "\<forall>kv \<in> set raws. good_raw kv" "distinct (map fst raws)"
      "utf8_valid (join [NL] (map raw_line raws))"
    and "map_of raws ''Content-Type'' = Some ct"
    and "map_of raws ''Content-Length'' = Some (nat_to_string (length body))"
    and "length body \<le> MAX_MESSAGE_SIZE" "utf8_valid body"
  shows "next_frame pdec (wire_message raws body @ rest) =
           Frame (message_new (type_from_content_type (header_value pdec ct))
                    (set_raws pdec raws fmempty) (if body = [] then None else Some body)) rest"
proof -
  have ne: "raws \<noteq> []" using assms(5) by auto
  have "parse_usize (nat_to_string (length body)) = Inr (length body)"
    using assms(7) max_message_usize by (intro parse_usize_nat_to_string) simp
  then show ?thesis
    using assms(5-8)
    by (simp add: wire_message_append next_frame_wire_message[OF ne assms(2,4)]
        envelope_raws[OF assms(2-4)] header_value_digits[OF assms(1)] Let_def frame_body_def)
qed

text \<open>A message that announces no length has no body.\<close>

lemma framed_no_body:
  assumes "\<forall>kv \<in> set raws. good_raw kv" "distinct (map fst raws)" "utf8_valid (join [NL] (map raw_line raws))"
    and "map_of raws ''Content-Type'' = Some ct" "map_of raws ''Content-Length'' = None"
  shows "next_frame pdec (wire_message raws [] @ rest) =
           Frame (message_new (type_from_content_type (header_value pdec ct)) (set_raws pdec raws fmempty) None) rest"
proof -
  have ne: "raws \<noteq> []" using assms(4) by auto
  show ?thesis
    using assms(4,5)
    by (simp add: wire_message_append next_frame_wire_message [OF ne assms(1,3)] envelope_raws [OF assms(1-3)]
        Let_def frame_body_def)
qed

text \<open>The next call of the parser when the bytes it has been given are those of the stream \<open>bs\<close>.\<close>

lemma parse_framed:
  assumes "represents pdec p bs" "bs @ d = stream" "next_frame pdec stream = Frame m rest"
  shows "\<exists>q. parse_message pdec (snd (add_data p d)) = (Inr (Some m), q)
     \<and> pstate q = WaitingForHeaders \<and> buf_data (pbuffer q) = rest"
proof -
  from parse_message_simulates [OF represents_add_data [OF assms(1), of d]] assms(2,3)
  obtain q where q: "parse_message pdec (snd (add_data p d)) = (Inr (Some m), q)" "represents pdec q rest"
    by (cases "parse_message pdec (snd (add_data p d))") (auto simp: simulates_def)
  moreover from q(1) have "pstate q = WaitingForHeaders"
    by (rule parse_message_done)
  ultimately show ?thesis
    using represents_headers by blast
qed

lemma parse_bad:
  assumes "represents pdec p bs" "bs @ d = stream" "next_frame pdec stream = Bad e"
  shows "fst (parse_message pdec (snd (add_data p d))) = Inl e"
  using parse_message_simulates [OF represents_add_data [OF assms(1), of d]] assms(2,3)
  by (simp add: simulates_def)

text \<open>C20. One message on the wire is read as exactly that message. For any block of well-formed header
  lines that names a content type and the length of the body, followed by the body and by any further
  bytes, and for a parser that has received any part of them: with the remaining bytes, \<open>parse_message\<close> returns
  the message with the type of the content type, every header decoded and exactly the body, and is left
  waiting for headers with exactly the further bytes in its buffer.\<close>

theorem message_framing:
  assumes "percent_codec penc pdec"
    and "\<forall>kv \<in> set raws. good_raw kv" "distinct (map fst raws)"
      "utf8_valid (join [NL] (map raw_line raws))"
    and "map_of raws ''Content-Type'' = Some ct"
    and "map_of raws ''Content-Length'' = Some (nat_to_string (length body))"
    and "length body \<le> MAX_MESSAGE_SIZE" "utf8_valid body"
    and "represents pdec p bs" "bs @ d = wire_message raws body @ rest"
  shows "\<exists>q. parse_message pdec (snd (add_data p d)) =
             (Inr (Some (message_new (type_from_content_type (header_value pdec ct))
                          (set_raws pdec raws fmempty) (if body = [] then None else Some body))), q)
           \<and> pstate q = WaitingForHeaders \<and> buf_data (pbuffer q) = rest"
  by (rule parse_framed [OF assms(9,10) framed_message [OF assms(1-8)]])

theorem message_framing_witness:
  "\<exists>q. parse_message percent_decode_ref (snd (add_data parser_new
          (wire_message [(''Content-Type'', ''api/response''), (''Content-Length'', ''3'')] ''+OK'' @ ''Content'')))
      = (Inr (Some (message_new ApiResponse
          (set_raws percent_decode_ref [(''Content-Type'', ''api/response''), (''Content-Length'', ''3'')] fmempty)
          (Some ''+OK''))), q)
    \<and> buf_data (pbuffer q) = ''Content''"
proof -
  let ?raws = "[(''Content-Type'', ''api/response''), (''Content-Length'', ''3'')]"
  have g: "\<forall>kv \<in> set ?raws. good_raw kv" "utf8_valid (join [NL] (map raw_line ?raws))"
    "map_of ?raws ''Content-Length'' = Some (nat_to_string (length ''+OK''))" "utf8_valid ''+OK''"
    "type_from_content_type (header_value percent_decode_ref ''api/response'') = ApiResponse"
    by code_simp+
  have d: "distinct (map fst ?raws)" "map_of ?raws ''Content-Type'' = Some ''api/response''"
    "length ''+OK'' \<le> MAX_MESSAGE_SIZE" by (simp_all add: MAX_MESSAGE_SIZE_def)
  from message_framing [OF percent_ref.percent_codec_axioms g(1) d(1) g(2) d(2) g(3) d(3) g(4) represents_new append_Nil]
  show ?thesis by (auto simp only: g(5) if_False list.distinct)
qed

text \<open>C21. A corrupted length never makes the client wait or allocate. When the \<open>Content-Length\<close> of a
  header block is no decimal \<open>usize\<close>, or is above \<open>MAX_MESSAGE_SIZE\<close>, or the block has no
  \<open>Content-Type\<close>, \<open>parse_message\<close> fails as soon as the blank line has arrived, with the error that
  names the problem, in whatever pieces the block came and whatever bytes are behind it. (The
  reader then ends with this error.)\<close>

theorem corrupt_envelope_rejected:
  assumes "raws \<noteq> []" "\<forall>kv \<in> set raws. good_raw kv" "distinct (map fst raws)"
      "utf8_valid (join [NL] (map raw_line raws))"
    and "represents pdec p bs" "bs @ d = wire_message raws rest"
  shows "(map_of raws ''Content-Type'' = None \<longrightarrow>
            fst (parse_message pdec (snd (add_data p d))) = Inl (protocol_error missing_content_type))
       \<and> (map_of raws ''Content-Type'' \<noteq> None \<and> map_of raws ''Content-Length'' = Some rl
            \<and> parse_usize (trim (header_value pdec rl)) = Inl ek \<longrightarrow>
            fst (parse_message pdec (snd (add_data p d)))
              = Inl (InvalidHeader (''Content-Length: '' @ header_value pdec rl)))
       \<and> (map_of raws ''Content-Type'' \<noteq> None \<and> map_of raws ''Content-Length'' = Some rl
            \<and> parse_usize (trim (header_value pdec rl)) = Inr n \<and> MAX_MESSAGE_SIZE < n \<longrightarrow>
            fst (parse_message pdec (snd (add_data p d))) = Inl (ProtocolError (message_too_large n)))"
  using parse_bad [OF assms(5,6)]
  by (auto simp: next_frame_wire_message[OF assms(1,2,4)] envelope_raws[OF assms(2-4)] protocol_error_def Let_def)

theorem corrupt_envelope_rejected_witness:
  "fst (parse_message percent_decode_ref (snd (add_data (snd (add_data parser_new ''Content-Ty''))
      (''pe: api/response'' @ [NL] @ ''Content-Length: 99999999'' @ [NL, NL] @ ''abc''))))
   = Inl (ProtocolError (message_too_large 99999999))"
proof -
  let ?raws = "[(''Content-Type'', ''api/response''), (''Content-Length'', ''99999999'')]"
  have g: "\<forall>kv \<in> set ?raws. good_raw kv" "utf8_valid (join [NL] (map raw_line ?raws))"
    "parse_usize (trim (header_value percent_decode_ref ''99999999'')) = Inr 99999999"
    by code_simp+
  have "represents percent_decode_ref (snd (add_data parser_new ''Content-Ty'')) ([] @ ''Content-Ty'')"
    by (rule represents_add_data) simp
  then show ?thesis
    using corrupt_envelope_rejected [OF _ g(1) _ g(2), of percent_decode_ref "snd (add_data parser_new ''Content-Ty'')"
        "[] @ ''Content-Ty''" "''pe: api/response'' @ [NL] @ ''Content-Length: 99999999'' @ [NL, NL] @ ''abc''"
        "''abc''" "''99999999''" _ 99999999] g(3)
    by (simp add: MAX_MESSAGE_SIZE_def wire_message_def block_def raw_line_def)
qed

end
