(* ===== verification/Esl_Channel.thy ===== *)
theory Esl_Channel
  imports Codec
begin

text \<open>
  The channel enumerations of \<open>src/src/channel.rs\<close>: their names on the wire, the parsers of
  these names and the numbers of \<open>ChannelState\<close>. Every \<open>FromStr\<close> folds the case of its input
  and looks it up in the table of its \<open>match\<close>; each instance of the contract \<open>name_codec\<close>
  gives the round trip and the exact set of accepted texts.
\<close>

section \<open>Name tables\<close>

text \<open>A \<open>match\<close> on the folded text whose last arm returns the error with the original text.\<close>

definition parse_name :: "('a \<times> string) list \<Rightarrow> (string \<Rightarrow> string) \<Rightarrow> (string \<Rightarrow> 'e) \<Rightarrow> string
    \<Rightarrow> ('e, 'a) result" where
  "parse_name tbl fold_case err s =
     (case map_of (map (\<lambda>(x, n). (n, x)) tbl) (fold_case s) of
        Some x \<Rightarrow> Inr x
      | None \<Rightarrow> Inl (err s))"

lemma ok_parse_name:
  "ok_opt (parse_name tbl fc err s) = map_of (map (\<lambda>(x, n). (n, x)) tbl) (fc s)"
  by (simp add: parse_name_def split: option.splits)

lemma parse_name_Inl: "parse_name tbl fc err s = Inl e \<Longrightarrow> e = err s"
  by (auto simp: parse_name_def split: option.splits)

section \<open>ChannelState\<close>

datatype ChannelState =
    CsNew
  | CsInit
  | CsRouting
  | CsSoftExecute
  | CsExecute
  | CsExchangeMedia
  | CsPark
  | CsConsumeMedia
  | CsHibernate
  | CsReset
  | CsHangup
  | CsReporting
  | CsDestroy
  | CsNone

fun channel_state_display :: "ChannelState \<Rightarrow> string" where
  "channel_state_display CsNew = ''CS_NEW''"
| "channel_state_display CsInit = ''CS_INIT''"
| "channel_state_display CsRouting = ''CS_ROUTING''"
| "channel_state_display CsSoftExecute = ''CS_SOFT_EXECUTE''"
| "channel_state_display CsExecute = ''CS_EXECUTE''"
| "channel_state_display CsExchangeMedia = ''CS_EXCHANGE_MEDIA''"
| "channel_state_display CsPark = ''CS_PARK''"
| "channel_state_display CsConsumeMedia = ''CS_CONSUME_MEDIA''"
| "channel_state_display CsHibernate = ''CS_HIBERNATE''"
| "channel_state_display CsReset = ''CS_RESET''"
| "channel_state_display CsHangup = ''CS_HANGUP''"
| "channel_state_display CsReporting = ''CS_REPORTING''"
| "channel_state_display CsDestroy = ''CS_DESTROY''"
| "channel_state_display CsNone = ''CS_NONE''"

datatype ParseChannelStateError = ParseChannelStateError string

fun channel_state_error_display :: "ParseChannelStateError \<Rightarrow> string" where
  "channel_state_error_display (ParseChannelStateError s) = ''unknown channel state: '' @ s"

definition channel_state_names :: "(ChannelState \<times> string) list" where
  "channel_state_names =
     [(CsNew, ''CS_NEW''),
      (CsInit, ''CS_INIT''),
      (CsRouting, ''CS_ROUTING''),
      (CsSoftExecute, ''CS_SOFT_EXECUTE''),
      (CsExecute, ''CS_EXECUTE''),
      (CsExchangeMedia, ''CS_EXCHANGE_MEDIA''),
      (CsPark, ''CS_PARK''),
      (CsConsumeMedia, ''CS_CONSUME_MEDIA''),
      (CsHibernate, ''CS_HIBERNATE''),
      (CsReset, ''CS_RESET''),
      (CsHangup, ''CS_HANGUP''),
      (CsReporting, ''CS_REPORTING''),
      (CsDestroy, ''CS_DESTROY''),
      (CsNone, ''CS_NONE'')]"

definition channel_state_from_str :: "string \<Rightarrow> (ParseChannelStateError, ChannelState) result" where
  "channel_state_from_str = parse_name channel_state_names to_uppercase ParseChannelStateError"

lemma channel_state_names_ok:
  "distinct (map fst channel_state_names) \<and> distinct (map snd channel_state_names)
   \<and> list_all (\<lambda>n. list_all (\<lambda>c. is_ascii c \<and> ascii_upper c = c) n) (map snd channel_state_names)"
  by code_simp

interpretation channel_state_text: name_codec channel_state_display "\<lambda>s. ok_opt (channel_state_from_str s)" to_uppercase
proof (rule name_table_codec[where tbl = channel_state_names])
  show "map_of channel_state_names x = Some (channel_state_display x)" for x
    by (cases x) (simp_all add: channel_state_names_def)
qed (use channel_state_names_ok to_uppercase_fixed in
    \<open>auto simp: channel_state_from_str_def ok_parse_name list_all_iff\<close>)

text \<open>The discriminants of the \<open>repr(u8)\<close> enumeration, and the order they give.\<close>

fun as_number :: "ChannelState \<Rightarrow> u8" where
  "as_number CsNew = 0"
| "as_number CsInit = 1"
| "as_number CsRouting = 2"
| "as_number CsSoftExecute = 3"
| "as_number CsExecute = 4"
| "as_number CsExchangeMedia = 5"
| "as_number CsPark = 6"
| "as_number CsConsumeMedia = 7"
| "as_number CsHibernate = 8"
| "as_number CsReset = 9"
| "as_number CsHangup = 10"
| "as_number CsReporting = 11"
| "as_number CsDestroy = 12"
| "as_number CsNone = 13"

definition from_number :: "u8 \<Rightarrow> ChannelState option" where
  "from_number n = map_of
     [(0, CsNew),
      (1, CsInit),
      (2, CsRouting),
      (3, CsSoftExecute),
      (4, CsExecute),
      (5, CsExchangeMedia),
      (6, CsPark),
      (7, CsConsumeMedia),
      (8, CsHibernate),
      (9, CsReset),
      (10, CsHangup),
      (11, CsReporting),
      (12, CsDestroy),
      (13, CsNone)] n"

lemma as_number_inj: "as_number a = as_number b \<Longrightarrow> a = b"
  by (cases a; cases b) simp_all

instantiation ChannelState :: linorder
begin

definition less_eq_ChannelState :: "ChannelState \<Rightarrow> ChannelState \<Rightarrow> bool" where
  "less_eq_ChannelState a b = (as_number a \<le> as_number b)"

definition less_ChannelState :: "ChannelState \<Rightarrow> ChannelState \<Rightarrow> bool" where
  "less_ChannelState a b = (as_number a < as_number b)"

instance
  by intro_classes (auto simp: less_eq_ChannelState_def less_ChannelState_def as_number_inj)

end

lemma from_as_number: "from_number (as_number x) = Some x"
  by (cases x) (simp_all add: from_number_def)

lemma as_from_number: "from_number n = Some x \<Longrightarrow> as_number x = n"
  by (auto simp: from_number_def split: if_splits)

lemma as_number_bound: "as_number x < 14"
  by (cases x) simp_all

lemma from_number_defined: "n < 14 \<Longrightarrow> from_number n \<noteq> None"
proof -
  assume "n < 14"
  then have "unat n < 14" by (simp add: word_less_nat_alt)
  then have "unat n \<in> {0,1,2,3,4,5,6,7,8,9,10,11,12,13}" by (simp only: insert_iff empty_iff) presburger
  then have "n \<in> of_nat ` {0,1,2,3,4,5,6,7,8,9,10,11,12,13}"
    by (metis imageI of_nat_unat ucast_id)
  then show ?thesis by (auto simp: from_number_def)
qed

text \<open>\<open>as_number\<close> and \<open>from_number\<close> are inverse: a number denotes a channel state exactly
  when it is below 14, and then \<open>as_number\<close> gives it back; every other \<open>u8\<close> is rejected.\<close>

theorem channel_state_number_iff:
  "(from_number n = Some x \<longleftrightarrow> as_number x = n) \<and> (from_number n = None \<longleftrightarrow> 14 \<le> n)"
  using from_as_number as_from_number as_number_bound from_number_defined
  by (metis not_le option.exhaust)

section \<open>CallState\<close>

datatype CallState =
    Down
  | Dialing
  | Ringing
  | Early
  | Active
  | Held
  | RingWait
  | Hangup
  | Unheld

fun call_state_display :: "CallState \<Rightarrow> string" where
  "call_state_display CallState.Down = ''DOWN''"
| "call_state_display CallState.Dialing = ''DIALING''"
| "call_state_display CallState.Ringing = ''RINGING''"
| "call_state_display CallState.Early = ''EARLY''"
| "call_state_display CallState.Active = ''ACTIVE''"
| "call_state_display CallState.Held = ''HELD''"
| "call_state_display CallState.RingWait = ''RING_WAIT''"
| "call_state_display CallState.Hangup = ''HANGUP''"
| "call_state_display CallState.Unheld = ''UNHELD''"

datatype ParseCallStateError = ParseCallStateError string

fun call_state_error_display :: "ParseCallStateError \<Rightarrow> string" where
  "call_state_error_display (ParseCallStateError s) = ''unknown call state: '' @ s"

definition call_state_names :: "(CallState \<times> string) list" where
  "call_state_names =
     [(CallState.Down, ''DOWN''),
      (CallState.Dialing, ''DIALING''),
      (CallState.Ringing, ''RINGING''),
      (CallState.Early, ''EARLY''),
      (CallState.Active, ''ACTIVE''),
      (CallState.Held, ''HELD''),
      (CallState.RingWait, ''RING_WAIT''),
      (CallState.Hangup, ''HANGUP''),
      (CallState.Unheld, ''UNHELD'')]"

definition call_state_from_str :: "string \<Rightarrow> (ParseCallStateError, CallState) result" where
  "call_state_from_str = parse_name call_state_names to_uppercase ParseCallStateError"

lemma call_state_names_ok:
  "distinct (map fst call_state_names) \<and> distinct (map snd call_state_names)
   \<and> list_all (\<lambda>n. list_all (\<lambda>c. is_ascii c \<and> ascii_upper c = c) n) (map snd call_state_names)"
  by code_simp

interpretation call_state_text: name_codec call_state_display "\<lambda>s. ok_opt (call_state_from_str s)" to_uppercase
proof (rule name_table_codec[where tbl = call_state_names])
  show "map_of call_state_names x = Some (call_state_display x)" for x
    by (cases x) (simp_all add: call_state_names_def)
qed (use call_state_names_ok to_uppercase_fixed in
    \<open>auto simp: call_state_from_str_def ok_parse_name list_all_iff\<close>)

section \<open>AnswerState\<close>

datatype AnswerState =
    Hangup
  | Answered
  | Early
  | Ringing

fun answer_state_display :: "AnswerState \<Rightarrow> string" where
  "answer_state_display AnswerState.Hangup = ''hangup''"
| "answer_state_display AnswerState.Answered = ''answered''"
| "answer_state_display AnswerState.Early = ''early''"
| "answer_state_display AnswerState.Ringing = ''ringing''"

datatype ParseAnswerStateError = ParseAnswerStateError string

fun answer_state_error_display :: "ParseAnswerStateError \<Rightarrow> string" where
  "answer_state_error_display (ParseAnswerStateError s) = ''unknown answer state: '' @ s"

definition answer_state_names :: "(AnswerState \<times> string) list" where
  "answer_state_names =
     [(AnswerState.Hangup, ''hangup''),
      (AnswerState.Answered, ''answered''),
      (AnswerState.Early, ''early''),
      (AnswerState.Ringing, ''ringing'')]"

definition answer_state_from_str :: "string \<Rightarrow> (ParseAnswerStateError, AnswerState) result" where
  "answer_state_from_str = parse_name answer_state_names to_lowercase ParseAnswerStateError"

lemma answer_state_names_ok:
  "distinct (map fst answer_state_names) \<and> distinct (map snd answer_state_names)
   \<and> list_all (\<lambda>n. list_all (\<lambda>c. is_ascii c \<and> ascii_lower c = c) n) (map snd answer_state_names)"
  by code_simp

interpretation answer_state_text: name_codec answer_state_display "\<lambda>s. ok_opt (answer_state_from_str s)" to_lowercase
proof (rule name_table_codec[where tbl = answer_state_names])
  show "map_of answer_state_names x = Some (answer_state_display x)" for x
    by (cases x) (simp_all add: answer_state_names_def)
qed (use answer_state_names_ok to_lowercase_fixed in
    \<open>auto simp: answer_state_from_str_def ok_parse_name list_all_iff\<close>)

section \<open>CallDirection\<close>

datatype CallDirection =
    Inbound
  | Outbound

fun call_direction_display :: "CallDirection \<Rightarrow> string" where
  "call_direction_display CallDirection.Inbound = ''inbound''"
| "call_direction_display CallDirection.Outbound = ''outbound''"

datatype ParseCallDirectionError = ParseCallDirectionError string

fun call_direction_error_display :: "ParseCallDirectionError \<Rightarrow> string" where
  "call_direction_error_display (ParseCallDirectionError s) = ''unknown call direction: '' @ s"

definition call_direction_names :: "(CallDirection \<times> string) list" where
  "call_direction_names =
     [(CallDirection.Inbound, ''inbound''),
      (CallDirection.Outbound, ''outbound'')]"

definition call_direction_from_str :: "string \<Rightarrow> (ParseCallDirectionError, CallDirection) result" where
  "call_direction_from_str = parse_name call_direction_names to_lowercase ParseCallDirectionError"

lemma call_direction_names_ok:
  "distinct (map fst call_direction_names) \<and> distinct (map snd call_direction_names)
   \<and> list_all (\<lambda>n. list_all (\<lambda>c. is_ascii c \<and> ascii_lower c = c) n) (map snd call_direction_names)"
  by code_simp

interpretation call_direction_text: name_codec call_direction_display "\<lambda>s. ok_opt (call_direction_from_str s)" to_lowercase
proof (rule name_table_codec[where tbl = call_direction_names])
  show "map_of call_direction_names x = Some (call_direction_display x)" for x
    by (cases x) (simp_all add: call_direction_names_def)
qed (use call_direction_names_ok to_lowercase_fixed in
    \<open>auto simp: call_direction_from_str_def ok_parse_name list_all_iff\<close>)

text \<open>A channel state name is accepted exactly when its upper-case form is the name printed
  for a state, and then it denotes that state; any other text is rejected with the text itself
  in the error.\<close>

theorem channel_state_parse_iff:
  "(channel_state_from_str s = Inr x \<longleftrightarrow> channel_state_display x = to_uppercase s)
   \<and> (channel_state_from_str s = Inl e \<longleftrightarrow>
       e = ParseChannelStateError s \<and> (\<forall>y. channel_state_display y \<noteq> to_uppercase s))"
proof -
  have "channel_state_from_str s = Inl d \<Longrightarrow> d = ParseChannelStateError s" for d
    unfolding channel_state_from_str_def by (rule parse_name_Inl)
  then show ?thesis
    using channel_state_text.parse_iff[of s] channel_state_text.unknown_iff[of s]
    by (cases "channel_state_from_str s") auto
qed

end
