(* ===== verification/Event_Type.thy ===== *)
theory Event_Type
  imports Esl_Channel
begin

text \<open>
  The event types of \<open>src/src/event.rs\<close>: the table the macro \<open>esl_event_types!\<close> is called
  with, and the enumeration, \<open>Display\<close> and \<open>parse_event_type\<close> it generates from the table.
  Constructors whose names are taken or too general in HOL carry the suffix \<open>Event\<close>
  (\<open>All\<close> is \<open>AllEvents\<close>, \<open>Nat\<close> is \<open>NatEvent\<close> and so on); the names on the wire are the
  code's.
\<close>

datatype (plugins only:) EslEventType =
    Custom
  | Clone
  | ChannelCreate
  | ChannelDestroy
  | ChannelState
  | ChannelCallstate
  | ChannelAnswer
  | ChannelHangup
  | ChannelHangupComplete
  | ChannelExecute
  | ChannelExecuteComplete
  | ChannelHold
  | ChannelUnhold
  | ChannelBridge
  | ChannelUnbridge
  | ChannelProgress
  | ChannelProgressMedia
  | ChannelOutgoing
  | ChannelPark
  | ChannelUnpark
  | ChannelApplication
  | ChannelOriginate
  | ChannelUuid
  | ApiEvent
  | LogEvent
  | InboundChan
  | OutboundChan
  | Startup
  | Shutdown
  | Publish
  | Unpublish
  | Talk
  | Notalk
  | SessionCrash
  | ModuleLoad
  | ModuleUnload
  | Dtmf
  | MessageEvent
  | PresenceIn
  | NotifyIn
  | PresenceOut
  | PresenceProbe
  | MessageWaiting
  | MessageQuery
  | Roster
  | CodecEvent
  | BackgroundJob
  | DetectedSpeech
  | DetectedTone
  | PrivateCommand
  | HeartbeatEvent
  | Trap
  | AddSchedule
  | DelSchedule
  | ExeSchedule
  | ReSchedule
  | ReloadXml
  | Notify
  | PhoneFeature
  | PhoneFeatureSubscribe
  | SendMessage
  | RecvMessage
  | RequestParams
  | ChannelData
  | General
  | CommandEvent
  | SessionHeartbeat
  | ClientDisconnected
  | ServerDisconnected
  | SendInfo
  | RecvInfo
  | RecvRtcpMessage
  | SendRtcpMessage
  | CallSecure
  | NatEvent
  | RecordStart
  | RecordStop
  | PlaybackStart
  | PlaybackStop
  | CallUpdate
  | Failure
  | SocketData
  | MediaBugStart
  | MediaBugStop
  | ConferenceDataQuery
  | ConferenceData
  | CallSetupReq
  | CallSetupResult
  | CallDetail
  | DeviceState
  | TextEvent
  | ShutdownRequested
  | AllEvents
  | StartRecording

definition event_type_names :: "(EslEventType \<times> string) list" where
  "event_type_names =
     [(Custom, ''CUSTOM''),
      (Clone, ''CLONE''),
      (ChannelCreate, ''CHANNEL_CREATE''),
      (ChannelDestroy, ''CHANNEL_DESTROY''),
      (ChannelState, ''CHANNEL_STATE''),
      (ChannelCallstate, ''CHANNEL_CALLSTATE''),
      (ChannelAnswer, ''CHANNEL_ANSWER''),
      (ChannelHangup, ''CHANNEL_HANGUP''),
      (ChannelHangupComplete, ''CHANNEL_HANGUP_COMPLETE''),
      (ChannelExecute, ''CHANNEL_EXECUTE''),
      (ChannelExecuteComplete, ''CHANNEL_EXECUTE_COMPLETE''),
      (ChannelHold, ''CHANNEL_HOLD''),
      (ChannelUnhold, ''CHANNEL_UNHOLD''),
      (ChannelBridge, ''CHANNEL_BRIDGE''),
      (ChannelUnbridge, ''CHANNEL_UNBRIDGE''),
      (ChannelProgress, ''CHANNEL_PROGRESS''),
      (ChannelProgressMedia, ''CHANNEL_PROGRESS_MEDIA''),
      (ChannelOutgoing, ''CHANNEL_OUTGOING''),
      (ChannelPark, ''CHANNEL_PARK''),
      (ChannelUnpark, ''CHANNEL_UNPARK''),
      (ChannelApplication, ''CHANNEL_APPLICATION''),
      (ChannelOriginate, ''CHANNEL_ORIGINATE''),
      (ChannelUuid, ''CHANNEL_UUID''),
      (ApiEvent, ''API''),
      (LogEvent, ''LOG''),
      (InboundChan, ''INBOUND_CHAN''),
      (OutboundChan, ''OUTBOUND_CHAN''),
      (Startup, ''STARTUP''),
      (Shutdown, ''SHUTDOWN''),
      (Publish, ''PUBLISH''),
      (Unpublish, ''UNPUBLISH''),
      (Talk, ''TALK''),
      (Notalk, ''NOTALK''),
      (SessionCrash, ''SESSION_CRASH''),
      (ModuleLoad, ''MODULE_LOAD''),
      (ModuleUnload, ''MODULE_UNLOAD''),
      (Dtmf, ''DTMF''),
      (MessageEvent, ''MESSAGE''),
      (PresenceIn, ''PRESENCE_IN''),
      (NotifyIn, ''NOTIFY_IN''),
      (PresenceOut, ''PRESENCE_OUT''),
      (PresenceProbe, ''PRESENCE_PROBE''),
      (MessageWaiting, ''MESSAGE_WAITING''),
      (MessageQuery, ''MESSAGE_QUERY''),
      (Roster, ''ROSTER''),
      (CodecEvent, ''CODEC''),
      (BackgroundJob, ''BACKGROUND_JOB''),
      (DetectedSpeech, ''DETECTED_SPEECH''),
      (DetectedTone, ''DETECTED_TONE''),
      (PrivateCommand, ''PRIVATE_COMMAND''),
      (HeartbeatEvent, ''HEARTBEAT''),
      (Trap, ''TRAP''),
      (AddSchedule, ''ADD_SCHEDULE''),
      (DelSchedule, ''DEL_SCHEDULE''),
      (ExeSchedule, ''EXE_SCHEDULE''),
      (ReSchedule, ''RE_SCHEDULE''),
      (ReloadXml, ''RELOADXML''),
      (Notify, ''NOTIFY''),
      (PhoneFeature, ''PHONE_FEATURE''),
      (PhoneFeatureSubscribe, ''PHONE_FEATURE_SUBSCRIBE''),
      (SendMessage, ''SEND_MESSAGE''),
      (RecvMessage, ''RECV_MESSAGE''),
      (RequestParams, ''REQUEST_PARAMS''),
      (ChannelData, ''CHANNEL_DATA''),
      (General, ''GENERAL''),
      (CommandEvent, ''COMMAND''),
      (SessionHeartbeat, ''SESSION_HEARTBEAT''),
      (ClientDisconnected, ''CLIENT_DISCONNECTED''),
      (ServerDisconnected, ''SERVER_DISCONNECTED''),
      (SendInfo, ''SEND_INFO''),
      (RecvInfo, ''RECV_INFO''),
      (RecvRtcpMessage, ''RECV_RTCP_MESSAGE''),
      (SendRtcpMessage, ''SEND_RTCP_MESSAGE''),
      (CallSecure, ''CALL_SECURE''),
      (NatEvent, ''NAT''),
      (RecordStart, ''RECORD_START''),
      (RecordStop, ''RECORD_STOP''),
      (PlaybackStart, ''PLAYBACK_START''),
      (PlaybackStop, ''PLAYBACK_STOP''),
      (CallUpdate, ''CALL_UPDATE''),
      (Failure, ''FAILURE''),
      (SocketData, ''SOCKET_DATA''),
      (MediaBugStart, ''MEDIA_BUG_START''),
      (MediaBugStop, ''MEDIA_BUG_STOP''),
      (ConferenceDataQuery, ''CONFERENCE_DATA_QUERY''),
      (ConferenceData, ''CONFERENCE_DATA''),
      (CallSetupReq, ''CALL_SETUP_REQ''),
      (CallSetupResult, ''CALL_SETUP_RESULT''),
      (CallDetail, ''CALL_DETAIL''),
      (DeviceState, ''DEVICE_STATE''),
      (TextEvent, ''TEXT''),
      (ShutdownRequested, ''SHUTDOWN_REQUESTED''),
      (AllEvents, ''ALL''),
      (StartRecording, ''START_RECORDING'')]"

text \<open>\<open>Display\<close>: the \<open>match\<close> the macro generates, one arm per row of the table.\<close>

primrec event_type_display :: "EslEventType \<Rightarrow> string" where
  "event_type_display Custom = ''CUSTOM''"
| "event_type_display Clone = ''CLONE''"
| "event_type_display ChannelCreate = ''CHANNEL_CREATE''"
| "event_type_display ChannelDestroy = ''CHANNEL_DESTROY''"
| "event_type_display ChannelState = ''CHANNEL_STATE''"
| "event_type_display ChannelCallstate = ''CHANNEL_CALLSTATE''"
| "event_type_display ChannelAnswer = ''CHANNEL_ANSWER''"
| "event_type_display ChannelHangup = ''CHANNEL_HANGUP''"
| "event_type_display ChannelHangupComplete = ''CHANNEL_HANGUP_COMPLETE''"
| "event_type_display ChannelExecute = ''CHANNEL_EXECUTE''"
| "event_type_display ChannelExecuteComplete = ''CHANNEL_EXECUTE_COMPLETE''"
| "event_type_display ChannelHold = ''CHANNEL_HOLD''"
| "event_type_display ChannelUnhold = ''CHANNEL_UNHOLD''"
| "event_type_display ChannelBridge = ''CHANNEL_BRIDGE''"
| "event_type_display ChannelUnbridge = ''CHANNEL_UNBRIDGE''"
| "event_type_display ChannelProgress = ''CHANNEL_PROGRESS''"
| "event_type_display ChannelProgressMedia = ''CHANNEL_PROGRESS_MEDIA''"
| "event_type_display ChannelOutgoing = ''CHANNEL_OUTGOING''"
| "event_type_display ChannelPark = ''CHANNEL_PARK''"
| "event_type_display ChannelUnpark = ''CHANNEL_UNPARK''"
| "event_type_display ChannelApplication = ''CHANNEL_APPLICATION''"
| "event_type_display ChannelOriginate = ''CHANNEL_ORIGINATE''"
| "event_type_display ChannelUuid = ''CHANNEL_UUID''"
| "event_type_display ApiEvent = ''API''"
| "event_type_display LogEvent = ''LOG''"
| "event_type_display InboundChan = ''INBOUND_CHAN''"
| "event_type_display OutboundChan = ''OUTBOUND_CHAN''"
| "event_type_display Startup = ''STARTUP''"
| "event_type_display Shutdown = ''SHUTDOWN''"
| "event_type_display Publish = ''PUBLISH''"
| "event_type_display Unpublish = ''UNPUBLISH''"
| "event_type_display Talk = ''TALK''"
| "event_type_display Notalk = ''NOTALK''"
| "event_type_display SessionCrash = ''SESSION_CRASH''"
| "event_type_display ModuleLoad = ''MODULE_LOAD''"
| "event_type_display ModuleUnload = ''MODULE_UNLOAD''"
| "event_type_display Dtmf = ''DTMF''"
| "event_type_display MessageEvent = ''MESSAGE''"
| "event_type_display PresenceIn = ''PRESENCE_IN''"
| "event_type_display NotifyIn = ''NOTIFY_IN''"
| "event_type_display PresenceOut = ''PRESENCE_OUT''"
| "event_type_display PresenceProbe = ''PRESENCE_PROBE''"
| "event_type_display MessageWaiting = ''MESSAGE_WAITING''"
| "event_type_display MessageQuery = ''MESSAGE_QUERY''"
| "event_type_display Roster = ''ROSTER''"
| "event_type_display CodecEvent = ''CODEC''"
| "event_type_display BackgroundJob = ''BACKGROUND_JOB''"
| "event_type_display DetectedSpeech = ''DETECTED_SPEECH''"
| "event_type_display DetectedTone = ''DETECTED_TONE''"
| "event_type_display PrivateCommand = ''PRIVATE_COMMAND''"
| "event_type_display HeartbeatEvent = ''HEARTBEAT''"
| "event_type_display Trap = ''TRAP''"
| "event_type_display AddSchedule = ''ADD_SCHEDULE''"
| "event_type_display DelSchedule = ''DEL_SCHEDULE''"
| "event_type_display ExeSchedule = ''EXE_SCHEDULE''"
| "event_type_display ReSchedule = ''RE_SCHEDULE''"
| "event_type_display ReloadXml = ''RELOADXML''"
| "event_type_display Notify = ''NOTIFY''"
| "event_type_display PhoneFeature = ''PHONE_FEATURE''"
| "event_type_display PhoneFeatureSubscribe = ''PHONE_FEATURE_SUBSCRIBE''"
| "event_type_display SendMessage = ''SEND_MESSAGE''"
| "event_type_display RecvMessage = ''RECV_MESSAGE''"
| "event_type_display RequestParams = ''REQUEST_PARAMS''"
| "event_type_display ChannelData = ''CHANNEL_DATA''"
| "event_type_display General = ''GENERAL''"
| "event_type_display CommandEvent = ''COMMAND''"
| "event_type_display SessionHeartbeat = ''SESSION_HEARTBEAT''"
| "event_type_display ClientDisconnected = ''CLIENT_DISCONNECTED''"
| "event_type_display ServerDisconnected = ''SERVER_DISCONNECTED''"
| "event_type_display SendInfo = ''SEND_INFO''"
| "event_type_display RecvInfo = ''RECV_INFO''"
| "event_type_display RecvRtcpMessage = ''RECV_RTCP_MESSAGE''"
| "event_type_display SendRtcpMessage = ''SEND_RTCP_MESSAGE''"
| "event_type_display CallSecure = ''CALL_SECURE''"
| "event_type_display NatEvent = ''NAT''"
| "event_type_display RecordStart = ''RECORD_START''"
| "event_type_display RecordStop = ''RECORD_STOP''"
| "event_type_display PlaybackStart = ''PLAYBACK_START''"
| "event_type_display PlaybackStop = ''PLAYBACK_STOP''"
| "event_type_display CallUpdate = ''CALL_UPDATE''"
| "event_type_display Failure = ''FAILURE''"
| "event_type_display SocketData = ''SOCKET_DATA''"
| "event_type_display MediaBugStart = ''MEDIA_BUG_START''"
| "event_type_display MediaBugStop = ''MEDIA_BUG_STOP''"
| "event_type_display ConferenceDataQuery = ''CONFERENCE_DATA_QUERY''"
| "event_type_display ConferenceData = ''CONFERENCE_DATA''"
| "event_type_display CallSetupReq = ''CALL_SETUP_REQ''"
| "event_type_display CallSetupResult = ''CALL_SETUP_RESULT''"
| "event_type_display CallDetail = ''CALL_DETAIL''"
| "event_type_display DeviceState = ''DEVICE_STATE''"
| "event_type_display TextEvent = ''TEXT''"
| "event_type_display ShutdownRequested = ''SHUTDOWN_REQUESTED''"
| "event_type_display AllEvents = ''ALL''"
| "event_type_display StartRecording = ''START_RECORDING''"

text \<open>Equality has no code equations of its own, and \<open>event_type_display\<close> is evaluated by its
  simplification rules.\<close>

declare event_type_display.simps [code del]

instantiation EslEventType :: equal
begin

definition equal_EslEventType :: "EslEventType \<Rightarrow> EslEventType \<Rightarrow> bool" where
  [code del]: "equal_EslEventType t u = (t = u)"

instance
  by standard (simp add: equal_EslEventType_def)

end

definition parse_event_type :: "string \<Rightarrow> EslEventType option" where
  "parse_event_type s = map_of (map (\<lambda>(t, n). (n, t)) event_type_names) (to_uppercase s)"

datatype ParseEventTypeError = ParseEventTypeError string

fun event_type_error_display :: "ParseEventTypeError \<Rightarrow> string" where
  "event_type_error_display (ParseEventTypeError s) = ''unknown event type: '' @ s"

definition event_type_from_str :: "string \<Rightarrow> (ParseEventTypeError, EslEventType) result" where
  "event_type_from_str s =
     (case parse_event_type s of Some t \<Rightarrow> Inr t | None \<Rightarrow> Inl (ParseEventTypeError s))"

lemma event_type_names_keys: "distinct (map fst event_type_names)"
  by (simp add: event_type_names_def)

lemma event_type_names_wire: "map snd event_type_names =
     [''CUSTOM'',
      ''CLONE'',
      ''CHANNEL_CREATE'',
      ''CHANNEL_DESTROY'',
      ''CHANNEL_STATE'',
      ''CHANNEL_CALLSTATE'',
      ''CHANNEL_ANSWER'',
      ''CHANNEL_HANGUP'',
      ''CHANNEL_HANGUP_COMPLETE'',
      ''CHANNEL_EXECUTE'',
      ''CHANNEL_EXECUTE_COMPLETE'',
      ''CHANNEL_HOLD'',
      ''CHANNEL_UNHOLD'',
      ''CHANNEL_BRIDGE'',
      ''CHANNEL_UNBRIDGE'',
      ''CHANNEL_PROGRESS'',
      ''CHANNEL_PROGRESS_MEDIA'',
      ''CHANNEL_OUTGOING'',
      ''CHANNEL_PARK'',
      ''CHANNEL_UNPARK'',
      ''CHANNEL_APPLICATION'',
      ''CHANNEL_ORIGINATE'',
      ''CHANNEL_UUID'',
      ''API'',
      ''LOG'',
      ''INBOUND_CHAN'',
      ''OUTBOUND_CHAN'',
      ''STARTUP'',
      ''SHUTDOWN'',
      ''PUBLISH'',
      ''UNPUBLISH'',
      ''TALK'',
      ''NOTALK'',
      ''SESSION_CRASH'',
      ''MODULE_LOAD'',
      ''MODULE_UNLOAD'',
      ''DTMF'',
      ''MESSAGE'',
      ''PRESENCE_IN'',
      ''NOTIFY_IN'',
      ''PRESENCE_OUT'',
      ''PRESENCE_PROBE'',
      ''MESSAGE_WAITING'',
      ''MESSAGE_QUERY'',
      ''ROSTER'',
      ''CODEC'',
      ''BACKGROUND_JOB'',
      ''DETECTED_SPEECH'',
      ''DETECTED_TONE'',
      ''PRIVATE_COMMAND'',
      ''HEARTBEAT'',
      ''TRAP'',
      ''ADD_SCHEDULE'',
      ''DEL_SCHEDULE'',
      ''EXE_SCHEDULE'',
      ''RE_SCHEDULE'',
      ''RELOADXML'',
      ''NOTIFY'',
      ''PHONE_FEATURE'',
      ''PHONE_FEATURE_SUBSCRIBE'',
      ''SEND_MESSAGE'',
      ''RECV_MESSAGE'',
      ''REQUEST_PARAMS'',
      ''CHANNEL_DATA'',
      ''GENERAL'',
      ''COMMAND'',
      ''SESSION_HEARTBEAT'',
      ''CLIENT_DISCONNECTED'',
      ''SERVER_DISCONNECTED'',
      ''SEND_INFO'',
      ''RECV_INFO'',
      ''RECV_RTCP_MESSAGE'',
      ''SEND_RTCP_MESSAGE'',
      ''CALL_SECURE'',
      ''NAT'',
      ''RECORD_START'',
      ''RECORD_STOP'',
      ''PLAYBACK_START'',
      ''PLAYBACK_STOP'',
      ''CALL_UPDATE'',
      ''FAILURE'',
      ''SOCKET_DATA'',
      ''MEDIA_BUG_START'',
      ''MEDIA_BUG_STOP'',
      ''CONFERENCE_DATA_QUERY'',
      ''CONFERENCE_DATA'',
      ''CALL_SETUP_REQ'',
      ''CALL_SETUP_RESULT'',
      ''CALL_DETAIL'',
      ''DEVICE_STATE'',
      ''TEXT'',
      ''SHUTDOWN_REQUESTED'',
      ''ALL'',
      ''START_RECORDING'']"
  by (simp add: event_type_names_def)

lemma event_type_names_distinct: "distinct (map snd event_type_names)"
  unfolding event_type_names_wire by code_simp

lemma event_type_names_upper:
  "list_all (\<lambda>n. list_all (\<lambda>c. is_ascii c \<and> ascii_upper c = c) n) (map snd event_type_names)"
  unfolding event_type_names_wire by code_simp

lemma event_type_names_display: "\<forall>(t, n) \<in> set event_type_names. event_type_display t = n"
  by (simp add: event_type_names_def)

lemma event_type_names_total: "t \<in> fst ` set event_type_names"
  by (simp only: event_type_names_def list.set image_insert image_empty fst_conv insert_iff
      empty_iff simp_thms(31)) (rule EslEventType.nchotomy[rule_format])

interpretation event_type_text: name_codec event_type_display parse_event_type to_uppercase
proof (rule name_table_codec[where tbl = event_type_names])
  show "map_of event_type_names x = Some (event_type_display x)" for x
    using event_type_names_total[of x] event_type_names_display event_type_names_keys
    by (auto intro: map_of_is_SomeI)
qed (use event_type_names_keys event_type_names_distinct event_type_names_upper to_uppercase_fixed in
    \<open>auto simp: parse_event_type_def list_all_iff\<close>)

text \<open>The event type table has no ambiguous entry: a text parses to an event type exactly when its
  upper-case form is the name printed for that type, two event types never print alike, and
  every printed name parses back.\<close>

theorem event_type_names_exact:
  "(parse_event_type s = Some t \<longleftrightarrow> event_type_display t = to_uppercase s)
   \<and> (event_type_display t = event_type_display u \<longleftrightarrow> t = u)
   \<and> event_type_from_str (event_type_display t) = Inr t"
proof -
  have "parse_event_type (event_type_display t) = Some t" by (rule event_type_text.name_roundtrip)
  then have "event_type_from_str (event_type_display t) = Inr t"
    by (simp add: event_type_from_str_def)
  then show ?thesis using event_type_text.parse_iff event_type_text.pr_inj by blast
qed

end
