(* ===== verification/Esl_Array.thy ===== *)
theory Esl_Array
  imports Codec
begin

text \<open>
  \<open>src/src/variables/\<close>: the \<open>ARRAY::a|:b|:c\<close> format of multi-value channel variables
  (\<open>esl_array.rs\<close>) and the SIP multipart bodies stored in it (\<open>sip_multipart.rs\<close>). The lemmas
  give the exact round trip of the format and what a lookup by MIME type returns.
\<close>

definition ARRAY_HEADER :: string where "ARRAY_HEADER = ''ARRAY::''"
definition ARRAY_SEPARATOR :: string where "ARRAY_SEPARATOR = ''|:''"

section \<open>EslArray\<close>

datatype EslArray = EslArray "string list"

definition array_parse :: "string \<Rightarrow> EslArray option" where
  "array_parse s =
     (case strip_prefix ARRAY_HEADER s of
        None \<Rightarrow> None
      | Some body \<Rightarrow> Some (EslArray (split_str ARRAY_SEPARATOR body)))"

definition array_new :: "string list \<Rightarrow> EslArray" where
  "array_new items = EslArray items"

fun array_push :: "EslArray \<Rightarrow> string \<Rightarrow> EslArray" where
  "array_push (EslArray xs) v = EslArray (xs @ [v])"

fun array_unshift :: "EslArray \<Rightarrow> string \<Rightarrow> EslArray" where
  "array_unshift (EslArray xs) v = EslArray (v # xs)"

fun array_items :: "EslArray \<Rightarrow> string list" where
  "array_items (EslArray xs) = xs"

fun array_len :: "EslArray \<Rightarrow> nat" where
  "array_len (EslArray xs) = length xs"

fun array_is_empty :: "EslArray \<Rightarrow> bool" where
  "array_is_empty (EslArray xs) = (xs = [])"

fun array_display :: "EslArray \<Rightarrow> string" where
  "array_display (EslArray xs) = ARRAY_HEADER @ write_separated ARRAY_SEPARATOR xs"

text \<open>An item must not hold the separator, and an array of no items prints like one of one empty item.\<close>

fun array_wf :: "EslArray \<Rightarrow> bool" where
  "array_wf (EslArray xs) = (xs \<noteq> [] \<and> (\<forall>x \<in> set xs. no_sub ARRAY_SEPARATOR x))"

lemma separator_chars: "CHR ''|'' \<noteq> CHR '':''"
  by simp

lemma array_parse_display_wf: "array_wf a \<Longrightarrow> array_parse (array_display a) = Some a"
  by (cases a)
     (simp add: array_parse_def write_separated_join ARRAY_SEPARATOR_def
        split_str_join_pair[OF separator_chars])

lemma array_parse_wf: "array_parse s = Some a \<Longrightarrow> array_wf a"
  using split_str_set_no_sub_pair[OF separator_chars]
  by (auto simp: array_parse_def ARRAY_SEPARATOR_def split: option.splits)

lemma array_display_parse: "array_parse s = Some a \<Longrightarrow> array_display a = s"
  by (auto simp: array_parse_def write_separated_join join_split_str strip_prefix_Some
      split: option.splits)

interpretation array_text: text_codec array_display array_parse array_wf
  by unfold_locales (rule array_parse_display_wf)

lemma array_display_not_empty: "array_display a \<noteq> []"
  by (cases a) (simp add: ARRAY_HEADER_def)

text \<open>The \<open>ARRAY::\<close> format round-trips exactly: an array prints to a text that parses back
  to it if and only if it has an item and no item holds the separator; every text that parses is
  printed back unchanged, and what it parses to is such an array.\<close>

theorem array_roundtrip:
  "(array_parse (array_display a) = Some a \<longleftrightarrow> array_wf a)
   \<and> (array_parse s = Some b \<longleftrightarrow> array_wf b \<and> s = array_display b)"
  using array_parse_display_wf array_parse_wf array_display_parse by blast

section \<open>MultipartBody\<close>

record MultipartItem =
  mime_type :: string
  part_data :: string

datatype MultipartBody = MultipartBody "MultipartItem list"

definition multipart_entry :: "string \<Rightarrow> MultipartItem option" where
  "multipart_entry entry =
     (case split_once COLON entry of
        None \<Rightarrow> None
      | Some (m, d) \<Rightarrow> Some \<lparr>mime_type = m, part_data = d\<rparr>)"

definition multipart_parse :: "string \<Rightarrow> MultipartBody option" where
  "multipart_parse s =
     (case array_parse s of
        None \<Rightarrow> None
      | Some a \<Rightarrow> Some (MultipartBody (List.map_filter multipart_entry (array_items a))))"

fun multipart_items :: "MultipartBody \<Rightarrow> MultipartItem list" where
  "multipart_items (MultipartBody xs) = xs"

fun by_mime_type :: "MultipartBody \<Rightarrow> string \<Rightarrow> string list" where
  "by_mime_type (MultipartBody xs) mime = map part_data (filter (\<lambda>i. mime_type i = mime) xs)"

definition multipart_text :: "(string \<times> string) list \<Rightarrow> string" where
  "multipart_text parts = array_display (EslArray (map (\<lambda>(m, d). m @ COLON # d) parts))"

lemma map_filter_multipart_entry:
  "\<forall>(m, d) \<in> set parts. COLON \<notin> set m \<Longrightarrow>
   List.map_filter multipart_entry (map (\<lambda>(m, d). m @ COLON # d) parts)
     = map (\<lambda>(m, d). \<lparr>mime_type = m, part_data = d\<rparr>) parts"
  by (induction parts) (auto simp: multipart_entry_def split_once_append)

text \<open>A multipart variable yields exactly its parts: for any parts whose MIME types hold no
  colon and whose entries hold no array separator, parsing the variable and asking for a MIME type
  returns the bodies of that type, in order (bodies may hold colons).\<close>

theorem multipart_lookup:
  assumes "parts \<noteq> []"
    and "\<forall>(m, d) \<in> set parts. COLON \<notin> set m \<and> no_sub ARRAY_SEPARATOR (m @ COLON # d)"
  shows "\<exists>b. multipart_parse (multipart_text parts) = Some b
           \<and> by_mime_type b mime = map snd (filter (\<lambda>(m, d). m = mime) parts)"
proof -
  let ?a = "EslArray (map (\<lambda>(m, d). m @ COLON # d) parts)"
  from assms have "array_wf ?a" by auto
  then have "array_parse (multipart_text parts) = Some ?a"
    unfolding multipart_text_def by (rule array_parse_display_wf)
  moreover have "List.map_filter multipart_entry (array_items ?a)
      = map (\<lambda>(m, d). \<lparr>mime_type = m, part_data = d\<rparr>) parts"
    using assms(2) map_filter_multipart_entry[of parts] by auto
  ultimately show ?thesis
    by (simp add: multipart_parse_def filter_map comp_def case_prod_beta')
qed

theorem multipart_lookup_witness:
  "\<exists>b. multipart_parse (multipart_text [(''text/plain'', ''a:b''), (''x/y'', ''c'')]) = Some b
     \<and> by_mime_type b ''text/plain'' = [''a:b'']"
  using multipart_lookup[of "[(''text/plain'', ''a:b''), (''x/y'', ''c'')]" "''text/plain''"]
  by (simp add: no_sub_def starts_with_def ARRAY_SEPARATOR_def)

end
