(* ===== verification/Esl_Event.thy ===== *)
theory Esl_Event
  imports Event_Type Esl_Array Esl_Constants
begin

text \<open>
  \<open>src/src/event.rs\<close> and the timetable of \<open>src/src/channel.rs\<close>: the event record with all its
  accessors, the multi-value headers (\<open>push_header\<close>, \<open>unshift_header\<close>), the typed readings of
  headers and the serialisation \<open>to_plain_format\<close>, whose inverse is in \<open>Esl_Protocol\<close>. The
  header map is a \<open>HashMap\<close>; \<open>to_plain_format\<close> sorts it, so its order does not matter.
\<close>

section \<open>EventFormat and EslEventPriority\<close>

datatype EventFormat = Plain | Json | Xml

definition from_content_type :: "string \<Rightarrow> EventFormat" where
  "from_content_type ct =
     (if ct = ''text/event-json'' then Json else if ct = ''text/event-xml'' then Xml else Plain)"

fun event_format_display :: "EventFormat \<Rightarrow> string" where
  "event_format_display Plain = ''plain''"
| "event_format_display Json = ''json''"
| "event_format_display Xml = ''xml''"

datatype ParseEventFormatError = ParseEventFormatError string

fun event_format_error_display :: "ParseEventFormatError \<Rightarrow> string" where
  "event_format_error_display (ParseEventFormatError s) = ''unknown event format: '' @ s"

definition event_format_names :: "(EventFormat \<times> string) list" where
  "event_format_names = [(Plain, ''plain''), (Json, ''json''), (Xml, ''xml'')]"

definition event_format_from_str :: "string \<Rightarrow> (ParseEventFormatError, EventFormat) result" where
  "event_format_from_str = parse_name event_format_names id ParseEventFormatError"

interpretation event_format_text: name_codec event_format_display
  "\<lambda>s. ok_opt (event_format_from_str s)" id
proof (rule name_table_codec[where tbl = event_format_names])
  show "map_of event_format_names x = Some (event_format_display x)" for x
    by (cases x) (simp_all add: event_format_names_def)
qed (auto simp: event_format_from_str_def ok_parse_name event_format_names_def)

datatype EslEventPriority = Normal | Low | High

fun priority_display :: "EslEventPriority \<Rightarrow> string" where
  "priority_display Normal = ''NORMAL''"
| "priority_display Low = ''LOW''"
| "priority_display High = ''HIGH''"

datatype ParsePriorityError = ParsePriorityError string

fun priority_error_display :: "ParsePriorityError \<Rightarrow> string" where
  "priority_error_display (ParsePriorityError s) = ''unknown priority: '' @ s"

definition priority_names :: "(EslEventPriority \<times> string) list" where
  "priority_names = [(Normal, ''NORMAL''), (Low, ''LOW''), (High, ''HIGH'')]"

definition priority_from_str :: "string \<Rightarrow> (ParsePriorityError, EslEventPriority) result" where
  "priority_from_str = parse_name priority_names to_uppercase ParsePriorityError"

lemma priority_names_ok:
  "distinct (map fst priority_names) \<and> distinct (map snd priority_names)
   \<and> list_all (\<lambda>n. list_all (\<lambda>c. is_ascii c \<and> ascii_upper c = c) n) (map snd priority_names)"
  by code_simp

interpretation priority_text: name_codec priority_display "\<lambda>s. ok_opt (priority_from_str s)"
  to_uppercase
proof (rule name_table_codec[where tbl = priority_names])
  show "map_of priority_names x = Some (priority_display x)" for x
    by (cases x) (simp_all add: priority_names_def)
qed (use priority_names_ok to_uppercase_fixed in
    \<open>auto simp: priority_from_str_def ok_parse_name list_all_iff\<close>)

section \<open>EslEvent\<close>

record EslEvent =
  event_type :: "EslEventType option"
  ev_headers :: headers
  ev_body :: "string option"

definition event_new :: EslEvent where
  "event_new = \<lparr>event_type = None, ev_headers = fmempty, ev_body = None\<rparr>"

definition with_type :: "EslEventType \<Rightarrow> EslEvent" where
  "with_type t = \<lparr>event_type = Some t, ev_headers = fmempty, ev_body = None\<rparr>"

definition set_event_type :: "EslEvent \<Rightarrow> EslEventType option \<Rightarrow> EslEvent" where
  "set_event_type ev t = ev\<lparr>event_type := t\<rparr>"

definition header :: "EslEvent \<Rightarrow> string \<Rightarrow> string option" where
  "header ev name = fmlookup (ev_headers ev) name"

definition set_header :: "EslEvent \<Rightarrow> string \<Rightarrow> string \<Rightarrow> EslEvent" where
  "set_header ev name v = ev\<lparr>ev_headers := fmupd name v (ev_headers ev)\<rparr>"

definition del_header :: "EslEvent \<Rightarrow> string \<Rightarrow> string option \<times> EslEvent" where
  "del_header ev name =
     (fmlookup (ev_headers ev) name, ev\<lparr>ev_headers := fmdrop name (ev_headers ev)\<rparr>)"

definition set_body :: "EslEvent \<Rightarrow> string \<Rightarrow> EslEvent" where
  "set_body ev b = ev\<lparr>ev_body := Some b\<rparr>"

definition set_priority :: "EslEvent \<Rightarrow> EslEventPriority \<Rightarrow> EslEvent" where
  "set_priority ev p = set_header ev ''priority'' (priority_display p)"

text \<open>\<open>self.header(name)?.parse().ok()\<close>.\<close>

definition parsed_header :: "(string \<Rightarrow> ('e, 'a) result) \<Rightarrow> EslEvent \<Rightarrow> string \<Rightarrow> 'a option" where
  "parsed_header parse ev name =
     (case header ev name of None \<Rightarrow> None | Some s \<Rightarrow> ok_opt (parse s))"

definition priority :: "EslEvent \<Rightarrow> EslEventPriority option" where
  "priority ev = parsed_header priority_from_str ev ''priority''"

definition stack_header ::
    "EslEvent \<Rightarrow> string \<Rightarrow> string \<Rightarrow> (EslArray \<Rightarrow> string \<Rightarrow> EslArray) \<Rightarrow> EslEvent" where
  "stack_header ev name v op =
     (case fmlookup (ev_headers ev) name of
        None \<Rightarrow> set_header ev name v
      | Some existing \<Rightarrow>
          (let arr = (case array_parse existing of
                        Some arr \<Rightarrow> arr
                      | None \<Rightarrow> array_new [existing])
           in set_header ev name (array_display (op arr v))))"

definition push_header :: "EslEvent \<Rightarrow> string \<Rightarrow> string \<Rightarrow> EslEvent" where
  "push_header ev name v = stack_header ev name v array_push"

definition unshift_header :: "EslEvent \<Rightarrow> string \<Rightarrow> string \<Rightarrow> EslEvent" where
  "unshift_header ev name v = stack_header ev name v array_unshift"

definition unique_id :: "EslEvent \<Rightarrow> string option" where
  "unique_id ev =
     (case header ev HEADER_UNIQUE_ID of Some u \<Rightarrow> Some u | None \<Rightarrow> header ev HEADER_CALLER_UUID)"

definition job_uuid :: "EslEvent \<Rightarrow> string option" where
  "job_uuid ev = header ev ''Job-UUID''"

definition channel_name :: "EslEvent \<Rightarrow> string option" where
  "channel_name ev = header ev ''Channel-Name''"

definition caller_id_number :: "EslEvent \<Rightarrow> string option" where
  "caller_id_number ev = header ev ''Caller-Caller-ID-Number''"

definition caller_id_name :: "EslEvent \<Rightarrow> string option" where
  "caller_id_name ev = header ev ''Caller-Caller-ID-Name''"

definition hangup_cause :: "EslEvent \<Rightarrow> string option" where
  "hangup_cause ev = header ev ''Hangup-Cause''"

definition channel_state :: "EslEvent \<Rightarrow> ChannelState option" where
  "channel_state ev = parsed_header channel_state_from_str ev HEADER_CHANNEL_STATE"

definition channel_state_number :: "EslEvent \<Rightarrow> ChannelState option" where
  "channel_state_number ev =
     Option.bind (parsed_header parse_u8 ev HEADER_CHANNEL_STATE_NUMBER) from_number"

definition call_state :: "EslEvent \<Rightarrow> CallState option" where
  "call_state ev = parsed_header call_state_from_str ev HEADER_CHANNEL_CALL_STATE"

definition answer_state :: "EslEvent \<Rightarrow> AnswerState option" where
  "answer_state ev = parsed_header answer_state_from_str ev HEADER_ANSWER_STATE"

definition call_direction :: "EslEvent \<Rightarrow> CallDirection option" where
  "call_direction ev = parsed_header call_direction_from_str ev HEADER_CALL_DIRECTION"

definition event_subclass :: "EslEvent \<Rightarrow> string option" where
  "event_subclass ev = header ev ''Event-Subclass''"

definition variable :: "EslEvent \<Rightarrow> string \<Rightarrow> string option" where
  "variable ev name = header ev (''variable_'' @ name)"

definition is_event_type :: "EslEvent \<Rightarrow> EslEventType \<Rightarrow> bool" where
  "is_event_type ev t = (event_type ev = Some t)"

lemma header_set_header [simp]: "header (set_header ev n v) m = (if m = n then Some v else header ev m)"
  by (simp add: header_def set_header_def)

lemma set_header_frame [simp]:
  "event_type (set_header ev n v) = event_type ev" "ev_body (set_header ev n v) = ev_body ev"
  by (simp_all add: set_header_def)

text \<open>The two multi-value operations differ only in where they put the new item.\<close>

locale stack_op =
  fixes op :: "EslArray \<Rightarrow> string \<Rightarrow> EslArray"
    and place :: "string \<Rightarrow> string list \<Rightarrow> string list"
  assumes op_items: "op (EslArray xs) v = EslArray (place v xs)"
    and place_set: "set (place v xs) = insert v (set xs)"
begin

abbreviation stack :: "string \<Rightarrow> string \<Rightarrow> EslEvent \<Rightarrow> EslEvent" where
  "stack n v ev \<equiv> stack_header ev n v op"

lemma stack_absent: "header ev n = None \<Longrightarrow> stack n v ev = set_header ev n v"
  by (simp add: stack_header_def header_def)

lemma stack_plain:
  "header ev n = Some x \<Longrightarrow> array_parse x = None \<Longrightarrow>
   stack n v ev = set_header ev n (array_display (EslArray (place v [x])))"
  by (simp add: stack_header_def header_def array_new_def op_items)

lemma stack_array:
  "header ev n = Some (array_display (EslArray xs)) \<Longrightarrow> array_wf (EslArray xs) \<Longrightarrow>
   stack n v ev = set_header ev n (array_display (EslArray (place v xs)))"
  by (simp add: stack_header_def header_def array_parse_display_wf op_items
      del: array_wf.simps array_display.simps)

lemma fold_stack_array:
  assumes "header ev n = Some (array_display (EslArray xs))" "array_wf (EslArray xs)"
    "\<forall>v \<in> set vs. no_sub ARRAY_SEPARATOR v"
  shows "header (fold (stack n) vs ev) n = Some (array_display (EslArray (fold place vs xs)))"
  using assms
proof (induction vs arbitrary: ev xs)
  case (Cons v vs)
  have "place v xs \<noteq> []" using place_set[of v xs] by auto
  with Cons.prems have "array_wf (EslArray (place v xs))" by (auto simp: place_set)
  with Cons.prems show ?case
    by (simp add: stack_array[OF Cons.prems(1,2)] Cons.IH
        del: array_wf.simps array_display.simps)
qed simp

lemma fold_stack:
  assumes "header ev n = None" "array_parse v = None" "\<forall>x \<in> set (v # w # vs). no_sub ARRAY_SEPARATOR x"
  shows "header (fold (stack n) (v # w # vs) ev) n
           = Some (array_display (EslArray (fold place (w # vs) [v])))"
proof -
  have "place w [v] \<noteq> []" using place_set[of w "[v]"] by auto
  with assms(3) have "array_wf (EslArray (place w [v]))" by (auto simp: place_set)
  with assms show ?thesis
    by (simp add: stack_absent stack_plain fold_stack_array
        del: array_wf.simps array_display.simps)
qed

lemma fold_stack_frame:
  "m \<noteq> n \<Longrightarrow> header (fold (stack n) vs ev) m = header ev m"
  by (induction vs arbitrary: ev) (simp_all add: stack_header_def Let_def split: option.splits)

end

interpretation push_op: stack_op array_push "\<lambda>v xs. xs @ [v]"
  by unfold_locales auto

interpretation unshift_op: stack_op array_unshift "\<lambda>v xs. v # xs"
  by unfold_locales auto

lemma fold_snoc: "fold (\<lambda>v xs. xs @ [v]) vs xs = xs @ vs"
  by (induction vs arbitrary: xs) simp_all

lemma fold_cons: "fold (\<lambda>v xs. v # xs) vs xs = rev vs @ xs"
  by (induction vs arbitrary: xs) simp_all

text \<open>Values pushed one after the other onto an absent header come back as the array of exactly
  these values in order, and values unshifted in the reverse order; no other header changes.
  (The first value must not itself be an array, and none may hold the separator.)\<close>

theorem stacked_values:
  assumes "header ev n = None" "array_parse v = None" "\<forall>x \<in> set (v # w # vs). no_sub ARRAY_SEPARATOR x"
  shows "map_option array_parse (header (fold (\<lambda>x e. push_header e n x) (v # w # vs) ev) n)
           = Some (Some (EslArray (v # w # vs)))
       \<and> map_option array_parse (header (fold (\<lambda>x e. unshift_header e n x) (v # w # vs) ev) n)
           = Some (Some (EslArray (rev (v # w # vs))))
       \<and> (m \<noteq> n \<longrightarrow> header (fold (\<lambda>x e. push_header e n x) (v # w # vs) ev) m = header ev m)"
proof -
  have wf: "array_wf (EslArray (v # w # vs))" "array_wf (EslArray (rev vs @ [w, v]))"
    using assms(3) by auto
  show ?thesis
    unfolding push_header_def unshift_header_def
    using push_op.fold_stack[OF assms] unshift_op.fold_stack[OF assms]
      push_op.fold_stack_frame[of m n "v # w # vs" ev]
    by (simp add: fold_snoc fold_cons array_parse_display_wf[OF wf(1)]
        array_parse_display_wf[OF wf(2)] del: fold_simps array_wf.simps array_display.simps)
qed

theorem stacked_values_witness:
  "map_option array_parse (header (fold (\<lambda>x e. push_header e ''X'' x) [''a'', ''b'', ''c''] event_new) ''X'')
     = Some (Some (EslArray [''a'', ''b'', ''c'']))"
  using stacked_values[of event_new "''X''" "''a''" "''b''" "[''c'']"]
  by (simp add: event_new_def header_def array_parse_def ARRAY_HEADER_def ARRAY_SEPARATOR_def
      no_sub_def starts_with_def del: fold_simps)

section \<open>The timetable\<close>

record ChannelTimetable =
  profile_created :: "i64 option"
  created :: "i64 option"
  answered :: "i64 option"
  progress :: "i64 option"
  progress_media :: "i64 option"
  hungup :: "i64 option"
  transferred :: "i64 option"
  resurrected :: "i64 option"
  bridged :: "i64 option"
  last_hold :: "i64 option"
  hold_accum :: "i64 option"

definition timetable_default :: ChannelTimetable where
  "timetable_default =
     \<lparr>profile_created = None, created = None, answered = None, progress = None,
      progress_media = None, hungup = None, transferred = None, resurrected = None,
      bridged = None, last_hold = None, hold_accum = None\<rparr>"

text \<open>The macro \<open>field!\<close>: one header read, one field of \<open>tt\<close> set, \<open>found\<close> raised.\<close>

definition timetable_field :: "EslEvent \<Rightarrow> string \<Rightarrow> string
    \<Rightarrow> ((i64 option \<Rightarrow> i64 option) \<Rightarrow> ChannelTimetable \<Rightarrow> ChannelTimetable)
    \<Rightarrow> ChannelTimetable \<times> bool \<Rightarrow> ChannelTimetable \<times> bool" where
  "timetable_field ev pfx sfx update s =
     (case s of (tt, found) \<Rightarrow>
        (case parsed_header parse_i64 ev (pfx @ ''-'' @ sfx) of
           Some v \<Rightarrow> (update (\<lambda>_. Some v) tt, True)
         | None \<Rightarrow> (tt, found)))"

definition timetable_fields ::
    "(string \<times> ((i64 option \<Rightarrow> i64 option) \<Rightarrow> ChannelTimetable \<Rightarrow> ChannelTimetable)) list" where
  "timetable_fields =
     [(''Profile-Created-Time'', profile_created_update),
      (''Channel-Created-Time'', created_update),
      (''Channel-Answered-Time'', answered_update),
      (''Channel-Progress-Time'', progress_update),
      (''Channel-Progress-Media-Time'', progress_media_update),
      (''Channel-Hangup-Time'', hungup_update),
      (''Channel-Transfer-Time'', transferred_update),
      (''Channel-Resurrect-Time'', resurrected_update),
      (''Channel-Bridged-Time'', bridged_update),
      (''Channel-Last-Hold'', last_hold_update),
      (''Channel-Hold-Accum'', hold_accum_update)]"

definition timetable_from_event :: "EslEvent \<Rightarrow> string \<Rightarrow> ChannelTimetable option" where
  "timetable_from_event ev pfx =
     (case fold (\<lambda>(sfx, update). timetable_field ev pfx sfx update) timetable_fields
             (timetable_default, False) of
        (tt, found) \<Rightarrow> if found then Some tt else None)"

text \<open>Each step sets its field to the parsed header, if there is one, and leaves the rest.\<close>

lemma timetable_field_pair:
  assumes "\<And>tt. update (\<lambda>x. x) tt = tt"
  shows "timetable_field ev pfx sfx update (tt, found) =
           (let r = parsed_header parse_i64 ev (pfx @ ''-'' @ sfx)
            in (update (\<lambda>old. case r of Some v \<Rightarrow> Some v | None \<Rightarrow> old) tt, found \<or> r \<noteq> None))"
  by (simp add: timetable_field_def assms split: option.splits)

lemma case_option_id: "(case r of Some v \<Rightarrow> Some v | None \<Rightarrow> None) = r"
  by (cases r) simp_all

text \<open>A timetable is read exactly: it is \<open>None\<close> when none of the eleven headers with the prefix
  holds an \<open>i64\<close>, and otherwise every field is the value of its own header (absent or
  unparseable headers give \<open>None\<close> in their field only).\<close>

theorem timetable_exact:
  "timetable_from_event ev pfx =
     (let r = \<lambda>sfx. parsed_header parse_i64 ev (pfx @ ''-'' @ sfx) in
      if \<exists>sfx \<in> fst ` set timetable_fields. r sfx \<noteq> None then
        Some \<lparr>profile_created = r ''Profile-Created-Time'', created = r ''Channel-Created-Time'',
              answered = r ''Channel-Answered-Time'', progress = r ''Channel-Progress-Time'',
              progress_media = r ''Channel-Progress-Media-Time'', hungup = r ''Channel-Hangup-Time'',
              transferred = r ''Channel-Transfer-Time'', resurrected = r ''Channel-Resurrect-Time'',
              bridged = r ''Channel-Bridged-Time'', last_hold = r ''Channel-Last-Hold'',
              hold_accum = r ''Channel-Hold-Accum''\<rparr>
      else None)"
  by (simp add: timetable_from_event_def timetable_fields_def timetable_field_pair Let_def
      timetable_default_def case_option_id)

definition timetable :: "EslEvent \<Rightarrow> string \<Rightarrow> ChannelTimetable option" where
  "timetable ev pfx = timetable_from_event ev pfx"

definition caller_timetable :: "EslEvent \<Rightarrow> ChannelTimetable option" where
  "caller_timetable ev = timetable ev ''Caller''"

definition other_leg_timetable :: "EslEvent \<Rightarrow> ChannelTimetable option" where
  "other_leg_timetable ev = timetable ev ''Other-Leg''"

section \<open>Serialisation\<close>

definition header_line :: "(string \<Rightarrow> string) \<Rightarrow> string \<times> string \<Rightarrow> string" where
  "header_line penc kv = fst kv @ '': '' @ penc (snd kv) @ [NL]"

definition sorted_headers :: "headers \<Rightarrow> (string \<times> string) list" where
  "sorted_headers h =
     filter (\<lambda>(k, v). k \<noteq> ''Event-Name'' \<and> k \<noteq> ''Content-Length'') (sorted_list_of_fmap h)"

definition to_plain_format :: "(string \<Rightarrow> string) \<Rightarrow> EslEvent \<Rightarrow> string" where
  "to_plain_format penc ev =
     (case fmlookup (ev_headers ev) ''Event-Name'' of
        Some n \<Rightarrow> header_line penc (''Event-Name'', n)
      | None \<Rightarrow> [])
     @ concat (map (header_line penc) (sorted_headers (ev_headers ev)))
     @ (case ev_body ev of
          Some b \<Rightarrow> ''Content-Length: '' @ nat_to_string (length b) @ [NL] @ [NL] @ b
        | None \<Rightarrow> [NL])"

end
