(* ===== verification/Esl_Event_Formats.thy ===== *)
theory Esl_Event_Formats
  imports Wire_Lines Esl_Event
begin

text \<open>
  The event half of \<open>src/src/protocol.rs\<close>: \<open>parse_event\<close> for the plain, JSON and XML formats,
  and the round trips with \<open>to_plain_format\<close>. \<open>serde_json\<close> and \<open>quick-xml\<close> are not part of the
  repository: the JSON parser is the record \<open>json_api\<close> of the operations the code calls, and the
  XML reader is a function from the text to the sequence of events \<open>read_event\<close> returns up to
  \<open>Eof\<close>.
\<close>

section \<open>Plain events\<close>

fun parse_event_lines :: "(string \<Rightarrow> bytes) \<Rightarrow> string list \<Rightarrow> EslEvent \<Rightarrow> EslEvent" where
  "parse_event_lines pdec [] ev = ev"
| "parse_event_lines pdec (l # ls) ev =
     (let line = trim l in
      if line = [] then parse_event_lines pdec ls ev
      else
        (case split_header pdec line of
           Some (k, v) \<Rightarrow> parse_event_lines pdec ls (set_header ev k v)
         | None \<Rightarrow> parse_event_lines pdec ls ev))"

text \<open>\<open>if let Some(event_name) = event.header("Event-Name")\<close>, shared by the three formats.\<close>

definition name_event :: "EslEvent \<Rightarrow> EslEvent" where
  "name_event ev =
     (case header ev HEADER_EVENT_NAME of
        Some n \<Rightarrow> set_event_type ev (parse_event_type n)
      | None \<Rightarrow> ev)"

definition parse_plain_event :: "(string \<Rightarrow> bytes) \<Rightarrow> EslMessage \<Rightarrow> EslEvent EslResult" where
  "parse_plain_event pdec m =
     (if message_type m \<noteq> EventMsg then Inl (protocol_error ''Not an event message'')
      else
        (case msg_body m of
           None \<Rightarrow> Inl (protocol_error ''Plain event missing body'')
         | Some body \<Rightarrow>
             (let (header_section, inner_body) =
                    (case find_sub [NL, NL] body of
                       Some pos \<Rightarrow> (take pos body, Some (drop (pos + 2) body))
                     | None \<Rightarrow> (body, None));
                  ev = parse_event_lines pdec (lines header_section) event_new;
                  ev' = (case inner_body of
                           Some ib \<Rightarrow> if ib \<noteq> [] then set_body ev ib else ev
                         | None \<Rightarrow> ev)
              in Inr (name_event ev'))))"

section \<open>JSON events\<close>

record 'v json_api =
  json_from_str :: "string \<Rightarrow> (string, 'v) result"
  json_as_object :: "'v \<Rightarrow> (string \<times> 'v) list option"
  json_as_string :: "'v \<Rightarrow> string option"
  json_to_string :: "'v \<Rightarrow> string"

definition json_text :: "'v json_api \<Rightarrow> 'v \<Rightarrow> string" where
  "json_text api v = (case json_as_string api v of Some s \<Rightarrow> s | None \<Rightarrow> json_to_string api v)"

definition parse_json_event :: "'v json_api \<Rightarrow> EslMessage \<Rightarrow> EslEvent EslResult" where
  "parse_json_event api m =
     (case msg_body m of
        None \<Rightarrow> Inl (protocol_error ''JSON event missing body'')
      | Some body \<Rightarrow>
          (case json_from_str api body of
             Inl e \<Rightarrow> Inl (JsonError e)
           | Inr json_value \<Rightarrow>
               (case json_as_object api json_value of
                  Some obj \<Rightarrow>
                    Inr (name_event (fold (\<lambda>(k, v) ev. set_header ev k (json_text api v)) obj event_new))
                | None \<Rightarrow> Inr event_new)))"

section \<open>XML events\<close>

text \<open>A text event carries the result of \<open>unescape\<close>; the end of the list is \<open>Eof\<close>.\<close>

datatype xml_event =
    XStart string
  | XEnd string
  | XText "(string, string) result"
  | XOther
  | XErr string

record xml_state =
  in_headers :: bool
  in_body :: bool
  current_tag :: "string option"
  xml_ev :: EslEvent

definition xml_start :: "string \<Rightarrow> xml_state \<Rightarrow> xml_state" where
  "xml_start tag s =
     (if tag = ''headers'' then s\<lparr>in_headers := True\<rparr>
      else if tag = ''body'' then s\<lparr>in_body := True\<rparr>
      else if in_headers s then s\<lparr>current_tag := Some tag\<rparr>
      else s)"

definition xml_end :: "string \<Rightarrow> xml_state \<Rightarrow> xml_state" where
  "xml_end tag s =
     (if tag = ''headers'' then s\<lparr>in_headers := False\<rparr>
      else if tag = ''body'' then s\<lparr>in_body := False\<rparr>
      else if in_headers s then s\<lparr>current_tag := None\<rparr>
      else s)"

definition xml_text :: "string \<Rightarrow> xml_state \<Rightarrow> xml_state" where
  "xml_text text s =
     (if in_body s then s\<lparr>xml_ev := set_body (xml_ev s) text\<rparr>
      else
        (case current_tag s of
           Some tag \<Rightarrow> s\<lparr>xml_ev := set_header (xml_ev s) tag text\<rparr>
         | None \<Rightarrow> s))"

fun xml_loop :: "xml_event list \<Rightarrow> xml_state \<Rightarrow> EslEvent EslResult" where
  "xml_loop [] s = Inr (xml_ev s)"
| "xml_loop (XStart tag # es) s = xml_loop es (xml_start tag s)"
| "xml_loop (XEnd tag # es) s = xml_loop es (xml_end tag s)"
| "xml_loop (XText (Inr text) # es) s = xml_loop es (xml_text text s)"
| "xml_loop (XText (Inl e) # es) s = Inl (XmlError e)"
| "xml_loop (XErr e # es) s = Inl (XmlError e)"
| "xml_loop (XOther # es) s = xml_loop es s"

definition parse_xml_event :: "(string \<Rightarrow> xml_event list) \<Rightarrow> EslMessage \<Rightarrow> EslEvent EslResult" where
  "parse_xml_event xml_read m =
     (case msg_body m of
        None \<Rightarrow> Inl (protocol_error ''XML event missing body'')
      | Some body \<Rightarrow>
          res_bind
            (xml_loop (xml_read body)
              \<lparr>in_headers = False, in_body = False, current_tag = None, xml_ev = event_new\<rparr>)
            (\<lambda>ev. Inr (name_event ev)))"

definition parse_event ::
    "(string \<Rightarrow> bytes) \<Rightarrow> 'v json_api \<Rightarrow> (string \<Rightarrow> xml_event list) \<Rightarrow> EslMessage \<Rightarrow> EventFormat
     \<Rightarrow> EslEvent EslResult" where
  "parse_event pdec api xml_read m fmt =
     (case fmt of
        Plain \<Rightarrow> parse_plain_event pdec m
      | Json \<Rightarrow> parse_json_event api m
      | Xml \<Rightarrow> parse_xml_event xml_read m)"

section \<open>What the formats read\<close>

lemma name_event_fields [simp]:
  "ev_headers (name_event ev) = ev_headers ev" "ev_body (name_event ev) = ev_body ev"
  by (simp_all add: name_event_def set_event_type_def split: option.splits)

lemma event_type_name_event:
  "event_type (name_event ev) =
     (case header ev ''Event-Name'' of Some n \<Rightarrow> parse_event_type n | None \<Rightarrow> event_type ev)"
  by (simp add: name_event_def set_event_type_def split: option.splits)

text \<open>The event of a header map and a body: its type is read off the map.\<close>

definition event_of :: "headers \<Rightarrow> string option \<Rightarrow> EslEvent" where
  "event_of h b =
     \<lparr>event_type = (case fmlookup h ''Event-Name'' of Some n \<Rightarrow> parse_event_type n | None \<Rightarrow> None),
      ev_headers = h, ev_body = b\<rparr>"

lemma name_event_of: "event_type ev = None \<Longrightarrow> name_event ev = event_of (ev_headers ev) (ev_body ev)"
  by (intro EslEvent.equality)
     (simp_all add: event_of_def event_type_name_event header_def split: option.splits)

lemma parse_event_lines_raws:
  "\<forall>kv \<in> set raws. good_raw kv \<Longrightarrow>
   parse_event_lines pdec (map raw_line raws) ev = ev\<lparr>ev_headers := set_raws pdec raws (ev_headers ev)\<rparr>"
  by (induction raws arbitrary: ev) (simp_all add: split_header_raw set_header_def)

text \<open>A plain event whose body is a block of good lines, a blank line and the inner body.\<close>

lemma parse_plain_event_block:
  assumes "raws \<noteq> []" "\<forall>kv \<in> set raws. good_raw kv"
  shows "parse_plain_event pdec (message_new EventMsg h (Some (wire_message raws b)))
           = Inr (event_of (set_raws pdec raws fmempty) (if b = [] then None else Some b))"
proof -
  have f: "find_sub [NL, NL] (wire_message raws b) = Some (length (join [NL] (map raw_line raws)))"
    unfolding wire_message_def using assms
    by (intro find_blank_block) (auto intro: raw_line_wire)
  have t: "take (length (join [NL] (map raw_line raws))) (wire_message raws b)
             = join [NL] (map raw_line raws)"
    "drop (Suc (Suc (length (join [NL] (map raw_line raws))))) (wire_message raws b) = b"
    unfolding wire_message_def
    using assms(1) take_block[of "map raw_line raws" b] drop_block[of "map raw_line raws" b]
    by simp_all
  show ?thesis
    using assms(2) f t
    by (simp add: parse_plain_event_def message_new_def Let_def lines_raws parse_event_lines_raws
        name_event_of event_new_def set_body_def)
qed

definition raw_headers :: "(string \<Rightarrow> string) \<Rightarrow> EslEvent \<Rightarrow> (string \<times> string) list" where
  "raw_headers penc ev =
     (case fmlookup (ev_headers ev) ''Event-Name'' of
        Some n \<Rightarrow> [(''Event-Name'', penc n)] | None \<Rightarrow> [])
     @ map (\<lambda>(k, v). (k, penc v)) (sorted_headers (ev_headers ev))
     @ (case ev_body ev of
          Some b \<Rightarrow> [(''Content-Length'', nat_to_string (length b))] | None \<Rightarrow> [])"

lemma to_plain_format_wire:
  "to_plain_format penc ev =
     wire_message (raw_headers penc ev) (case ev_body ev of Some b \<Rightarrow> b | None \<Rightarrow> [])"
  by (simp add: to_plain_format_def wire_message_def raw_headers_def block_def raw_line_def
      header_line_def[abs_def] comp_def split_beta split: option.splits)

definition wf_event :: "EslEvent \<Rightarrow> bool" where
  "wf_event ev =
     (\<forall>(k, v) \<in> set (sorted_list_of_fmap (ev_headers ev)). good_key k \<and> utf8_valid v)"

lemma wf_event_lookup: "wf_event ev \<Longrightarrow> fmlookup (ev_headers ev) k = Some v \<Longrightarrow> good_key k \<and> utf8_valid v"
  by (auto simp: wf_event_def set_sorted_list_of_fmap[symmetric])

lemma sorted_headers_iff:
  "(k, v) \<in> set (sorted_headers h) \<longleftrightarrow>
     fmlookup h k = Some v \<and> k \<noteq> ''Event-Name'' \<and> k \<noteq> ''Content-Length''"
  by (auto simp: sorted_headers_def set_sorted_list_of_fmap)

lemma distinct_sorted_headers: "distinct (map fst (sorted_headers h))"
  unfolding sorted_headers_def by (rule distinct_map_filter) simp

lemma map_of_sorted_headers:
  "map_of (sorted_headers h) k =
     (if k = ''Event-Name'' \<or> k = ''Content-Length'' then None else fmlookup h k)"
proof (cases "map_of (sorted_headers h) k")
  case None
  then have "\<And>v. (k, v) \<notin> set (sorted_headers h)" by (auto simp: map_of_eq_None_iff image_iff)
  then have "fmlookup h k = None \<or> k = ''Event-Name'' \<or> k = ''Content-Length''"
    by (cases "fmlookup h k") (auto simp: sorted_headers_iff)
  with None show ?thesis by auto
next
  case (Some v)
  then have "(k, v) \<in> set (sorted_headers h)" by (rule map_of_SomeD)
  with Some show ?thesis by (simp add: sorted_headers_iff)
qed

definition reread_headers :: "EslEvent \<Rightarrow> headers" where
  "reread_headers ev =
     (case ev_body ev of
        None \<Rightarrow> fmdrop ''Content-Length'' (ev_headers ev)
      | Some b \<Rightarrow> fmupd ''Content-Length'' (nat_to_string (length b)) (ev_headers ev))"

lemma header_value_penc:
  "percent_codec penc pdec \<Longrightarrow> utf8_valid v \<Longrightarrow> header_value pdec (penc v) = v"
  by (simp add: header_value_def percent_codec.pdec_penc)

lemma distinct_raw_headers: "distinct (map fst (raw_headers penc ev))"
proof -
  have "''Event-Name'' \<notin> fst ` set (sorted_headers (ev_headers ev))"
    "''Content-Length'' \<notin> fst ` set (sorted_headers (ev_headers ev))"
    by (auto simp: sorted_headers_iff)
  then show ?thesis
    using distinct_sorted_headers[of "ev_headers ev"]
    by (auto simp: raw_headers_def comp_def split_beta image_image split: option.splits)
qed

lemma raw_headers_good:
  assumes "percent_codec penc pdec" "wf_event ev"
  shows "\<forall>kv \<in> set (raw_headers penc ev). good_raw kv"
proof -
  have "\<forall>c \<in> set (penc v). solid c" for v by (rule percent_codec.penc_solid[OF assms(1)])
  then show ?thesis
    using wf_event_lookup[OF assms(2)] nat_to_string_digits is_digit_solid
    by (auto simp: raw_headers_def good_raw_def tidy_solid sorted_headers_iff split: option.splits)
qed

lemma set_raw_headers:
  assumes "percent_codec penc pdec" "wf_event ev"
  shows "set_raws pdec (raw_headers penc ev) fmempty = reread_headers ev"
proof (rule fmap_eqI)
  fix k
  have v: "fmlookup (ev_headers ev) k = Some v \<Longrightarrow> header_value pdec (penc v) = v" for k v
    using wf_event_lookup[OF assms(2)] header_value_penc[OF assms(1)] by blast
  have "map_of (raw_headers penc ev) k =
          (if k = ''Content-Length'' then map_option (\<lambda>b. nat_to_string (length b)) (ev_body ev)
           else map_option penc (fmlookup (ev_headers ev) k))"
    by (auto simp: raw_headers_def map_of_map_value map_of_sorted_headers map_add_def
        split: option.splits)
  then show "fmlookup (set_raws pdec (raw_headers penc ev) fmempty) k = fmlookup (reread_headers ev) k"
    using v[of k]
    by (auto simp: set_raws_lookup[OF distinct_raw_headers] reread_headers_def
        header_value_digits[OF assms(1)] split: option.splits)
qed

lemma raw_headers_empty:
  "raw_headers penc ev = [] \<Longrightarrow> ev_body ev = None \<and> fmdrop ''Content-Length'' (ev_headers ev) = fmempty"
proof -
  assume e: "raw_headers penc ev = []"
  then have "sorted_headers (ev_headers ev) = []" "fmlookup (ev_headers ev) ''Event-Name'' = None"
    "ev_body ev = None" by (auto simp: raw_headers_def split: option.splits)
  then have "fmlookup (ev_headers ev) k = None" if "k \<noteq> ''Content-Length''" for k
    using map_of_sorted_headers[of "ev_headers ev" k] that by (auto split: if_splits)
  then have "fmdrop ''Content-Length'' (ev_headers ev) = fmempty" by (intro fmap_eqI) auto
  with \<open>ev_body ev = None\<close> show ?thesis by simp
qed

lemma parse_plain_empty: "parse_plain_event pdec (message_new EventMsg h (Some [NL])) = Inr (event_of fmempty None)"
proof -
  have "lines [NL] = [[]]" by code_simp
  moreover have "find_sub [NL, NL] [NL] = None" by code_simp
  ultimately show ?thesis
    by (simp add: parse_plain_event_def message_new_def Let_def name_event_of event_new_def)
qed

lemma plain_event_back:
  assumes "percent_codec penc pdec" "wf_event ev"
  shows "parse_plain_event pdec (message_new EventMsg h (Some (to_plain_format penc ev)))
           = Inr (event_of (reread_headers ev) (if ev_body ev = Some [] then None else ev_body ev))"
proof (cases "raw_headers penc ev = []")
  case True
  from raw_headers_empty[OF this] show ?thesis
    using True parse_plain_empty[of pdec h]
    by (simp add: to_plain_format_wire wire_message_def reread_headers_def)
next
  case False
  show ?thesis
    unfolding to_plain_format_wire parse_plain_event_block[OF False raw_headers_good[OF assms]]
      set_raw_headers[OF assms]
    by (simp split: option.splits)
qed

text \<open>C6. A plain event survives the wire. For every event whose keys are header names (trimmed, with no
  colon or line feed) and whose values are UTF-8, parsing what \<open>to_plain_format\<close> writes gives back
  every header with its exact value, whatever bytes it holds, except that a stored
  \<open>Content-Length\<close> is replaced by the length of the body or dropped; the body comes back unless it
  is empty; the event type is the one named by \<open>Event-Name\<close>.\<close>

theorem plain_event_roundtrip:
  assumes "percent_codec penc pdec" "wf_event ev"
  shows "parse_plain_event pdec (message_new EventMsg h (Some (to_plain_format penc ev)))
           = Inr (event_of (reread_headers ev) (if ev_body ev = Some [] then None else ev_body ev))"
  by (rule plain_event_back) (rule assms)+

text \<open>An event with a value of two lines and a body.\<close>

definition sample_event :: EslEvent where
  "sample_event =
     \<lparr>event_type = Some BackgroundJob,
      ev_headers = fmap_of_list [(''Event-Name'', ''BACKGROUND_JOB''), (''Job-UUID'', ''a1''),
        (''variable_x'', ''50%: '' @ [NL] @ ''b'')],
      ev_body = Some (''+OK'' @ [NL, NL] @ ''done'')\<rparr>"

lemma wf_sample_event: "wf_event sample_event"
  by code_simp

theorem plain_event_roundtrip_witness:
  "parse_plain_event percent_decode_ref
     (message_new EventMsg fmempty (Some (to_plain_format percent_encode_ref sample_event)))
   = Inr (event_of (reread_headers sample_event) (Some (''+OK'' @ [NL, NL] @ ''done'')))"
  using plain_event_roundtrip[OF percent_ref.percent_codec_axioms wf_sample_event, of fmempty]
  by (simp add: sample_event_def)

text \<open>The message FreeSWITCH wraps a plain event in: the outer envelope counts the bytes of the event.\<close>

definition plain_envelope :: "string \<Rightarrow> (string \<times> string) list" where
  "plain_envelope body =
     [(''Content-Length'', nat_to_string (length body)), (''Content-Type'', ''text/event-plain'')]"

lemma plain_envelope_good: "\<forall>kv \<in> set (plain_envelope body). good_raw kv"
proof -
  have "good_raw (''Content-Type'', ''text/event-plain'')" by code_simp
  then show ?thesis
    using nat_to_string_digits is_digit_solid by (auto simp: plain_envelope_def good_raw_def tidy_solid)
qed

lemma is_digit_ascii: "is_digit c \<Longrightarrow> is_ascii c"
  by (simp add: is_digit_def is_ascii_def)

lemma plain_envelope_utf8: "utf8_valid (join [NL] (map raw_line (plain_envelope body)))"
proof (rule utf8_valid_ascii)
  have "\<forall>c \<in> set (''Content-Length: '' @ [NL] @ ''Content-Type: text/event-plain''). is_ascii c"
    by code_simp
  then show "\<forall>c \<in> set (join [NL] (map raw_line (plain_envelope body))). is_ascii c"
    using nat_to_string_digits[of "length body"] is_digit_ascii
    by (auto simp: plain_envelope_def raw_line_def)
qed

lemma plain_envelope_framed:
  assumes "percent_codec penc pdec" "body \<noteq> []" "length body \<le> MAX_MESSAGE_SIZE" "utf8_valid body"
  shows "next_frame pdec (wire_message (plain_envelope body) body @ rest)
      = Frame (message_new EventMsg (set_raws pdec (plain_envelope body) fmempty) (Some body)) rest"
    and "fmlookup (set_raws pdec (plain_envelope body) fmempty) ''Content-Type'' = Some ''text/event-plain''"
proof -
  let ?ct = "''text/event-plain''"
  have pct: "pdec ?ct = ?ct" by (rule percent_codec.pdec_plain[OF assms(1)]) code_simp
  have uct: "utf8_valid ?ct" by code_simp
  have d: "distinct (map fst (plain_envelope body))"
    "map_of (plain_envelope body) ''Content-Type'' = Some ?ct"
    "map_of (plain_envelope body) ''Content-Length'' = Some (nat_to_string (length body))"
    by (simp_all add: plain_envelope_def)
  from framed_message[OF assms(1) plain_envelope_good d(1) plain_envelope_utf8 d(2,3) assms(3,4)]
  show "next_frame pdec (wire_message (plain_envelope body) body @ rest)
      = Frame (message_new EventMsg (set_raws pdec (plain_envelope body) fmempty) (Some body)) rest"
    using assms(2) pct uct by (simp add: header_value_def type_from_content_type_def)
  show "fmlookup (set_raws pdec (plain_envelope body) fmempty) ''Content-Type'' = Some ?ct"
    using pct uct by (simp add: plain_envelope_def header_value_def)
qed

lemma plain_event_framed:
  assumes "percent_codec penc pdec" "wf_event ev"
    and "body = to_plain_format penc ev" "length body \<le> MAX_MESSAGE_SIZE" "utf8_valid body"
  shows "\<exists>m. next_frame pdec (wire_message (plain_envelope body) body @ rest) = Frame m rest
           \<and> message_type m = EventMsg \<and> fmlookup (msg_headers m) ''Content-Type'' = Some ''text/event-plain''
           \<and> parse_plain_event pdec m
               = Inr (event_of (reread_headers ev) (if ev_body ev = Some [] then None else ev_body ev))"
proof -
  have "body \<noteq> []" by (auto simp: assms(3) to_plain_format_def split: option.splits)
  note framed = plain_envelope_framed[OF assms(1) this assms(4,5)]
  have "parse_plain_event pdec (message_new EventMsg h (Some body))
      = Inr (event_of (reread_headers ev) (if ev_body ev = Some [] then None else ev_body ev))" for h
    unfolding assms(3) by (rule plain_event_back) (rule assms)+
  with framed show ?thesis by (intro exI conjI) (assumption | simp add: message_new_def)+
qed

text \<open>An event sent as \<open>text/event-plain\<close> is delivered: the bytes of the envelope and of the
  serialised event, followed by anything, are framed as one event message whose content parses back
  to the event, and exactly the following bytes are left.\<close>

theorem event_over_wire:
  assumes "percent_codec penc pdec" "wf_event ev"
    and "body = to_plain_format penc ev" "length body \<le> MAX_MESSAGE_SIZE" "utf8_valid body"
  shows "\<exists>m. next_frame pdec (wire_message (plain_envelope body) body @ rest) = Frame m rest
           \<and> parse_plain_event pdec m
               = Inr (event_of (reread_headers ev) (if ev_body ev = Some [] then None else ev_body ev))"
  using plain_event_framed[OF assms] by blast

theorem event_over_wire_witness:
  "\<exists>m. next_frame percent_decode_ref
         (wire_message (plain_envelope (to_plain_format percent_encode_ref sample_event))
            (to_plain_format percent_encode_ref sample_event) @ ''Content-Type: log'') = Frame m ''Content-Type: log''
     \<and> parse_plain_event percent_decode_ref m
         = Inr (event_of (reread_headers sample_event) (Some (''+OK'' @ [NL, NL] @ ''done'')))"
proof -
  have "length (to_plain_format percent_encode_ref sample_event) < 1000
      \<and> utf8_valid (to_plain_format percent_encode_ref sample_event)" by code_simp
  then have "length (to_plain_format percent_encode_ref sample_event) \<le> MAX_MESSAGE_SIZE"
    "utf8_valid (to_plain_format percent_encode_ref sample_event)"
    by (simp_all add: MAX_MESSAGE_SIZE_def)
  from event_over_wire[OF percent_ref.percent_codec_axioms wf_sample_event refl this] show ?thesis
    by (simp add: sample_event_def)
qed

section \<open>JSON and XML\<close>

lemma fold_set_header:
  "fold (\<lambda>(k, v) ev. set_header ev k (f v)) xs ev
     = ev\<lparr>ev_headers := fold (\<lambda>(k, v). fmupd k (f v)) xs (ev_headers ev)\<rparr>"
  by (induction xs arbitrary: ev) (auto simp: set_header_def)

text \<open>A small instance of the interface: an object of strings and one number.\<close>

datatype sample_json = SStr string | SNum nat | SObj "(string \<times> sample_json) list"

definition sample_json_api :: "sample_json json_api" where
  "sample_json_api =
     \<lparr>json_from_str = (\<lambda>s. if s = ''{}'' then Inr (SObj []) else
        if s = ''doc'' then Inr (SObj [(''Event-Name'', SStr ''HEARTBEAT''), (''N'', SNum 7)])
        else Inl ''expected value''),
      json_as_object = (\<lambda>v. case v of SObj o1 \<Rightarrow> Some o1 | _ \<Rightarrow> None),
      json_as_string = (\<lambda>v. case v of SStr s \<Rightarrow> Some s | _ \<Rightarrow> None),
      json_to_string = (\<lambda>v. case v of SNum n \<Rightarrow> nat_to_string n | _ \<Rightarrow> [])\<rparr>"

lemma json_object_event:
  assumes "json_from_str api b = Inr v" "json_as_object api v = Some obj" "distinct (map fst obj)"
  shows "parse_json_event api (message_new mt h (Some b))
      = Inr (event_of (fmap_of_list (map (\<lambda>(k, x). (k, json_text api x)) obj)) None)"
  using assms
  by (simp add: parse_json_event_def message_new_def fold_set_header name_event_of event_new_def fold_fmupd_of_list)

text \<open>
  The events quick-xml reads from a document as FreeSWITCH writes it, with the text \<open>w\<close> (line breaks,
  indentation) between the elements. There is a text event only where there is text.
\<close>

definition xml_text_events :: "string \<Rightarrow> xml_event list" where
  "xml_text_events t = (if t = [] then [] else [XText (Inr t)])"

definition xml_header_events :: "string \<Rightarrow> string \<times> string \<Rightarrow> xml_event list" where
  "xml_header_events w kv =
     xml_text_events w @ [XStart (fst kv)] @ xml_text_events (snd kv) @ [XEnd (fst kv)]"

definition xml_document :: "string \<Rightarrow> (string \<times> string) list \<Rightarrow> string option \<Rightarrow> xml_event list" where
  "xml_document w kvs b =
     [XStart ''event''] @ xml_text_events w @ [XStart ''headers'']
     @ concat (map (xml_header_events w) kvs)
     @ xml_text_events w @ [XEnd ''headers''] @ xml_text_events w
     @ (case b of Some t \<Rightarrow> [XStart ''body''] @ xml_text_events t @ [XEnd ''body''] @ xml_text_events w | None \<Rightarrow> [])
     @ [XEnd ''event'']"

lemma xml_loop_text:
  "xml_loop (xml_text_events t @ es) s = xml_loop es (if t = [] then s else xml_text t s)"
  by (simp add: xml_text_events_def)

lemma xml_loop_headers:
  assumes "\<forall>kv \<in> set kvs. fst kv \<noteq> ''headers'' \<and> fst kv \<noteq> ''body''"
    and "in_headers s" "\<not> in_body s" "current_tag s = None"
  shows "xml_loop (concat (map (xml_header_events w) kvs) @ es) s
           = xml_loop es (s\<lparr>xml_ev :=
               fold (\<lambda>(k, v) ev. set_header ev k v) (filter (\<lambda>kv. snd kv \<noteq> []) kvs) (xml_ev s)\<rparr>)"
  using assms
proof (induction kvs arbitrary: s)
  case (Cons kv kvs)
  let ?s = "if snd kv = [] then s else s\<lparr>xml_ev := set_header (xml_ev s) (fst kv) (snd kv)\<rparr>"
  have "xml_loop (concat (map (xml_header_events w) (kv # kvs)) @ es) s
      = xml_loop (concat (map (xml_header_events w) kvs) @ es) ?s"
    using Cons.prems
    by (cases s) (simp add: xml_header_events_def xml_loop_text xml_start_def xml_end_def xml_text_def)
  with Cons.IH[of ?s] Cons.prems show ?case by (cases kv) simp
qed simp

lemma xml_document_event:
  assumes "xml_read b = xml_document w kvs body" "distinct (map fst kvs)"
    "\<forall>kv \<in> set kvs. fst kv \<noteq> ''headers'' \<and> fst kv \<noteq> ''body''"
  shows "parse_xml_event xml_read (message_new mt h (Some b))
      = Inr (event_of (fmap_of_list (filter (\<lambda>kv. snd kv \<noteq> []) kvs)) (if body = Some [] then None else body))"
proof -
  let ?kvs = "filter (\<lambda>kv. snd kv \<noteq> []) kvs"
  have "distinct (map fst ?kvs)" using assms(2) by (rule distinct_map_filter)
  then have f: "fold (\<lambda>(k, v) ev. set_header ev k v) ?kvs event_new = event_new\<lparr>ev_headers := fmap_of_list ?kvs\<rparr>"
    using fold_set_header[of "\<lambda>v. v" ?kvs event_new] fold_fmupd_of_list[of ?kvs "\<lambda>v. v"]
    by (simp add: event_new_def)
  show ?thesis
    unfolding parse_xml_event_def message_new_def EslMessage.simps option.case assms(1) xml_document_def
    by (simp add: xml_start_def xml_text_def xml_loop_text xml_loop_headers[OF assms(3)] f)
       (auto simp: xml_start_def xml_end_def xml_text_def xml_loop_text name_event_of set_body_def event_new_def
          split: option.splits)
qed

text \<open>C28. What an XML event is made of. For a document with the elements FreeSWITCH writes, header names
  distinct and none of them \<open>headers\<close> or \<open>body\<close>, the event has exactly the headers whose value is not empty, the
  text of the body element as its body unless that is empty, and the type named by \<open>Event-Name\<close>; the text
  between the elements is ignored. A header with an empty value, which \<open>quick-xml\<close> reports without a text event, is
  lost; the other formats keep it.\<close>

theorem xml_event_exact:
  assumes "xml_read b = xml_document w kvs body" "distinct (map fst kvs)"
    "\<forall>kv \<in> set kvs. fst kv \<noteq> ''headers'' \<and> fst kv \<noteq> ''body''"
  shows "parse_xml_event xml_read (message_new mt h (Some b))
      = Inr (event_of (fmap_of_list (filter (\<lambda>kv. snd kv \<noteq> []) kvs)) (if body = Some [] then None else body))"
  using assms by (rule xml_document_event)

theorem xml_event_exact_witness:
  "parse_xml_event (\<lambda>_. xml_document [NL] [(''Event-Name'', ''HEARTBEAT''), (''Other-Leg'', [])] (Some ''x''))
     (message_new EventMsg fmempty (Some ''...''))
   = Inr (event_of (fmap_of_list [(''Event-Name'', ''HEARTBEAT'')]) (Some ''x''))"
proof -
  let ?kvs = "[(''Event-Name'', ''HEARTBEAT''), (''Other-Leg'', [])]"
  have "\<forall>kv \<in> set ?kvs. fst kv \<noteq> ''headers'' \<and> fst kv \<noteq> ''body''" "distinct (map fst ?kvs)" by simp_all
  from xml_event_exact [of "\<lambda>_. xml_document [NL] ?kvs (Some ''x'')" "''...''", OF _ this(2,1)] show ?thesis
    by fastforce
qed

section \<open>Agreement of the formats\<close>

lemma plain_lines_event:
  assumes "percent_codec penc pdec" "kvs \<noteq> []" "distinct (map fst kvs)"
    and "\<forall>(k, v) \<in> set kvs. good_key k \<and> utf8_valid v"
  shows "parse_plain_event pdec (message_new EventMsg h (Some (wire_message (map (\<lambda>(k, v). (k, penc v)) kvs) b)))
      = Inr (event_of (fmap_of_list kvs) (if b = [] then None else Some b))"
proof -
  let ?raws = "map (\<lambda>(k, v). (k, penc v)) kvs"
  have "\<forall>c \<in> set (penc v). solid c" for v by (rule percent_codec.penc_solid [OF assms(1)])
  then have good: "\<forall>kv \<in> set ?raws. good_raw kv"
    using assms(4) by (auto simp: good_raw_def tidy_solid)
  have "distinct (map fst ?raws)" using assms(3) by (simp add: comp_def split_beta)
  moreover have "header_value pdec (penc v) = v" if "map_of kvs k = Some v" for k v
    using assms(4) map_of_SomeD [OF that] header_value_penc [OF assms(1)] by blast
  ultimately have "set_raws pdec ?raws fmempty = fmap_of_list kvs"
    by (intro fmap_eqI) (auto simp: set_raws_lookup map_of_map_value fmlookup_of_list split: option.splits)
  with parse_plain_event_block [OF _ good, of pdec h b] assms(2) show ?thesis by simp
qed

text \<open>C27. The three formats carry the same event. Take header names and non-empty values and a body. Whether
  they are sent as plain lines with encoded values, as an XML document or as a JSON object (each value as a string
  or as a number or truth value with this text), \<open>parse_event\<close> gives an event with exactly these headers, whatever
  bytes the values hold, and with the type named by \<open>Event-Name\<close>; plain and XML give the body too, JSON never gives
  one. In every format a message without a body is refused with a protocol error.\<close>

theorem event_formats_agree:
  assumes "percent_codec penc pdec"
    and "kvs \<noteq> []" "distinct (map fst kvs)"
    and "\<forall>(k, v) \<in> set kvs. good_key k \<and> k \<noteq> ''headers'' \<and> k \<noteq> ''body'' \<and> utf8_valid v \<and> v \<noteq> []"
    and "xml_read xb = xml_document w kvs b"
    and "json_from_str api jb = Inr v" "json_as_object api v = Some obj"
    and "list_all2 (\<lambda>(k, x) (k', y). k' = k \<and> (json_as_string api y = Some x
           \<or> json_as_string api y = None \<and> json_to_string api y = x)) kvs obj"
  shows "parse_event pdec api xml_read
           (message_new EventMsg h (Some (wire_message (map (\<lambda>(k, v). (k, penc v)) kvs)
             (case b of Some t \<Rightarrow> t | None \<Rightarrow> [])))) Plain
         = Inr (event_of (fmap_of_list kvs) (if b = Some [] then None else b))
       \<and> parse_event pdec api xml_read (message_new EventMsg h (Some xb)) Xml
         = Inr (event_of (fmap_of_list kvs) (if b = Some [] then None else b))
       \<and> parse_event pdec api xml_read (message_new EventMsg h (Some jb)) Json
         = Inr (event_of (fmap_of_list kvs) None)
       \<and> (\<forall>f. \<exists>t. parse_event pdec api xml_read (message_new EventMsg h None) f = Inl (ProtocolError t))"
proof (intro conjI)
  have "\<forall>(k, v) \<in> set kvs. good_key k \<and> utf8_valid v" using assms(4) by blast
  from plain_lines_event [OF assms(1-3) this] show "parse_event pdec api xml_read
           (message_new EventMsg h (Some (wire_message (map (\<lambda>(k, v). (k, penc v)) kvs)
             (case b of Some t \<Rightarrow> t | None \<Rightarrow> [])))) Plain
         = Inr (event_of (fmap_of_list kvs) (if b = Some [] then None else b))"
    by (simp add: parse_event_def split: option.splits)
  have "filter (\<lambda>kv. snd kv \<noteq> []) kvs = kvs" using assms(4) by (auto simp: filter_id_conv)
  moreover have "\<forall>kv \<in> set kvs. fst kv \<noteq> ''headers'' \<and> fst kv \<noteq> ''body''" using assms(4) by auto
  ultimately show "parse_event pdec api xml_read (message_new EventMsg h (Some xb)) Xml
         = Inr (event_of (fmap_of_list kvs) (if b = Some [] then None else b))"
    using xml_document_event [of xml_read xb w kvs b, OF assms(5,3)] by (simp add: parse_event_def)
  have "map (\<lambda>(k, y). (k, json_text api y)) obj = kvs \<and> map fst obj = map fst kvs"
    using assms(8) by (induction kvs obj rule: list_all2_induct) (auto simp: json_text_def)
  with json_object_event [OF assms(6,7)] assms(3)
  show "parse_event pdec api xml_read (message_new EventMsg h (Some jb)) Json
         = Inr (event_of (fmap_of_list kvs) None)"
    by (simp add: parse_event_def)
  show "\<forall>f. \<exists>t. parse_event pdec api xml_read (message_new EventMsg h None) f = Inl (ProtocolError t)"
  proof
    fix f
    show "\<exists>t. parse_event pdec api xml_read (message_new EventMsg h None) f = Inl (ProtocolError t)"
      by (cases f) (simp_all add: parse_event_def parse_plain_event_def parse_json_event_def parse_xml_event_def
          message_new_def protocol_error_def)
  qed
qed

theorem event_formats_agree_witness:
  "parse_event percent_decode_ref sample_json_api (\<lambda>_. xml_document [] [(''Event-Name'', ''HEARTBEAT''), (''N'', ''7'')] None)
     (message_new EventMsg fmempty (Some ''doc'')) Json
   = parse_event percent_decode_ref sample_json_api (\<lambda>_. xml_document [] [(''Event-Name'', ''HEARTBEAT''), (''N'', ''7'')] None)
     (message_new EventMsg fmempty (Some ''doc'')) Xml"
proof -
  let ?kvs = "[(''Event-Name'', ''HEARTBEAT''), (''N'', ''7'')]"
  let ?obj = "[(''Event-Name'', SStr ''HEARTBEAT''), (''N'', SNum 7)]"
  have n: "nat_to_string 7 = ''7''" and good: "list_all (\<lambda>(k, v). good_key k \<and> k \<noteq> ''headers'' \<and> k \<noteq> ''body''
      \<and> utf8_valid v \<and> v \<noteq> []) ?kvs"
    by code_simp+
  have kvs: "?kvs \<noteq> []" "distinct (map fst ?kvs)"
    "\<forall>(k, v) \<in> set ?kvs. good_key k \<and> k \<noteq> ''headers'' \<and> k \<noteq> ''body'' \<and> utf8_valid v \<and> v \<noteq> []"
    using good unfolding list_all_iff by simp_all
  have obj: "json_from_str sample_json_api ''doc'' = Inr (SObj ?obj)" "json_as_object sample_json_api (SObj ?obj) = Some ?obj"
    "list_all2 (\<lambda>(k, x) (k', y). k' = k \<and> (json_as_string sample_json_api y = Some x
           \<or> json_as_string sample_json_api y = None \<and> json_to_string sample_json_api y = x)) ?kvs ?obj"
    by (simp_all add: sample_json_api_def n)
  from event_formats_agree [of percent_encode_ref percent_decode_ref ?kvs "\<lambda>_. xml_document [] ?kvs None" "''doc''" "[]"
        None sample_json_api "''doc''" "SObj ?obj" ?obj fmempty, OF percent_ref.percent_codec_axioms kvs refl obj]
  show ?thesis
    by simp
qed

end
