(* ===== verification/Esl_Dispatch.thy ===== *)
theory Esl_Dispatch
  imports Esl_Event Esl_Error
begin

text \<open>
  The event queue of \<open>src/src/connection.rs\<close>: the state shared by the client handles and the
  reader task, and \<open>dispatch_event\<close>, which never blocks the reader: an event that finds the
  queue full is dropped, counted and later announced by \<open>QueueFull\<close>.

  The bounded channel is \<open>tokio::sync::mpsc\<close>, which is not part of the repository: its
  \<open>try_send\<close> is an argument, its documented behaviour the locale \<open>event_channel\<close>, and
  \<open>list_queue\<close> a channel with exactly that behaviour.
\<close>

section \<open>Channels\<close>

datatype send_result = SendOk | SendFull | SendClosed

locale event_channel =
  fixes items :: "'q \<Rightarrow> 'i list"
    and is_open :: "'q \<Rightarrow> bool"
    and capacity :: "'q \<Rightarrow> nat"
    and try_send :: "'q \<Rightarrow> 'i \<Rightarrow> send_result \<times> 'q"
    and recv :: "'q \<Rightarrow> 'i option \<times> 'q"
  assumes send_closed: "\<not> is_open q \<Longrightarrow> try_send q x = (SendClosed, q)"
    and send_full: "is_open q \<Longrightarrow> capacity q \<le> length (items q) \<Longrightarrow> try_send q x = (SendFull, q)"
    and send_ok: "is_open q \<Longrightarrow> length (items q) < capacity q \<Longrightarrow>
        \<exists>q'. try_send q x = (SendOk, q') \<and> items q' = items q @ [x]
           \<and> is_open q' \<and> capacity q' = capacity q"
    and recv_empty: "items q = [] \<Longrightarrow> recv q = (None, q)"
    and recv_some: "items q = x # xs \<Longrightarrow>
        \<exists>q'. recv q = (Some x, q') \<and> items q' = xs \<and> is_open q' = is_open q
           \<and> capacity q' = capacity q"

record 'i list_queue =
  lq_items :: "'i list"
  lq_open :: bool
  lq_cap :: nat

definition lq_try_send :: "'i list_queue \<Rightarrow> 'i \<Rightarrow> send_result \<times> 'i list_queue" where
  "lq_try_send q x =
     (if \<not> lq_open q then (SendClosed, q)
      else if lq_cap q \<le> length (lq_items q) then (SendFull, q)
      else (SendOk, q\<lparr>lq_items := lq_items q @ [x]\<rparr>))"

definition lq_recv :: "'i list_queue \<Rightarrow> 'i option \<times> 'i list_queue" where
  "lq_recv q = (case lq_items q of [] \<Rightarrow> (None, q) | x # xs \<Rightarrow> (Some x, q\<lparr>lq_items := xs\<rparr>))"

interpretation list_chan: event_channel lq_items lq_open lq_cap lq_try_send lq_recv
  by unfold_locales (auto simp: lq_try_send_def lq_recv_def)

section \<open>Shared state\<close>

text \<open>A \<open>oneshot::Sender\<close> is the number of the command that waits at its other end.\<close>

record SharedState =
  pending_reply :: "nat option"
  liveness_timeout_ms :: u64
  command_timeout_ms :: u64
  event_overflow :: bool
  dropped_event_count :: u64

definition DEFAULT_COMMAND_TIMEOUT_MS :: u64 where "DEFAULT_COMMAND_TIMEOUT_MS = 5000"

definition shared_new :: SharedState where
  "shared_new =
     \<lparr>pending_reply = None, liveness_timeout_ms = 0,
      command_timeout_ms = DEFAULT_COMMAND_TIMEOUT_MS, event_overflow = False,
      dropped_event_count = 0\<rparr>"

record EslConnectOptions =
  event_queue_size :: nat

definition connect_options_default :: EslConnectOptions where
  "connect_options_default = \<lparr>event_queue_size = MAX_EVENT_QUEUE_SIZE\<rparr>"

text \<open>\<open>options.event_queue_size.max(1)\<close>.\<close>

definition queue_capacity :: "EslConnectOptions \<Rightarrow> nat" where
  "queue_capacity options = max (event_queue_size options) 1"

section \<open>dispatch_event\<close>

type_synonym event_item = "EslEvent EslResult"

text \<open>The \<open>if\<close> on the overflow flag; \<open>None\<close> is its early \<open>return false\<close>.\<close>

definition dispatch_notify :: "('q \<Rightarrow> event_item \<Rightarrow> send_result \<times> 'q) \<Rightarrow> 'q \<Rightarrow> SharedState
    \<Rightarrow> ('q \<times> SharedState) option" where
  "dispatch_notify try_send q sh =
     (if event_overflow sh then
        (case try_send q (Inl QueueFull) of
           (SendOk, q') \<Rightarrow> Some (q', sh\<lparr>event_overflow := False\<rparr>)
         | (SendClosed, q') \<Rightarrow> None
         | (SendFull, q') \<Rightarrow> Some (q', sh))
      else Some (q, sh))"

definition dispatch_item :: "('q \<Rightarrow> event_item \<Rightarrow> send_result \<times> 'q) \<Rightarrow> 'q \<Rightarrow> SharedState
    \<Rightarrow> event_item \<Rightarrow> bool \<times> 'q \<times> SharedState" where
  "dispatch_item try_send q sh item =
     (case try_send q item of
        (SendOk, q') \<Rightarrow> (True, q', sh)
      | (SendClosed, q') \<Rightarrow> (False, q', sh)
      | (SendFull, q') \<Rightarrow>
          (True, q', sh\<lparr>event_overflow := True,
                        dropped_event_count := dropped_event_count sh + 1\<rparr>))"

definition dispatch_event :: "('q \<Rightarrow> event_item \<Rightarrow> send_result \<times> 'q) \<Rightarrow> 'q \<Rightarrow> SharedState
    \<Rightarrow> event_item \<Rightarrow> bool \<times> 'q \<times> SharedState" where
  "dispatch_event try_send q sh item =
     (case dispatch_notify try_send q sh of
        None \<Rightarrow> (False, q, sh)
      | Some (q', sh') \<Rightarrow> dispatch_item try_send q' sh' item)"

section \<open>What a dispatch does\<close>

text \<open>
  \<open>accepted f x\<close> is what the queue gains when the item \<open>x\<close> gets in and the overflow flag is
  \<open>f\<close>; otherwise it gains at most the marker.
\<close>

definition accepted :: "bool \<Rightarrow> event_item \<Rightarrow> event_item list" where
  "accepted f x = (if f then [Inl QueueFull, x] else [x])"

definition dispatch_gain :: "nat \<Rightarrow> bool \<Rightarrow> event_item \<Rightarrow> event_item list" where
  "dispatch_gain room f x =
     (if length (accepted f x) \<le> room then accepted f x
      else if f \<and> 1 \<le> room then [Inl QueueFull] else [])"

lemma shared_flag_id: "event_overflow sh = b \<Longrightarrow> sh\<lparr>event_overflow := b\<rparr> = sh"
  by simp

context event_channel
begin

lemma send_cases:
  assumes "is_open q" "length (items q) \<le> capacity q"
  obtains q' where "length (items q) < capacity q" "try_send q x = (SendOk, q')"
      "items q' = items q @ [x]" "is_open q'" "capacity q' = capacity q"
    | "length (items q) = capacity q" "try_send q x = (SendFull, q)"
  using assms send_ok[of q x] send_full[of q x]
  by (cases "length (items q) < capacity q") auto

definition fits :: "'q \<Rightarrow> bool" where
  "fits q = (is_open q \<and> length (items q) \<le> capacity q)"

lemma recv_fits: "fits q \<Longrightarrow> fits (snd (recv q)) \<and> capacity (snd (recv q)) = capacity q"
  using recv_empty[of q] recv_some[of q] by (cases "items q") (auto simp: fits_def)

lemma recv_items:
  "items q = (case fst (recv q) of Some x \<Rightarrow> [x] | None \<Rightarrow> []) @ items (snd (recv q))"
  using recv_empty[of q] recv_some[of q] by (cases "items q") auto

end

text \<open>The state after a dispatch, and the queue it leaves: the gain, and nothing else.\<close>

definition dispatch_shared :: "bool \<Rightarrow> SharedState \<Rightarrow> SharedState" where
  "dispatch_shared got_in sh =
     (if got_in then sh\<lparr>event_overflow := False\<rparr>
      else sh\<lparr>event_overflow := True, dropped_event_count := dropped_event_count sh + 1\<rparr>)"

lemma dispatch_closed:
  assumes "event_channel items is_open capacity try_send recv" "\<not> is_open q"
  shows "dispatch_event try_send q sh x = (False, q, sh)"
  using event_channel.send_closed[OF assms]
  by (simp add: dispatch_event_def dispatch_notify_def dispatch_item_def)

lemma dispatch_item_open:
  assumes ch: "event_channel items is_open capacity try_send recv"
    and "event_channel.fits items is_open capacity q"
  shows "\<exists>q'. dispatch_item try_send q sh x =
           (True, q', if length (items q) < capacity q then sh
              else sh\<lparr>event_overflow := True, dropped_event_count := dropped_event_count sh + 1\<rparr>)
         \<and> items q' = items q @ (if length (items q) < capacity q then [x] else [])
         \<and> event_channel.fits items is_open capacity q' \<and> capacity q' = capacity q"
proof -
  have q: "is_open q" "length (items q) \<le> capacity q"
    using assms(2) by (simp_all add: event_channel.fits_def[OF ch])
  show ?thesis
    using q
    by (cases rule: event_channel.send_cases[OF ch q, of x])
       (auto simp: dispatch_item_def event_channel.fits_def[OF ch])
qed

lemma dispatch_open:
  assumes ch: "event_channel items is_open capacity try_send recv"
    and fit: "event_channel.fits items is_open capacity q"
    and g: "g = dispatch_gain (capacity q - length (items q)) (event_overflow sh) x"
  shows "\<exists>q'. dispatch_event try_send q sh x =
           (True, q', dispatch_shared (g = accepted (event_overflow sh) x) sh)
         \<and> items q' = items q @ g
         \<and> event_channel.fits items is_open capacity q' \<and> capacity q' = capacity q"
proof (cases "event_overflow sh")
  case False
  from dispatch_item_open[OF ch fit, of sh x] obtain q' where
    "dispatch_item try_send q sh x =
       (True, q', if length (items q) < capacity q then sh
          else sh\<lparr>event_overflow := True, dropped_event_count := dropped_event_count sh + 1\<rparr>)"
    "items q' = items q @ (if length (items q) < capacity q then [x] else [])"
    "event_channel.fits items is_open capacity q'" "capacity q' = capacity q" by blast
  with False show ?thesis
    by (auto simp: dispatch_event_def dispatch_notify_def g dispatch_gain_def accepted_def
        dispatch_shared_def)
next
  case True
  have q: "is_open q" "length (items q) \<le> capacity q"
    using fit by (simp_all add: event_channel.fits_def[OF ch])
  show ?thesis
  proof (rule event_channel.send_cases[OF ch q, of "Inl QueueFull"])
    fix q1
    assume q1: "length (items q) < capacity q" "try_send q (Inl QueueFull) = (SendOk, q1)"
      "items q1 = items q @ [Inl QueueFull]" "is_open q1" "capacity q1 = capacity q"
    let ?sh = "sh\<lparr>event_overflow := False\<rparr>"
    have "event_channel.fits items is_open capacity q1"
      using q1 by (simp add: event_channel.fits_def[OF ch])
    from dispatch_item_open[OF ch this, of ?sh x] obtain q' where
      "dispatch_item try_send q1 ?sh x =
         (True, q', if length (items q1) < capacity q1 then ?sh
            else ?sh\<lparr>event_overflow := True, dropped_event_count := dropped_event_count ?sh + 1\<rparr>)"
      "items q' = items q1 @ (if length (items q1) < capacity q1 then [x] else [])"
      "event_channel.fits items is_open capacity q'" "capacity q' = capacity q1" by blast
    with True q1 show ?thesis
      by (auto simp: dispatch_event_def dispatch_notify_def g dispatch_gain_def accepted_def
          dispatch_shared_def)
  next
    assume "length (items q) = capacity q" "try_send q (Inl QueueFull) = (SendFull, q)"
    moreover from this(1) dispatch_item_open[OF ch fit, of sh x]
    have "dispatch_item try_send q sh x =
       (True, q, sh\<lparr>event_overflow := True, dropped_event_count := dropped_event_count sh + 1\<rparr>)"
      using event_channel.send_full[OF ch q(1)] by (simp add: dispatch_item_def)
    ultimately show ?thesis
      using True fit
      by (auto simp: dispatch_event_def dispatch_notify_def g dispatch_gain_def accepted_def
          dispatch_shared_def)
  qed
qed

section \<open>Runs\<close>

text \<open>
  The reader task dispatches, the application receives. The two \<open>try_send\<close> of a dispatch are two accesses
  to the queue: \<open>Dispatch x k\<close> is a dispatch between whose accesses the application asks for \<open>k\<close> items. As
  nothing else sends, sequences of these actions are all the interleavings of the two tasks. For every
  dispatched item the log records the items in the queue before each of the two accesses and what they added.
\<close>

datatype queue_action = Dispatch event_item nat | Receive

record dispatch_log =
  dl_item :: event_item
  dl_taken :: nat
  dl_before :: nat
  dl_marked :: bool
  dl_between :: nat
  dl_queued :: bool

record 'q queue_run =
  run_queue :: 'q
  run_shared :: SharedState
  run_received :: "event_item list"
  run_log :: "dispatch_log list"

fun receive_n :: "('q \<Rightarrow> event_item option \<times> 'q) \<Rightarrow> nat \<Rightarrow> 'q \<Rightarrow> event_item list \<times> 'q" where
  "receive_n recv 0 q = ([], q)"
| "receive_n recv (Suc k) q =
     (case recv q of (x, q') \<Rightarrow>
        (case receive_n recv k q' of (xs, q'') \<Rightarrow> ((case x of Some i \<Rightarrow> [i] | None \<Rightarrow> []) @ xs, q'')))"

definition run_step :: "('q \<Rightarrow> event_item list) \<Rightarrow> ('q \<Rightarrow> event_item \<Rightarrow> send_result \<times> 'q)
    \<Rightarrow> ('q \<Rightarrow> event_item option \<times> 'q) \<Rightarrow> queue_action \<Rightarrow> 'q queue_run \<Rightarrow> 'q queue_run" where
  "run_step items try_send recv a r =
     (case a of
        Dispatch x k \<Rightarrow>
          (case dispatch_notify try_send (run_queue r) (run_shared r) of
             None \<Rightarrow> r
           | Some (q1, sh1) \<Rightarrow>
               (case receive_n recv k q1 of (xs, q2) \<Rightarrow>
                  (case dispatch_item try_send q2 sh1 x of (_, q3, sh3) \<Rightarrow>
                     r\<lparr>run_queue := q3, run_shared := sh3, run_received := run_received r @ xs,
                       run_log := run_log r @
                         [\<lparr>dl_item = x, dl_taken = k, dl_before = length (items (run_queue r)),
                           dl_marked = length (items (run_queue r)) < length (items q1),
                           dl_between = length (items q2), dl_queued = length (items q2) < length (items q3)\<rparr>]\<rparr>)))
      | Receive \<Rightarrow>
          (case receive_n recv 1 (run_queue r) of
             (xs, q') \<Rightarrow> r\<lparr>run_queue := q', run_received := run_received r @ xs\<rparr>))"

definition run_start :: "'q \<Rightarrow> 'q queue_run" where
  "run_start q = \<lparr>run_queue = q, run_shared = shared_new, run_received = [], run_log = []\<rparr>"

definition run :: "('q \<Rightarrow> event_item list) \<Rightarrow> ('q \<Rightarrow> event_item \<Rightarrow> send_result \<times> 'q)
    \<Rightarrow> ('q \<Rightarrow> event_item option \<times> 'q) \<Rightarrow> queue_action list \<Rightarrow> 'q \<Rightarrow> 'q queue_run" where
  "run items try_send recv acts q = fold (run_step items try_send recv) acts (run_start q)"

text \<open>A dispatch that is not interrupted is \<open>dispatch_event\<close>.\<close>

lemma run_step_uninterrupted:
  assumes "dispatch_event try_send (run_queue r) (run_shared r) x = (True, q, sh)"
  shows "run_queue (run_step items try_send recv (Dispatch x 0) r) = q
       \<and> run_shared (run_step items try_send recv (Dispatch x 0) r) = sh"
  using assms by (auto simp: run_step_def dispatch_event_def split: option.splits prod.splits)

text \<open>What a dispatch added to the queue, whether a loss is waiting to be announced after it, and how many
  items are lost.\<close>

definition added :: "dispatch_log \<Rightarrow> event_item list" where
  "added e = (if dl_marked e then [Inl QueueFull] else []) @ (if dl_queued e then [dl_item e] else [])"

fun owed :: "bool \<Rightarrow> dispatch_log list \<Rightarrow> bool" where
  "owed f [] = f"
| "owed f (e # l) = owed (f \<and> \<not> dl_marked e \<or> \<not> dl_queued e) l"

definition lost :: "dispatch_log list \<Rightarrow> nat" where
  "lost l = length (filter (\<lambda>e. \<not> dl_queued e) l)"

text \<open>
  What a log must look like. A notice is sent by exactly the dispatches that find a loss unannounced and a free
  place; an item is lost exactly when there is no place for it at its own \<open>try_send\<close>; between the two, only the
  application changes the queue.
\<close>

fun accounted :: "nat \<Rightarrow> bool \<Rightarrow> dispatch_log list \<Rightarrow> bool" where
  "accounted cap f [] = True"
| "accounted cap f (e # l) =
     (dl_marked e = (f \<and> dl_before e < cap)
      \<and> dl_between e = dl_before e + of_bool (dl_marked e) - dl_taken e
      \<and> dl_queued e = (dl_between e < cap)
      \<and> accounted cap (f \<and> \<not> dl_marked e \<or> \<not> dl_queued e) l)"

lemma log_snoc:
  "owed f (l @ [e]) = (owed f l \<and> \<not> dl_marked e \<or> \<not> dl_queued e)"
  "accounted cap f (l @ [e]) \<longleftrightarrow> accounted cap f l \<and> accounted cap (owed f l) [e]"
  by (induction f l rule: owed.induct) simp_all

lemma accounted_split:
  "accounted cap f (l @ e # l') \<Longrightarrow> accounted cap (owed f l) [e]"
proof (induction f l rule: owed.induct)
  case (2 f d l)
  from 2(2) have "accounted cap (f \<and> \<not> dl_marked d \<or> \<not> dl_queued d) (l @ e # l')"
    unfolding append_Cons accounted.simps by blast
  from 2(1) [OF this] show ?case
    by (simp only: owed.simps)
qed simp

definition dispatched :: "queue_action list \<Rightarrow> (event_item \<times> nat) list" where
  "dispatched acts = List.map_filter (\<lambda>a. case a of Dispatch x k \<Rightarrow> Some (x, k) | Receive \<Rightarrow> None) acts"

definition run_ok :: "('q \<Rightarrow> event_item list) \<Rightarrow> ('q \<Rightarrow> bool) \<Rightarrow> ('q \<Rightarrow> nat) \<Rightarrow> nat
    \<Rightarrow> 'q queue_run \<Rightarrow> bool" where
  "run_ok items is_open capacity cap r =
     (is_open (run_queue r) \<and> capacity (run_queue r) = cap \<and> length (items (run_queue r)) \<le> cap
      \<and> run_received r @ items (run_queue r) = concat (map added (run_log r))
      \<and> accounted cap False (run_log r)
      \<and> event_overflow (run_shared r) = owed False (run_log r)
      \<and> dropped_event_count (run_shared r) = of_nat (lost (run_log r)))"

lemma receive_n_run:
  assumes ch: "event_channel items is_open capacity try_send recv"
    and "event_channel.fits items is_open capacity q" "receive_n recv k q = (xs, q')"
  shows "items q = xs @ items q' \<and> length (items q') = length (items q) - k
     \<and> event_channel.fits items is_open capacity q' \<and> capacity q' = capacity q"
  using assms(2,3)
proof (induction k arbitrary: q xs)
  case (Suc k)
  obtain x q1 where r: "recv q = (x, q1)" by (cases "recv q")
  obtain ys where ys: "receive_n recv k q1 = (ys, q')" "xs = (case x of Some i \<Rightarrow> [i] | None \<Rightarrow> []) @ ys"
    using Suc.prems(2) r by (auto split: prod.splits)
  have q1: "event_channel.fits items is_open capacity q1" "capacity q1 = capacity q"
    using event_channel.recv_fits [OF ch Suc.prems(1)] r by simp_all
  have "items q = (case x of Some i \<Rightarrow> [i] | None \<Rightarrow> []) @ items q1 \<and> (x = None \<longrightarrow> items q1 = [])"
  proof (cases "items q")
    case Nil
    with event_channel.recv_empty [OF ch Nil] r show ?thesis by simp
  next
    case (Cons i l)
    with event_channel.recv_some [OF ch Cons] r show ?thesis by auto
  qed
  then have q: "items q = (case x of Some i \<Rightarrow> [i] | None \<Rightarrow> []) @ items q1" "x = None \<longrightarrow> items q1 = []"
    by blast+
  from Suc.IH [OF q1(1) ys(1)] have ih: "items q1 = ys @ items q'" "length (items q') = length (items q1) - k"
    "event_channel.fits items is_open capacity q'" "capacity q' = capacity q1"
    by blast+
  have "length (items q') = length (items q) - Suc k"
    using ih(2) q(2) by (cases x) (simp_all add: q(1))
  with ih(3,4) q1(2) show ?case
    by (simp add: q(1) ys(2) ih(1))
qed simp

lemma dispatch_notify_open:
  assumes ch: "event_channel items is_open capacity try_send recv"
    and fit: "event_channel.fits items is_open capacity q"
    and m: "m = (event_overflow sh \<and> length (items q) < capacity q)"
  shows "\<exists>q'. dispatch_notify try_send q sh = Some (q', if m then sh\<lparr>event_overflow := False\<rparr> else sh)
     \<and> items q' = items q @ (if m then [Inl QueueFull] else [])
     \<and> event_channel.fits items is_open capacity q' \<and> capacity q' = capacity q"
proof -
  have q: "is_open q" "length (items q) \<le> capacity q"
    using fit by (simp_all add: event_channel.fits_def [OF ch])
  show ?thesis
    using q fit
    by (cases rule: event_channel.send_cases [OF ch q, of "Inl QueueFull"])
      (auto simp: m dispatch_notify_def event_channel.fits_def [OF ch])
qed

lemma receive_n_open:
  assumes "event_channel items is_open capacity try_send recv"
    and "event_channel.fits items is_open capacity q" "receive_n recv k q = (xs, q')"
  shows "items q = xs @ items q'" and "length (items q') = length (items q) - k" and "length xs \<le> k"
    and "event_channel.fits items is_open capacity q'" and "capacity q' = capacity q"
proof -
  note run = receive_n_run [OF assms]
  from run show eq: "items q = xs @ items q'" and l: "length (items q') = length (items q) - k"
    and "event_channel.fits items is_open capacity q'" and "capacity q' = capacity q"
    by blast+
  have "length (items q) = length xs + length (items q')" unfolding eq by (rule length_append)
  with l show "length xs \<le> k" by linarith
qed

text \<open>One interrupted dispatch on an open queue.\<close>

lemma dispatch_run_open:
  assumes ch: "event_channel items is_open capacity try_send recv"
    and fit: "event_channel.fits items is_open capacity (run_queue r)"
  shows "\<exists>e q sh xs. run_step items try_send recv (Dispatch x k) r
        = r\<lparr>run_queue := q, run_shared := sh, run_received := run_received r @ xs, run_log := run_log r @ [e]\<rparr>
     \<and> dl_item e = x \<and> dl_taken e = k \<and> dl_before e = length (items (run_queue r))
     \<and> items (run_queue r) @ added e = xs @ items q \<and> length xs \<le> k
     \<and> accounted (capacity (run_queue r)) (event_overflow (run_shared r)) [e]
     \<and> event_overflow sh = owed (event_overflow (run_shared r)) [e]
     \<and> dropped_event_count sh = dropped_event_count (run_shared r) + of_bool (\<not> dl_queued e)
     \<and> event_channel.fits items is_open capacity q \<and> capacity q = capacity (run_queue r)"
proof -
  let ?q = "run_queue r" and ?sh = "run_shared r"
  define m where "m = (event_overflow ?sh \<and> length (items ?q) < capacity ?q)"
  define sh1 where "sh1 = (if m then ?sh\<lparr>event_overflow := False\<rparr> else ?sh)"
  obtain q1 where q1: "dispatch_notify try_send ?q ?sh = Some (q1, sh1)"
    "items q1 = items ?q @ (if m then [Inl QueueFull] else [])" "event_channel.fits items is_open capacity q1"
    "capacity q1 = capacity ?q"
    using dispatch_notify_open [OF ch fit m_def] unfolding sh1_def by blast
  obtain xs q2 where r: "receive_n recv k q1 = (xs, q2)" by (cases "receive_n recv k q1")
  note q2 = receive_n_open [OF ch q1(3) r]
  define g where "g = (length (items q2) < capacity ?q)"
  have cap: "capacity q2 = capacity ?q" using q1(4) q2(5) by simp
  from dispatch_item_open [OF ch q2(4), of sh1 x] obtain q3 where
    q3: "dispatch_item try_send q2 sh1 x = (True, q3, if g then sh1
        else sh1\<lparr>event_overflow := True, dropped_event_count := dropped_event_count sh1 + 1\<rparr>)"
    "items q3 = items q2 @ (if g then [x] else [])" "event_channel.fits items is_open capacity q3"
    "capacity q3 = capacity q2"
    unfolding cap g_def by blast
  let ?e = "\<lparr>dl_item = x, dl_taken = k, dl_before = length (items ?q),
             dl_marked = length (items ?q) < length (items q1),
             dl_between = length (items q2), dl_queued = length (items q2) < length (items q3)\<rparr>"
  have mg: "dl_marked ?e = m" "dl_queued ?e = g" using q1(2) q3(2) by simp_all
  have "length (items q2) = length (items ?q) + of_bool m - k" using q1(2) q2(2) by simp
  with mg have "accounted (capacity ?q) (event_overflow ?sh) [?e]"
    by (simp only: accounted.simps dispatch_log.simps) (simp add: m_def g_def)
  moreover have "items ?q @ added ?e = xs @ items q3"
    using q1(2) q2(1) q3(2) mg by (auto simp: added_def simp flip: append_assoc)
  moreover note q2(3)
  moreover have "event_overflow (if g then sh1
        else sh1\<lparr>event_overflow := True, dropped_event_count := dropped_event_count sh1 + 1\<rparr>)
      = owed (event_overflow ?sh) [?e]"
    using mg by (auto simp: sh1_def m_def)
  ultimately show ?thesis
    using q1(1) r q3 cap mg
    by (intro exI [of _ ?e] exI [of _ q3] exI [of _ "if g then sh1
        else sh1\<lparr>event_overflow := True, dropped_event_count := dropped_event_count sh1 + 1\<rparr>"] exI [of _ xs])
      (auto simp: run_step_def sh1_def)
qed

lemma run_step_ok:
  assumes ch: "event_channel items is_open capacity try_send recv"
    and r: "run_ok items is_open capacity cap r"
  shows "run_ok items is_open capacity cap (run_step items try_send recv a r)"
proof -
  have fit: "event_channel.fits items is_open capacity (run_queue r)" and cap: "capacity (run_queue r) = cap"
    using r by (simp_all add: run_ok_def event_channel.fits_def [OF ch])
  show ?thesis
  proof (cases a)
    case Receive
    obtain xs q' where rc: "receive_n recv 1 (run_queue r) = (xs, q')" by (cases "receive_n recv 1 (run_queue r)")
    note q' = receive_n_open [OF ch fit rc, unfolded event_channel.fits_def [OF ch] cap]
    have "run_step items try_send recv a r = r\<lparr>run_queue := q', run_received := run_received r @ xs\<rparr>"
      unfolding run_step_def Receive queue_action.case rc prod.case ..
    with r q'(1,4,5) show ?thesis by (simp add: run_ok_def)
  next
    case (Dispatch x k)
    from dispatch_run_open [OF ch fit, of x k] obtain e q sh xs where
      e: "run_step items try_send recv a r
        = r\<lparr>run_queue := q, run_shared := sh, run_received := run_received r @ xs, run_log := run_log r @ [e]\<rparr>"
      "items (run_queue r) @ added e = xs @ items q"
      "accounted cap (event_overflow (run_shared r)) [e]"
      "event_overflow sh = owed (event_overflow (run_shared r)) [e]"
      "dropped_event_count sh = dropped_event_count (run_shared r) + of_bool (\<not> dl_queued e)"
      "event_channel.fits items is_open capacity q" "capacity q = cap"
      unfolding Dispatch cap by blast
    have "(run_received r @ xs) @ items q = (run_received r @ items (run_queue r)) @ added e"
      using e(2) by simp
    then have "(run_received r @ xs) @ items q = concat (map added (run_log r @ [e]))"
      using r by (simp add: run_ok_def)
    with r e(3-7) show ?thesis
      unfolding e(1) by (simp add: run_ok_def log_snoc lost_def event_channel.fits_def [OF ch])
  qed
qed

lemma run_fold_ok:
  assumes "event_channel items is_open capacity try_send recv" "run_ok items is_open capacity cap r"
  shows "run_ok items is_open capacity cap (fold (run_step items try_send recv) acts r)
     \<and> map (\<lambda>e. (dl_item e, dl_taken e)) (run_log (fold (run_step items try_send recv) acts r))
         = map (\<lambda>e. (dl_item e, dl_taken e)) (run_log r) @ dispatched acts"
  using assms(2)
proof (induction acts arbitrary: r)
  case Nil
  then show ?case by (simp add: dispatched_def)
next
  case (Cons a acts)
  have fit: "event_channel.fits items is_open capacity (run_queue r)"
    using Cons.prems by (simp add: run_ok_def event_channel.fits_def [OF assms(1)])
  have "map (\<lambda>e. (dl_item e, dl_taken e)) (run_log (run_step items try_send recv a r))
      = map (\<lambda>e. (dl_item e, dl_taken e)) (run_log r) @ dispatched [a]"
  proof (cases a)
    case (Dispatch x k)
    from dispatch_run_open [OF assms(1) fit, of x k] show ?thesis
      by (auto simp: Dispatch dispatched_def map_filter_simps)
  qed (simp add: run_step_def dispatched_def map_filter_simps split: prod.splits)
  moreover have "dispatched (a # acts) = dispatched [a] @ dispatched acts"
    by (cases a) (simp_all add: dispatched_def map_filter_simps)
  ultimately show ?case
    using Cons.IH [OF run_step_ok [OF assms(1) Cons.prems, of a]] by simp
qed

text \<open>C7. Every event of the queue is accounted for. On a queue of any capacity and for every interleaving of the
  single accesses of the reader and the application: what was received followed by what is queued is, in order,
  exactly what the dispatches added (first in, first out, nothing lost or duplicated in the queue), and the log
  covers every dispatched item in order. A dispatch sends the \<open>QueueFull\<close> notice if and only if a loss is still
  unannounced and its first access finds a free place; it loses its item if and only if its second access finds
  none. So while a loss is unannounced, an item gets in without a notice right before it only when the
  application took something between the two accesses of this very dispatch. The flag \<open>event_overflow\<close> says at
  every moment whether a loss is unannounced, also when no further event comes to announce it; the queue never
  exceeds its capacity; and \<open>dropped_event_count\<close> is the number of lost items modulo \<open>2 ^ 64\<close>.\<close>

theorem dispatch_losses_accounted:
  assumes ch: "event_channel items is_open capacity try_send recv"
    and q: "items q = []" "is_open q"
    and r: "r = run items try_send recv acts q"
  shows "run_received r @ items (run_queue r) = concat (map added (run_log r))
       \<and> map (\<lambda>e. (dl_item e, dl_taken e)) (run_log r) = dispatched acts
       \<and> accounted (capacity q) False (run_log r)
       \<and> (\<forall>l e l'. run_log r = l @ e # l' \<and> owed False l \<and> dl_queued e \<and> \<not> dl_marked e \<longrightarrow> 0 < dl_taken e)
       \<and> event_overflow (run_shared r) = owed False (run_log r)
       \<and> length (items (run_queue r)) \<le> capacity q
       \<and> dropped_event_count (run_shared r) = of_nat (lost (run_log r))"
proof -
  have "run_ok items is_open capacity (capacity q) (run_start q)"
    using q by (simp add: run_ok_def run_start_def shared_new_def lost_def)
  from run_fold_ok [OF ch this, of acts]
  have ok: "run_ok items is_open capacity (capacity q) r"
    and log: "map (\<lambda>e. (dl_item e, dl_taken e)) (run_log r) = dispatched acts"
    by (simp_all add: r run_def run_start_def)
  have "0 < dl_taken e" if "run_log r = l @ e # l'" "owed False l" "dl_queued e" "\<not> dl_marked e" for l e l'
    using accounted_split [of "capacity q" False l e l'] ok that by (auto simp: run_ok_def)
  with ok log show ?thesis
    by (auto simp: run_ok_def)
qed

definition sample_item :: "string \<Rightarrow> event_item" where
  "sample_item n = Inr (set_header event_new ''Event-Name'' n)"

definition sample_queue :: "event_item list_queue" where
  "sample_queue = \<lparr>lq_items = [], lq_open = True, lq_cap = 2\<rparr>"

text \<open>The queue fills, \<open>c\<close> is lost, \<open>d\<close> gets in ahead of the notice because of an item taken in between, and
  \<open>e\<close> behind the notice.\<close>

definition sample_actions :: "queue_action list" where
  "sample_actions =
     map (\<lambda>n. Dispatch (sample_item n) 0) [''a'', ''b'', ''c''] @ [Dispatch (sample_item ''d'') 1, Receive, Receive]
       @ [Dispatch (sample_item ''e'') 0]"

theorem dispatch_losses_accounted_witness:
  "\<exists>r. r = run lq_items lq_try_send lq_recv sample_actions sample_queue
     \<and> run_received r @ lq_items (run_queue r)
         = [sample_item ''a'', sample_item ''b'', sample_item ''d'', Inl QueueFull, sample_item ''e'']
     \<and> accounted 2 False (run_log r) \<and> dropped_event_count (run_shared r) = 1"
proof -
  let ?r = "run lq_items lq_try_send lq_recv sample_actions sample_queue"
  have log: "map (\<lambda>e. (dl_item e, dl_marked e, dl_queued e)) (run_log ?r)
      = [(sample_item ''a'', False, True), (sample_item ''b'', False, True), (sample_item ''c'', False, False),
         (sample_item ''d'', False, True), (sample_item ''e'', True, True)]"
    by (simp add: sample_actions_def run_def run_start_def sample_queue_def run_step_def dispatch_notify_def
        dispatch_item_def lq_try_send_def lq_recv_def shared_new_def)
  have q: "lq_items sample_queue = []" "lq_open sample_queue" "lq_cap sample_queue = 2"
    by (simp_all add: sample_queue_def)
  have "concat (map added (run_log ?r))
      = concat (map (\<lambda>(x, m, g). (if m then [Inl QueueFull] else []) @ (if g then [x] else []))
          (map (\<lambda>e. (dl_item e, dl_marked e, dl_queued e)) (run_log ?r)))"
    by (simp add: added_def [abs_def] comp_def)
  moreover have "lost (run_log ?r)
      = length (filter (\<lambda>(x, m, g). \<not> g) (map (\<lambda>e. (dl_item e, dl_marked e, dl_queued e)) (run_log ?r)))"
    by (simp add: lost_def filter_map comp_def)
  ultimately have "concat (map added (run_log ?r))
      = [sample_item ''a'', sample_item ''b'', sample_item ''d'', Inl QueueFull, sample_item ''e'']"
    "lost (run_log ?r) = 1"
    unfolding log by simp_all
  with dispatch_losses_accounted [OF list_chan.event_channel_axioms q(1,2) refl, of sample_actions] q(3)
  show ?thesis by (intro exI [of _ ?r]) simp
qed

lemma drain_one_round:
  assumes ch: "event_channel items is_open capacity try_send recv"
    and q: "is_open (run_queue r)" "0 < capacity (run_queue r)"
      "length (items (run_queue r)) = capacity (run_queue r)" "event_overflow (run_shared r)"
    and r': "r' = run_step items try_send recv (Dispatch x 0) (run_step items try_send recv Receive r)"
  shows "\<exists>e. is_open (run_queue r') \<and> capacity (run_queue r') = capacity (run_queue r)
       \<and> length (items (run_queue r')) = capacity (run_queue r') \<and> event_overflow (run_shared r')
       \<and> run_received r' = run_received r @ [hd (items (run_queue r))]
       \<and> items (run_queue r') = tl (items (run_queue r)) @ [Inl QueueFull]
       \<and> run_log r' = run_log r @ [e] \<and> dl_item e = x \<and> added e = [Inl QueueFull]
       \<and> dropped_event_count (run_shared r') = dropped_event_count (run_shared r) + 1"
proof -
  from q obtain i rest where i: "items (run_queue r) = i # rest" by (cases "items (run_queue r)") auto
  from event_channel.recv_some [OF ch i] obtain q1 where
    q1: "recv (run_queue r) = (Some i, q1)" "items q1 = rest" "is_open q1"
      "capacity q1 = capacity (run_queue r)" using q(1) by auto
  define r1 where "r1 = run_step items try_send recv Receive r"
  have r1: "run_queue r1 = q1" "run_shared r1 = run_shared r" "run_received r1 = run_received r @ [i]"
    "run_log r1 = run_log r"
    using q1(1) by (simp_all add: r1_def run_step_def)
  have fit: "event_channel.fits items is_open capacity (run_queue r1)"
    using q(3) i q1 r1(1) by (simp add: event_channel.fits_def [OF ch])
  from dispatch_run_open [OF ch fit, of x 0] obtain e q2 sh xs where
    e: "run_step items try_send recv (Dispatch x 0) r1
        = r1\<lparr>run_queue := q2, run_shared := sh, run_received := run_received r1 @ xs, run_log := run_log r1 @ [e]\<rparr>"
    "dl_item e = x" "dl_taken e = 0" "dl_before e = length (items q1)" "items q1 @ added e = xs @ items q2" "xs = []"
    "accounted (capacity q1) (event_overflow (run_shared r)) [e]"
    "event_overflow sh = owed (event_overflow (run_shared r)) [e]"
    "dropped_event_count sh = dropped_event_count (run_shared r) + of_bool (\<not> dl_queued e)"
    "event_channel.fits items is_open capacity q2" "capacity q2 = capacity q1"
    unfolding r1 by blast
  have "dl_marked e" "\<not> dl_queued e"
    using e(3,4,7) q(3,4) q1(2,4) i by auto
  moreover have "r' = r1\<lparr>run_queue := q2, run_shared := sh, run_received := run_received r1 @ xs, run_log := run_log r1 @ [e]\<rparr>"
    using e(1) by (simp add: r' r1_def)
  moreover have "items q2 = rest @ [Inl QueueFull]"
    using calculation(1,2) e(5,6) q1(2) by (simp add: added_def)
  ultimately show ?thesis
    using e(2,6,8-) q i q1 r1
    by (intro exI [of _ e]) (auto simp: added_def event_channel.fits_def [OF ch])
qed

text \<open>C39. Overflow starves a steady consumer. Once the queue is full and an event has been dropped, an
  application that takes exactly one item between two events never gets an event again: every
  event is dropped, the free slot goes to another \<open>QueueFull\<close>, and after the backlog the
  application receives nothing but \<open>QueueFull\<close>. (The documentation of \<open>EslEventStream::recv\<close> promises
  a one-time notification per overflow after which real events follow.)\<close>

theorem overflow_starves_consumer:
  assumes ch: "event_channel items is_open capacity try_send recv"
    and q: "is_open q" "0 < capacity q" "length (items q) = capacity q" "event_overflow sh"
    and r: "r = fold (run_step items try_send recv) (concat (map (\<lambda>x. [Receive, Dispatch x 0]) xs))
                 \<lparr>run_queue = q, run_shared = sh, run_received = [], run_log = []\<rparr>"
  shows "map (\<lambda>e. (dl_item e, added e)) (run_log r) = map (\<lambda>x. (x, [Inl QueueFull])) xs
       \<and> run_received r @ items (run_queue r) = items q @ replicate (length xs) (Inl QueueFull)
       \<and> length (run_received r) = length xs
       \<and> dropped_event_count (run_shared r) = dropped_event_count sh + of_nat (length xs)"
proof -
  let ?acts = "\<lambda>xs. concat (map (\<lambda>x. [Receive, Dispatch x 0]) xs)"
  have "let r' = fold (run_step items try_send recv) (?acts xs) r0
     in map (\<lambda>e. (dl_item e, added e)) (run_log r')
           = map (\<lambda>e. (dl_item e, added e)) (run_log r0) @ map (\<lambda>x. (x, [Inl QueueFull])) xs
       \<and> run_received r' @ items (run_queue r')
           = run_received r0 @ items (run_queue r0) @ replicate (length xs) (Inl QueueFull)
       \<and> length (run_received r') = length (run_received r0) + length xs
       \<and> dropped_event_count (run_shared r') = dropped_event_count (run_shared r0) + of_nat (length xs)"
    if "is_open (run_queue r0)" "0 < capacity (run_queue r0)"
      "length (items (run_queue r0)) = capacity (run_queue r0)" "event_overflow (run_shared r0)" for r0
    using that
  proof (induction xs arbitrary: r0)
    case (Cons x xs)
    let ?r1 = "run_step items try_send recv (Dispatch x 0) (run_step items try_send recv Receive r0)"
    from drain_one_round [OF ch Cons.prems refl, of x] obtain e where one:
      "is_open (run_queue ?r1)" "capacity (run_queue ?r1) = capacity (run_queue r0)"
      "length (items (run_queue ?r1)) = capacity (run_queue ?r1)" "event_overflow (run_shared ?r1)"
      "run_received ?r1 = run_received r0 @ [hd (items (run_queue r0))]"
      "items (run_queue ?r1) = tl (items (run_queue r0)) @ [Inl QueueFull]"
      "run_log ?r1 = run_log r0 @ [e]" "dl_item e = x" "added e = [Inl QueueFull]"
      "dropped_event_count (run_shared ?r1) = dropped_event_count (run_shared r0) + 1"
      by blast
    have ne: "items (run_queue r0) \<noteq> []" using Cons.prems by auto
    have rep: "replicate (length (x # xs)) (Inl QueueFull) = [Inl QueueFull] @ replicate (length xs) (Inl QueueFull)"
      by simp
    have "let r' = fold (run_step items try_send recv) (?acts xs) ?r1
     in map (\<lambda>e. (dl_item e, added e)) (run_log r')
           = map (\<lambda>e. (dl_item e, added e)) (run_log ?r1) @ map (\<lambda>x. (x, [Inl QueueFull])) xs
       \<and> run_received r' @ items (run_queue r')
           = run_received ?r1 @ items (run_queue ?r1) @ replicate (length xs) (Inl QueueFull)
       \<and> length (run_received r') = length (run_received ?r1) + length xs
       \<and> dropped_event_count (run_shared r') = dropped_event_count (run_shared ?r1) + of_nat (length xs)"
      by (rule Cons.IH) (use one Cons.prems in auto)
    then show ?case
      using one ne rep by (simp add: Let_def)
  qed simp
  from this [of "\<lparr>run_queue = q, run_shared = sh, run_received = [], run_log = []\<rparr>"] q
  show ?thesis by (simp add: r Let_def)
qed

theorem overflow_starves_consumer_witness:
  "\<exists>r :: event_item list_queue queue_run.
     run_received r @ lq_items (run_queue r) = [sample_item ''a'', Inl QueueFull, Inl QueueFull]
     \<and> map (\<lambda>e. (dl_item e, added e)) (run_log r)
         = [(sample_item ''b'', [Inl QueueFull]), (sample_item ''c'', [Inl QueueFull])]"
  using overflow_starves_consumer [OF list_chan.event_channel_axioms _ _ _ _ refl,
      of "\<lparr>lq_items = [sample_item ''a''], lq_open = True, lq_cap = 1\<rparr>"
         "shared_new\<lparr>event_overflow := True\<rparr>" "[sample_item ''b'', sample_item ''c'']"]
  by (auto simp: numeral_2_eq_2 simp del: fold_simps fold.simps)

text \<open>
  The two \<open>try_send\<close> of one dispatch are not atomic: the application runs in another task. If
  it takes an item between them, the event gets in although the marker did not, so an event
  after the gap is delivered before any notice of the gap.
\<close>

theorem notice_after_event_race:
  assumes "event_overflow sh" "0 < lq_cap q" "length (lq_items q) = lq_cap q" "lq_open q"
  shows "\<exists>q1 q2. dispatch_notify lq_try_send q sh = Some (q, sh)
           \<and> lq_recv q = (Some (hd (lq_items q)), q1)
           \<and> dispatch_item lq_try_send q1 sh x = (True, q2, sh)
           \<and> lq_items q2 = tl (lq_items q) @ [x] \<and> event_overflow sh"
  using assms
  by (cases "lq_items q")
     (auto simp: dispatch_notify_def dispatch_item_def lq_try_send_def lq_recv_def)

end
