(* ===== verification/Esl_Reader.thy ===== *)
theory Esl_Reader
  imports Esl_Event_Formats Esl_Dispatch
begin

text \<open>
  The reader task of \<open>src/src/connection.rs\<close>: connection status, the handling of one message,
  the liveness check and the loop. What the reader shares with the rest of the program (shared
  state, status channel, event queue, reply channels) is the record \<open>world\<close>; the parser and the
  time of the last reception are its local variables.

  A read of the socket is an input: its result, the time at which it ends and what the other
  tasks did to the shared state and the queue while the reader was waiting. Times are in
  nanoseconds. A panic of the reader, which \<open>reader_loop\<close> turns into a status, cannot be
  expressed; every operation of the model is total.
\<close>

section \<open>Status\<close>

text \<open>\<open>PeerClosed\<close> is \<open>DisconnectReason::ConnectionClosed\<close>; \<open>EslError\<close> has a constructor of that name.\<close>

datatype DisconnectReason =
    ServerNotice
  | HeartbeatExpired
  | IoError string
  | PeerClosed
  | ClientRequested

datatype ConnectionStatus = Connected | Disconnected DisconnectReason

fun disconnect_reason_display :: "DisconnectReason \<Rightarrow> string" where
  "disconnect_reason_display ServerNotice = ''server sent disconnect notice''"
| "disconnect_reason_display HeartbeatExpired = ''liveness timeout expired''"
| "disconnect_reason_display (IoError msg) = ''I/O error: '' @ msg"
| "disconnect_reason_display PeerClosed = ''connection closed''"
| "disconnect_reason_display ClientRequested = ''client requested disconnect''"

section \<open>One message\<close>

record 'q world =
  w_shared :: SharedState
  w_status :: ConnectionStatus
  w_queue :: 'q
  w_replies :: "(nat \<times> EslMessage) list"

text \<open>How an iteration goes on: \<open>continue\<close>, \<open>return\<close>, or on to the read of the socket.\<close>

datatype 'a loop_ctl = Continue 'a | Return 'a | ReadMore 'a

text \<open>The code outside the repository the reader calls.\<close>

record ('q, 'v) reader_env =
  env_pdec :: "string \<Rightarrow> bytes"
  env_json :: "'v json_api"
  env_xml :: "string \<Rightarrow> xml_event list"
  env_send :: "'q \<Rightarrow> event_item \<Rightarrow> send_result \<times> 'q"

definition message_format :: "EslMessage \<Rightarrow> EventFormat" where
  "message_format m =
     (case fmlookup (msg_headers m) HEADER_CONTENT_TYPE of
        Some ct \<Rightarrow> from_content_type ct
      | None \<Rightarrow> Plain)"

definition handle_event :: "('q, 'v) reader_env \<Rightarrow> 'q world \<Rightarrow> EslMessage \<Rightarrow> 'q world loop_ctl" where
  "handle_event env w m =
     (let event_result = parse_event (env_pdec env) (env_json env) (env_xml env) m (message_format m)
      in case dispatch_event (env_send env) (w_queue w) (w_shared w) event_result of
           (ok, q', sh') \<Rightarrow>
             (let w' = w\<lparr>w_queue := q', w_shared := sh'\<rparr> in if ok then Continue w' else Return w'))"

definition handle_reply :: "'q world \<Rightarrow> EslMessage \<Rightarrow> 'q world" where
  "handle_reply w m =
     (case pending_reply (w_shared w) of
        Some tx \<Rightarrow> w\<lparr>w_shared := (w_shared w)\<lparr>pending_reply := None\<rparr>,
                     w_replies := w_replies w @ [(tx, m)]\<rparr>
      | None \<Rightarrow> w)"

definition handle_message :: "('q, 'v) reader_env \<Rightarrow> 'q world \<Rightarrow> EslMessage \<Rightarrow> 'q world loop_ctl" where
  "handle_message env w m =
     (case message_type m of
        EventMsg \<Rightarrow> handle_event env w m
      | CommandReply \<Rightarrow> Continue (handle_reply w m)
      | ApiResponse \<Rightarrow> Continue (handle_reply w m)
      | Disconnect \<Rightarrow>
          (if fmlookup (msg_headers m) ''Content-Disposition'' = Some ''linger'' then Continue w
           else Return (w\<lparr>w_status := Disconnected ServerNotice\<rparr>))
      | AuthRequest \<Rightarrow> Continue w
      | Unknown _ \<Rightarrow> Continue w)"

section \<open>The loop\<close>

record 'q reader =
  rd_parser :: EslParser
  rd_last_recv :: nat
  rd_world :: "'q world"

definition set_status :: "'q reader \<Rightarrow> DisconnectReason \<Rightarrow> 'q reader" where
  "set_status r d = r\<lparr>rd_world := (rd_world r)\<lparr>w_status := Disconnected d\<rparr>\<rparr>"

text \<open>The first half of an iteration: a message from the data received so far.\<close>

definition reader_parse :: "('q, 'v) reader_env \<Rightarrow> 'q reader \<Rightarrow> 'q reader loop_ctl" where
  "reader_parse env r =
     (case parse_message (env_pdec env) (rd_parser r) of
        (Inr (Some m), p') \<Rightarrow>
          (let r' = r\<lparr>rd_parser := p'\<rparr> in
           case handle_message env (rd_world r') m of
             Continue w' \<Rightarrow> Continue (r'\<lparr>rd_world := w'\<rparr>)
           | Return w' \<Rightarrow> Return (r'\<lparr>rd_world := w'\<rparr>)
           | ReadMore w' \<Rightarrow> ReadMore (r'\<lparr>rd_world := w'\<rparr>))
      | (Inr None, p') \<Rightarrow> ReadMore (r\<lparr>rd_parser := p'\<rparr>)
      | (Inl e, p') \<Rightarrow>
          Return (set_status (r\<lparr>rd_parser := p'\<rparr>) (IoError (esl_error_display e))))"

datatype read_result = ReadData bytes | ReadFail string | ReadTimeout

definition liveness_expired :: "u64 \<Rightarrow> nat \<Rightarrow> bool" where
  "liveness_expired threshold_ms elapsed =
     (threshold_ms > 0 \<and> elapsed > unat threshold_ms * 1000000)"

text \<open>The second half: the result of the read, at the time \<open>now\<close>.\<close>

definition reader_read :: "nat \<Rightarrow> read_result \<Rightarrow> 'q reader \<Rightarrow> 'q reader loop_ctl" where
  "reader_read now rr r =
     (case rr of
        ReadData d \<Rightarrow>
          (if d = [] then Return (set_status r PeerClosed)
           else
             (let r' = r\<lparr>rd_last_recv := now\<rparr> in
              case add_data (rd_parser r') d of
                (Inl e, p') \<Rightarrow>
                  Return (set_status (r'\<lparr>rd_parser := p'\<rparr>) (IoError (esl_error_display e)))
              | (Inr _, p') \<Rightarrow> Continue (r'\<lparr>rd_parser := p'\<rparr>)))
      | ReadFail e \<Rightarrow> Return (set_status r (IoError e))
      | ReadTimeout \<Rightarrow>
          (if liveness_expired (liveness_timeout_ms (w_shared (rd_world r))) (now - rd_last_recv r)
           then Return (set_status r HeartbeatExpired)
           else Continue r))"

lemma handle_message_no_read: "handle_message env w m \<noteq> ReadMore w'"
  by (auto simp: handle_message_def handle_event_def Let_def split: MessageType.splits prod.splits)

lemma reader_parse_shrinks:
  assumes "reader_parse env r = Continue r'"
  shows "2 * buf_len (pbuffer (rd_parser r')) + (if pstate (rd_parser r') = WaitingForHeaders then 0 else 1)
       < 2 * buf_len (pbuffer (rd_parser r)) + (if pstate (rd_parser r) = WaitingForHeaders then 0 else 1)"
proof -
  from assms obtain m p' where pm: "parse_message (env_pdec env) (rd_parser r) = (Inr (Some m), p')"
    and r': "rd_parser r' = p'"
    by (auto simp: reader_parse_def Let_def split: prod.splits sum.splits option.splits loop_ctl.splits)
  from parse_message_shrinks[OF pm] r' show ?thesis by (auto split: if_splits)
qed

text \<open>Iterations up to the next read: \<open>ReadMore\<close> when the data is used up, else \<open>Return\<close>.\<close>

function reader_drain :: "('q, 'v) reader_env \<Rightarrow> 'q reader \<Rightarrow> 'q reader loop_ctl" where
  "reader_drain env r =
     (case reader_parse env r of
        Continue r' \<Rightarrow> reader_drain env r'
      | Return r' \<Rightarrow> Return r'
      | ReadMore r' \<Rightarrow> ReadMore r')"
  by pat_completeness auto
termination
  by (relation "measure (\<lambda>(env, r). 2 * buf_len (pbuffer (rd_parser r))
        + (if pstate (rd_parser r) = WaitingForHeaders then 0 else 1))")
     (auto dest!: reader_parse_shrinks)

declare reader_drain.simps [simp del]

record 'q read_input =
  in_now :: nat
  in_result :: read_result
  in_others :: "'q world \<Rightarrow> 'q world"

fun reader_loop_inner :: "('q, 'v) reader_env \<Rightarrow> 'q reader \<Rightarrow> 'q read_input list \<Rightarrow> 'q reader loop_ctl" where
  "reader_loop_inner env r [] = reader_drain env r"
| "reader_loop_inner env r (i # is) =
     (case reader_drain env r of
        ReadMore r' \<Rightarrow>
          (case reader_read (in_now i) (in_result i) (r'\<lparr>rd_world := in_others i (rd_world r')\<rparr>) of
             Continue r'' \<Rightarrow> reader_loop_inner env r'' is
           | x \<Rightarrow> x)
      | x \<Rightarrow> x)"

section \<open>Handling a sequence of messages\<close>

fun handle_all :: "('q, 'v) reader_env \<Rightarrow> 'q world \<Rightarrow> EslMessage list \<Rightarrow> 'q world loop_ctl" where
  "handle_all env w [] = Continue w"
| "handle_all env w (m # ms) =
     (case handle_message env w m of Continue w' \<Rightarrow> handle_all env w' ms | x \<Rightarrow> x)"

lemma handle_all_append:
  "handle_all env w (xs @ ys) =
     (case handle_all env w xs of Continue w' \<Rightarrow> handle_all env w' ys | x \<Rightarrow> x)"
  by (induction env w xs rule: handle_all.induct) (auto split: loop_ctl.splits)

lemma handle_all_no_read: "handle_all env w ms \<noteq> ReadMore w'"
  by (induction env w ms rule: handle_all.induct)
     (auto simp: handle_message_no_read split: loop_ctl.splits)

text \<open>What the rest of the program sees of a reader that has handled a stream.\<close>

definition world_fail :: "'q world \<Rightarrow> EslError \<Rightarrow> 'q world" where
  "world_fail w e = w\<lparr>w_status := Disconnected (IoError (esl_error_display e))\<rparr>"

definition stream_outcome :: "('q, 'v) reader_env \<Rightarrow> 'q world
    \<Rightarrow> EslMessage list \<times> EslError option \<times> bytes \<Rightarrow> 'q world loop_ctl" where
  "stream_outcome env w f =
     (case f of (ms, e, rest) \<Rightarrow>
        (case handle_all env w ms of
           Continue w' \<Rightarrow> (case e of Some x \<Rightarrow> Return (world_fail w' x) | None \<Rightarrow> ReadMore w')
         | x \<Rightarrow> x))"

fun observed :: "'q reader loop_ctl \<Rightarrow> 'q world loop_ctl" where
  "observed (Continue r) = Continue (rd_world r)"
| "observed (Return r) = Return (rd_world r)"
| "observed (ReadMore r) = ReadMore (rd_world r)"

lemma reader_drain_frames:
  assumes "represents (env_pdec env) (rd_parser r) bs"
  shows "observed (reader_drain env r) = stream_outcome env (rd_world r) (frames (env_pdec env) bs)
       \<and> (\<forall>r'. reader_drain env r = ReadMore r' \<longrightarrow>
            represents (env_pdec env) (rd_parser r') (snd (snd (frames (env_pdec env) bs))))"
  using assms
proof (induction "env_pdec env" bs arbitrary: r rule: frames.induct)
  case (1 bs)
  note sim = parse_message_simulates[OF "1.prems"]
  obtain out p' where pm: "parse_message (env_pdec env) (rd_parser r) = (out, p')"
    by (cases "parse_message (env_pdec env) (rd_parser r)")
  show ?case
  proof (cases "next_frame (env_pdec env) bs")
    case NeedMore
    with sim pm have "out = Inr None" "represents (env_pdec env) p' bs" by (simp_all add: simulates_def)
    with pm NeedMore show ?thesis
      by (simp add: reader_drain.simps[of env r] reader_parse_def frames.simps[of _ bs] stream_outcome_def)
  next
    case (Bad e)
    with sim pm have "out = Inl e" by (simp add: simulates_def)
    with pm Bad show ?thesis
      by (simp add: reader_drain.simps[of env r] reader_parse_def frames.simps[of _ bs]
          stream_outcome_def set_status_def world_fail_def)
  next
    case (Frame m rest)
    with sim pm have o: "out = Inr (Some m)" and rep: "represents (env_pdec env) p' rest"
      by (simp_all add: simulates_def)
    obtain ms x where fr: "frames (env_pdec env) rest = (ms, x)" by (cases "frames (env_pdec env) rest")
    show ?thesis
    proof (cases "handle_message env (rd_world r) m")
      case (Continue w')
      let ?r = "r\<lparr>rd_parser := p', rd_world := w'\<rparr>"
      from "1.hyps"[OF Frame, of ?r] rep fr pm o Continue Frame show ?thesis
        by (simp add: reader_drain.simps[of env r] reader_parse_def frames.simps[of _ bs]
            stream_outcome_def split: prod.splits)
    next
      case (Return w')
      with pm o Frame fr show ?thesis
        by (auto simp: reader_drain.simps[of env r] reader_parse_def frames.simps[of _ bs]
            stream_outcome_def split: prod.splits)
    next
      case (ReadMore w')
      with handle_message_no_read show ?thesis by blast
    qed
  qed
qed

lemma stream_outcome_append:
  assumes "frames pdec bs = (ms, e, rest)"
  shows "stream_outcome env w (frames pdec (bs @ d)) =
           (case handle_all env w ms of
              Continue w' \<Rightarrow>
                (case e of Some x \<Rightarrow> Return (world_fail w' x)
                 | None \<Rightarrow> stream_outcome env w' (frames pdec (rest @ d)))
            | x \<Rightarrow> x)"
  using assms
  by (auto simp: frames_append[of pdec bs d] stream_outcome_def handle_all_append
      split: option.splits prod.splits loop_ctl.splits)

lemma represents_length: "represents pdec p bs \<Longrightarrow> length (buffer (pbuffer p)) \<le> length bs"
  by (auto simp: represents_def buf_data_def split: ParseState.splits)

lemma frames_rest_length: "length (snd (snd (frames pdec bs))) \<le> length bs"
proof (induction pdec bs rule: frames.induct)
  case (1 pdec bs)
  then show ?case
    by (cases "next_frame pdec bs")
       (auto simp: frames.simps[of pdec bs] dest!: next_frame_shorter split: prod.splits)
qed

definition data_input :: "nat \<times> bytes \<Rightarrow> 'q read_input" where
  "data_input tc = \<lparr>in_now = fst tc, in_result = ReadData (snd tc), in_others = id\<rparr>"

lemma data_input_simps [simp]:
  "in_now (data_input tc) = fst tc" "in_result (data_input tc) = ReadData (snd tc)"
  "in_others (data_input tc) = id"
  by (simp_all add: data_input_def)

lemma reader_read_data:
  assumes "d \<noteq> []" "represents pdec (rd_parser r) bs" "length bs + length d \<le> MAX_BUFFER_SIZE"
  shows "\<exists>r'. reader_read now (ReadData d) r = Continue r' \<and> rd_world r' = rd_world r
            \<and> represents pdec (rd_parser r') (bs @ d)"
proof -
  have "fst (add_data (rd_parser r) d) = Inr ()"
    using represents_length[OF assms(2)] assms(3)
    by (simp add: add_data_def check_size_limits_def extend_from_slice_def)
  then obtain p' where "add_data (rd_parser r) d = (Inr (), p')"
    by (cases "add_data (rd_parser r) d") auto
  with represents_add_data[OF assms(2), of d] assms(1) show ?thesis
    by (simp add: reader_read_def)
qed

lemma observed_cases:
  "observed x = ReadMore w \<Longrightarrow> \<exists>r. x = ReadMore r \<and> rd_world r = w"
  "observed x = Return w \<Longrightarrow> \<exists>r. x = Return r \<and> rd_world r = w"
  by (cases x; simp)+

text \<open>The buffer never overflows: what is left of the messages handled and the next read fit in it.
  The stream may be of any length.\<close>

fun within_buffer :: "(string \<Rightarrow> bytes) \<Rightarrow> bytes \<Rightarrow> bytes list \<Rightarrow> bool" where
  "within_buffer pdec bs [] = True"
| "within_buffer pdec bs (c # cs) =
     (let rest = snd (snd (frames pdec bs))
      in length rest + length c \<le> MAX_BUFFER_SIZE \<and> within_buffer pdec (rest @ c) cs)"

lemma within_buffer_total:
  "length bs + length (concat cs) \<le> MAX_BUFFER_SIZE \<Longrightarrow> within_buffer pdec bs cs"
proof (induction cs arbitrary: bs)
  case (Cons c cs)
  then show ?case
    using frames_rest_length[of pdec bs] Cons.IH[of "snd (snd (frames pdec bs)) @ c"] by (simp add: Let_def)
qed simp

lemma reader_loop_stream:
  assumes "represents (env_pdec env) (rd_parser r) bs"
    and "\<forall>tc \<in> set tcs. snd tc \<noteq> []"
    and "within_buffer (env_pdec env) bs (map snd tcs)"
  shows "observed (reader_loop_inner env r (map data_input tcs))
           = stream_outcome env (rd_world r) (frames (env_pdec env) (bs @ concat (map snd tcs)))"
  using assms
proof (induction tcs arbitrary: r bs)
  case Nil
  with reader_drain_frames[OF Nil.prems(1)] show ?case by simp
next
  case (Cons tc tcs)
  obtain ms e rest where fr: "frames (env_pdec env) bs = (ms, e, rest)"
    by (cases "frames (env_pdec env) bs")
  note dr = reader_drain_frames[OF Cons.prems(1), unfolded fr]
  note ap = stream_outcome_append[OF fr, of env "rd_world r" "snd tc @ concat (map snd tcs)"]
  show ?case
  proof (cases "handle_all env (rd_world r) ms")
    case (Return w')
    with dr have "observed (reader_drain env r) = Return w'" by (simp add: stream_outcome_def)
    from observed_cases(2)[OF this] ap Return show ?thesis by auto
  next
    case (ReadMore w')
    then show ?thesis by (simp add: handle_all_no_read)
  next
    case (Continue w')
    show ?thesis
    proof (cases e)
      case (Some x)
      with dr Continue have "observed (reader_drain env r) = Return (world_fail w' x)"
        by (simp add: stream_outcome_def)
      from observed_cases(2)[OF this] ap Continue Some show ?thesis by auto
    next
      case None
      with dr Continue have "observed (reader_drain env r) = ReadMore w'"
        by (simp add: stream_outcome_def)
      then obtain r1 where r1: "reader_drain env r = ReadMore r1" "rd_world r1 = w'"
        using observed_cases(1) by blast
      with dr have rep: "represents (env_pdec env) (rd_parser r1) rest" by simp
      have "length rest + length (snd tc) \<le> MAX_BUFFER_SIZE" using Cons.prems(3) fr by (simp add: Let_def)
      from reader_read_data[OF _ rep this, of "fst tc"] Cons.prems(2) obtain r2 where
        r2: "reader_read (fst tc) (ReadData (snd tc)) r1 = Continue r2" "rd_world r2 = w'"
          "represents (env_pdec env) (rd_parser r2) (rest @ snd tc)" using r1(2) by auto
      have "within_buffer (env_pdec env) (rest @ snd tc) (map snd tcs)"
        using Cons.prems(3) fr by (simp add: Let_def)
      from Cons.IH[OF r2(3) _ this] Cons.prems(2)
      have "observed (reader_loop_inner env r2 (map data_input tcs))
          = stream_outcome env w' (frames (env_pdec env) (rest @ snd tc @ concat (map snd tcs)))"
        by (simp add: r2(2))
      moreover have "reader_read (fst tc) (ReadData (snd tc)) (r1\<lparr>rd_world := w'\<rparr>) = Continue r2"
        using r1(2) r2(1) by auto
      ultimately show ?thesis using ap Continue None r1 by simp
    qed
  qed
qed

definition reader_start :: "EslParser \<Rightarrow> nat \<Rightarrow> 'q world \<Rightarrow> 'q reader" where
  "reader_start p now w = \<lparr>rd_parser = p, rd_last_recv = now, rd_world = w\<rparr>"

text \<open>What the reader does is a function of the byte stream alone. For a reader started on a fresh
  parser and any cutting of the stream into non-empty reads, as long as the buffer does not overflow,
  the events queued, the replies delivered, the shared state and the connection status it ends with
  are those of handling the messages of the whole stream one after the other, up to the first
  message that ends the loop or the first malformed frame, which is reported in the status.\<close>

theorem reader_stream_exact:
  assumes "\<forall>tc \<in> set tcs. snd tc \<noteq> []" "within_buffer (env_pdec env) [] (map snd tcs)"
  shows "observed (reader_loop_inner env (reader_start parser_new now w) (map data_input tcs))
           = stream_outcome env w (frames (env_pdec env) (concat (map snd tcs)))"
  using reader_loop_stream[of env "reader_start parser_new now w" "[]" tcs] assms
  by (simp add: reader_start_def)

text \<open>A small environment: the reference queue, no JSON, no XML.\<close>

definition sample_env :: "(event_item list_queue, sample_json) reader_env" where
  "sample_env =
     \<lparr>env_pdec = percent_decode_ref, env_json = sample_json_api, env_xml = (\<lambda>_. []),
      env_send = lq_try_send\<rparr>"

definition world_new :: "'q \<Rightarrow> 'q world" where
  "world_new q = \<lparr>w_shared = shared_new, w_status = Connected, w_queue = q, w_replies = []\<rparr>"

theorem reader_stream_exact_witness:
  "observed (reader_loop_inner sample_env (reader_start parser_new 0 (world_new sample_queue))
       (map data_input [(1, ''Content-Type: aut''), (2, ''h/request'' @ [NL, NL])]))
   = stream_outcome sample_env (world_new sample_queue)
       (frames (env_pdec sample_env) (''Content-Type: auth/request'' @ [NL, NL]))"
  using reader_stream_exact[of "[(1, ''Content-Type: aut''), (2, ''h/request'' @ [NL, NL])]" sample_env 0
      "world_new sample_queue"]
    within_buffer_total[of "[]" "[''Content-Type: aut'', ''h/request'' @ [NL, NL]]" "env_pdec sample_env"]
  by (simp add: MAX_BUFFER_SIZE_def)

section \<open>Routing\<close>

definition is_event :: "EslMessage \<Rightarrow> bool" where
  "is_event m = (message_type m = EventMsg)"

definition is_reply :: "EslMessage \<Rightarrow> bool" where
  "is_reply m = (message_type m = CommandReply \<or> message_type m = ApiResponse)"

definition ends_session :: "EslMessage \<Rightarrow> bool" where
  "ends_session m =
     (message_type m = Disconnect
      \<and> fmlookup (msg_headers m) ''Content-Disposition'' \<noteq> Some ''linger'')"

definition event_result :: "('q, 'v) reader_env \<Rightarrow> EslMessage \<Rightarrow> event_item" where
  "event_result env m = parse_event (env_pdec env) (env_json env) (env_xml env) m (message_format m)"

definition first_reply :: "nat option \<Rightarrow> EslMessage list \<Rightarrow> (nat \<times> EslMessage) list" where
  "first_reply pending ms =
     (case (pending, filter is_reply ms) of (Some tx, m # _) \<Rightarrow> [(tx, m)] | _ \<Rightarrow> [])"

lemma dispatch_keeps_pending:
  "dispatch_event try_send q sh x = (ok, q', sh') \<Longrightarrow> pending_reply sh' = pending_reply sh"
  by (auto simp: dispatch_event_def dispatch_notify_def dispatch_item_def
      split: prod.splits send_result.splits if_splits option.splits)

lemma handle_message_event:
  assumes ch: "event_channel items is_open capacity (env_send env) recv"
    and "is_event m" "is_open (w_queue w)" "\<not> event_overflow (w_shared w)"
      "length (items (w_queue w)) < capacity (w_queue w)"
  shows "\<exists>q'. handle_message env w m = Continue (w\<lparr>w_queue := q'\<rparr>)
           \<and> items q' = items (w_queue w) @ [event_result env m]
           \<and> is_open q' \<and> capacity q' = capacity (w_queue w)"
proof -
  from event_channel.send_ok[OF ch assms(3,5), of "event_result env m"] obtain q' where
    "env_send env (w_queue w) (event_result env m) = (SendOk, q')"
    "items q' = items (w_queue w) @ [event_result env m]" "is_open q'"
    "capacity q' = capacity (w_queue w)" by blast
  with assms(2,4) show ?thesis
    by (intro exI[of _ q'])
       (simp add: handle_message_def handle_event_def is_event_def event_result_def Let_def
        dispatch_event_def dispatch_notify_def dispatch_item_def)
qed

lemma handle_message_other:
  assumes "\<not> is_event m" "\<not> ends_session m"
  shows "handle_message env w m = Continue (if is_reply m then handle_reply w m else w)"
  using assms
  by (auto simp: handle_message_def is_event_def is_reply_def ends_session_def
      split: MessageType.splits)

lemma handle_reply_fields [simp]:
  "w_status (handle_reply w m) = w_status w" "w_queue (handle_reply w m) = w_queue w"
  "event_overflow (w_shared (handle_reply w m)) = event_overflow (w_shared w)"
  "dropped_event_count (w_shared (handle_reply w m)) = dropped_event_count (w_shared w)"
  "pending_reply (w_shared (handle_reply w m)) = None"
  by (simp_all add: handle_reply_def split: option.splits)

lemma handle_all_routes:
  assumes "event_channel items is_open capacity (env_send env) recv"
    and "is_open (w_queue w)" "\<not> event_overflow (w_shared w)"
    and "length (items (w_queue w)) + length (filter is_event ms) \<le> capacity (w_queue w)"
    and "\<forall>m \<in> set ms. \<not> ends_session m"
  shows "\<exists>w'. handle_all env w ms = Continue w'
           \<and> items (w_queue w') = items (w_queue w) @ map (event_result env) (filter is_event ms)
           \<and> w_replies w' = w_replies w @ first_reply (pending_reply (w_shared w)) ms
           \<and> w_status w' = w_status w
           \<and> dropped_event_count (w_shared w') = dropped_event_count (w_shared w)"
  using assms(2-5)
proof (induction ms arbitrary: w)
  case Nil
  then show ?case by (simp add: first_reply_def split: option.splits)
next
  case (Cons m ms)
  show ?case
  proof (cases "is_event m")
    case True
    with Cons.prems handle_message_event[OF assms(1) True, of w] obtain q' where
      hm: "handle_message env w m = Continue (w\<lparr>w_queue := q'\<rparr>)"
      and q': "items q' = items (w_queue w) @ [event_result env m]" "is_open q'"
        "capacity q' = capacity (w_queue w)" by auto
    have "\<not> is_reply m" using True by (auto simp: is_event_def is_reply_def)
    then have fr: "first_reply p (m # ms) = first_reply p ms" for p by (simp add: first_reply_def)
    from Cons.IH[of "w\<lparr>w_queue := q'\<rparr>"] Cons.prems q' True obtain w' where
      "handle_all env (w\<lparr>w_queue := q'\<rparr>) ms = Continue w'"
      "items (w_queue w') = items q' @ map (event_result env) (filter is_event ms)"
      "w_replies w' = w_replies w @ first_reply (pending_reply (w_shared w)) ms"
      "w_status w' = w_status w"
      "dropped_event_count (w_shared w') = dropped_event_count (w_shared w)" by auto
    with hm q' True fr show ?thesis by simp
  next
    case False
    define w1 where "w1 = (if is_reply m then handle_reply w m else w)"
    have hm: "handle_message env w m = Continue w1"
      using Cons.prems False by (simp add: w1_def handle_message_other)
    have w1: "w_queue w1 = w_queue w" "event_overflow (w_shared w1) = event_overflow (w_shared w)"
      "w_status w1 = w_status w"
      "dropped_event_count (w_shared w1) = dropped_event_count (w_shared w)"
      by (simp_all add: w1_def)
    have "w_replies w1 @ first_reply (pending_reply (w_shared w1)) ms
        = w_replies w @ first_reply (pending_reply (w_shared w)) (m # ms)"
      by (auto simp: w1_def first_reply_def handle_reply_def split: option.splits list.splits)
    with Cons.IH[of w1] Cons.prems False hm show ?thesis by (simp add: w1)
  qed
qed

lemma handle_message_ends:
  "ends_session m \<Longrightarrow> handle_message env w m = Return (w\<lparr>w_status := Disconnected ServerNotice\<rparr>)"
  by (simp add: ends_session_def handle_message_def)

text \<open>C12. Messages are routed by their type and in order, up to the first that ends the session: a
  disconnect notice whose disposition is not \<open>linger\<close>. Of the messages before it, as long as the queue has
  room, the queue gains exactly the parsed events (or their parse errors), in order; the first reply goes to
  the command that waits and every other reply to nobody, so a command never gets two replies and a reply never
  becomes an event; notices that linger and messages of other types change nothing. At the notice the status
  becomes \<open>ServerNotice\<close>, the reader returns, and what came after it is never handled; without one
  the reader goes on with its status unchanged.\<close>

theorem messages_routed:
  assumes "event_channel items is_open capacity (env_send env) recv"
    and "is_open (w_queue w)" "\<not> event_overflow (w_shared w)"
    and "hs = takeWhile (\<lambda>m. \<not> ends_session m) ms"
    and "length (items (w_queue w)) + length (filter is_event hs) \<le> capacity (w_queue w)"
  shows "\<exists>w'. handle_all env w ms
             = (if hs = ms then Continue w' else Return (w'\<lparr>w_status := Disconnected ServerNotice\<rparr>))
           \<and> items (w_queue w') = items (w_queue w) @ map (event_result env) (filter is_event hs)
           \<and> w_replies w' = w_replies w @ first_reply (pending_reply (w_shared w)) hs
           \<and> w_status w' = w_status w
           \<and> dropped_event_count (w_shared w') = dropped_event_count (w_shared w)"
proof -
  define rest where "rest = dropWhile (\<lambda>m. \<not> ends_session m) ms"
  have ms: "ms = hs @ rest" by (simp add: assms(4) rest_def)
  have "\<forall>m \<in> set hs. \<not> ends_session m" by (auto simp: assms(4) dest: set_takeWhileD)
  from handle_all_routes [OF assms(1-3,5) this] obtain w' where
    w': "handle_all env w hs = Continue w'"
    "items (w_queue w') = items (w_queue w) @ map (event_result env) (filter is_event hs)"
    "w_replies w' = w_replies w @ first_reply (pending_reply (w_shared w)) hs"
    "w_status w' = w_status w" "dropped_event_count (w_shared w') = dropped_event_count (w_shared w)"
    by blast
  have "handle_all env w ms
      = (if hs = ms then Continue w' else Return (w'\<lparr>w_status := Disconnected ServerNotice\<rparr>))"
  proof (cases rest)
    case Nil
    with w'(1) ms show ?thesis by simp
  next
    case (Cons m ms')
    then have "ends_session m" using hd_dropWhile [of "\<lambda>m. \<not> ends_session m" ms] by (simp add: rest_def)
    with Cons w'(1) show ?thesis by (simp add: ms handle_all_append handle_message_ends)
  qed
  with w' show ?thesis by blast
qed

definition sample_reply :: "string \<Rightarrow> EslMessage" where
  "sample_reply t = message_new CommandReply (fmap_of_list [(''Reply-Text'', t)]) None"

definition sample_notice :: "string \<Rightarrow> EslMessage" where
  "sample_notice d = message_new Disconnect (fmap_of_list [(''Content-Disposition'', d)]) None"

theorem messages_routed_witness:
  "\<exists>w'. handle_all sample_env
          (world_new sample_queue\<lparr>w_shared := shared_new\<lparr>pending_reply := Some 7\<rparr>\<rparr>)
          [sample_notice ''linger'', sample_reply ''+OK a'', sample_notice ''disconnect'', sample_reply ''+OK b'']
        = Return w'
     \<and> w_status w' = Disconnected ServerNotice \<and> w_replies w' = [(7, sample_reply ''+OK a'')]"
proof -
  let ?w = "world_new sample_queue\<lparr>w_shared := shared_new\<lparr>pending_reply := Some 7\<rparr>\<rparr>"
  let ?ms = "[sample_notice ''linger'', sample_reply ''+OK a'', sample_notice ''disconnect'', sample_reply ''+OK b'']"
  let ?hs = "[sample_notice ''linger'', sample_reply ''+OK a'']"
  have hs: "?hs = takeWhile (\<lambda>m. \<not> ends_session m) ?ms"
    by (simp add: sample_notice_def sample_reply_def message_new_def ends_session_def)
  have q: "lq_open (w_queue ?w)" "\<not> event_overflow (w_shared ?w)"
    "length (lq_items (w_queue ?w)) + length (filter is_event ?hs) \<le> lq_cap (w_queue ?w)"
    by (simp_all add: world_new_def sample_queue_def shared_new_def sample_notice_def sample_reply_def
        message_new_def is_event_def)
  have ch: "event_channel lq_items lq_open lq_cap (env_send sample_env) lq_recv"
    by (simp add: sample_env_def list_chan.event_channel_axioms)
  from messages_routed [OF ch q(1,2) hs q(3)] show ?thesis
    by (auto simp: world_new_def first_reply_def sample_notice_def sample_reply_def message_new_def is_reply_def
        shared_new_def)
qed

section \<open>Status\<close>

text \<open>The states between the first or second halves of the iterations of the loop, with the reads that are left.\<close>

inductive loop_reaches :: "('q, 'v) reader_env \<Rightarrow> 'q reader \<Rightarrow> 'q read_input list \<Rightarrow> 'q reader \<Rightarrow> 'q read_input list \<Rightarrow> bool"
  for env where
  here: "loop_reaches env r is r is"
| parsed: "reader_parse env r = Continue r1 \<Longrightarrow> loop_reaches env r1 is r' is' \<Longrightarrow> loop_reaches env r is r' is'"
| read: "reader_parse env r = ReadMore r1 \<Longrightarrow>
    reader_read (in_now i) (in_result i) (r1\<lparr>rd_world := in_others i (rd_world r1)\<rparr>) = Continue r2 \<Longrightarrow>
    loop_reaches env r2 is r' is' \<Longrightarrow> loop_reaches env r (i # is) r' is'"

text \<open>How the loop ends in a state: what must be the case there, and the status that is left behind.\<close>

definition ends_with :: "('q, 'v) reader_env \<Rightarrow> ('q \<Rightarrow> bool) \<Rightarrow> 'q reader \<Rightarrow> 'q read_input list \<Rightarrow> ConnectionStatus \<Rightarrow> bool" where
  "ends_with env is_open r is s =
     (case parse_message (env_pdec env) (rd_parser r) of
        (Inl e, _) \<Rightarrow> s = Disconnected (IoError (esl_error_display e))
      | (Inr (Some m), _) \<Rightarrow>
          if ends_session m then s = Disconnected ServerNotice
          else is_event m \<and> \<not> is_open (w_queue (rd_world r)) \<and> s = w_status (rd_world r)
      | (Inr None, p) \<Rightarrow>
          (case is of
             [] \<Rightarrow> False
           | i # _ \<Rightarrow>
               (case in_result i of
                  ReadData d \<Rightarrow>
                    if d = [] then s = Disconnected PeerClosed
                    else (let n = length (buffer (pbuffer p)) + length d in
                          MAX_BUFFER_SIZE < n
                          \<and> s = Disconnected (IoError (esl_error_display (BufferOverflow n MAX_BUFFER_SIZE))))
                | ReadFail e \<Rightarrow> s = Disconnected (IoError e)
                | ReadTimeout \<Rightarrow>
                    liveness_expired (liveness_timeout_ms (w_shared (in_others i (rd_world r))))
                      (in_now i - rd_last_recv r)
                    \<and> s = Disconnected HeartbeatExpired)))"

lemma handle_message_status:
  assumes "event_channel items is_open capacity (env_send env) recv"
  shows "case handle_message env w m of
     Continue w' \<Rightarrow> w_status w' = w_status w
   | Return w' \<Rightarrow>
       (if ends_session m then w_status w' = Disconnected ServerNotice
        else is_event m \<and> \<not> is_open (w_queue w) \<and> w_status w' = w_status w)
   | ReadMore w' \<Rightarrow> False"
proof (cases "message_type m")
  case EventMsg
  have "fst (dispatch_event (env_send env) q sh x)" if "is_open q" for q sh x
  proof -
    have "fst (env_send env q y) \<noteq> SendClosed \<and> is_open (snd (env_send env q y))" for y
      using event_channel.send_full [OF assms that, of y] event_channel.send_ok [OF assms that, of y] that
      by (cases "capacity q \<le> length (items q)") auto
    moreover have "fst (env_send env q' y) \<noteq> SendClosed" if "is_open q'" for q' y
      using event_channel.send_full [OF assms that, of y] event_channel.send_ok [OF assms that, of y]
      by (cases "capacity q' \<le> length (items q')") auto
    ultimately show ?thesis
      using that by (auto simp: dispatch_event_def dispatch_notify_def dispatch_item_def
          split: prod.splits send_result.splits option.splits) (metis fst_conv snd_conv)+
  qed
  with EventMsg show ?thesis
    by (auto simp: handle_message_def handle_event_def is_event_def ends_session_def Let_def split: prod.splits)
      (metis fst_conv)
qed (auto simp: handle_message_def handle_reply_def ends_session_def split: option.splits)

lemma reader_parse_status:
  assumes "event_channel items is_open capacity (env_send env) recv"
  shows "case reader_parse env r of
     Return r' \<Rightarrow> ends_with env is_open r is (w_status (rd_world r'))
   | Continue r' \<Rightarrow> w_status (rd_world r') = w_status (rd_world r)
   | ReadMore r' \<Rightarrow> \<exists>p. parse_message (env_pdec env) (rd_parser r) = (Inr None, p) \<and> r' = r\<lparr>rd_parser := p\<rparr>"
proof -
  obtain out p' where pm: "parse_message (env_pdec env) (rd_parser r) = (out, p')"
    by (cases "parse_message (env_pdec env) (rd_parser r)")
  show ?thesis
  proof (cases out)
    case (Inl e)
    with pm show ?thesis by (simp add: reader_parse_def set_status_def ends_with_def)
  next
    case (Inr o1)
    show ?thesis
    proof (cases o1)
      case None
      with pm Inr show ?thesis by (simp add: reader_parse_def)
    next
      case (Some m)
      with pm Inr handle_message_status [OF assms, of "rd_world r" m] show ?thesis
        by (cases "handle_message env (rd_world r) m") (simp_all add: reader_parse_def ends_with_def)
    qed
  qed
qed

lemma reader_read_status:
  assumes "parse_message (env_pdec env) (rd_parser r) = (Inr None, p)"
    and "w_status (in_others i (rd_world r)) = w_status (rd_world r)"
  shows "case reader_read (in_now i) (in_result i) (r\<lparr>rd_parser := p, rd_world := in_others i (rd_world r)\<rparr>) of
     Return r' \<Rightarrow> ends_with env is_open r (i # is) (w_status (rd_world r'))
   | Continue r' \<Rightarrow> w_status (rd_world r') = w_status (rd_world r)
   | ReadMore r' \<Rightarrow> False"
proof (cases "in_result i")
  case (ReadData d)
  with assms show ?thesis
    by (cases "d = []") (auto simp: reader_read_def ends_with_def set_status_def add_data_def check_size_limits_def
        extend_from_slice_def Let_def)
qed (use assms in \<open>simp_all add: reader_read_def ends_with_def set_status_def\<close>)

lemma loop_reaches_status:
  "loop_reaches env r is r' is' \<Longrightarrow> event_channel items is_open capacity (env_send env) recv
   \<Longrightarrow> \<forall>i \<in> set is. \<forall>w. w_status (in_others i w) = w_status w
   \<Longrightarrow> w_status (rd_world r') = w_status (rd_world r) \<and> set is' \<subseteq> set is"
proof (induction rule: loop_reaches.induct)
  case (parsed r r1 "is" r' is')
  with reader_parse_status [OF parsed.prems(1), of r "is"] show ?case by simp
next
  case (read r r1 i r2 "is" r' is')
  obtain p where p: "parse_message (env_pdec env) (rd_parser r) = (Inr None, p)" "r1 = r\<lparr>rd_parser := p\<rparr>"
    using reader_parse_status [OF read.prems(1), of r "is"] read.hyps(1) by auto
  with reader_read_status [OF p(1), of i is_open "is"] read show ?case by auto
qed simp

lemma loop_reaches_drain:
  "reader_drain env r = x \<Longrightarrow> \<exists>r1. loop_reaches env r is r1 is \<and> reader_parse env r1 = x
     \<and> (\<forall>r2. x \<noteq> Continue r2)"
proof (induction env r arbitrary: x rule: reader_drain.induct)
  case (1 env r)
  show ?case
  proof (cases "reader_parse env r")
    case (Continue r1)
    with "1.IH" [OF Continue, of x] "1.prems" show ?thesis
      by (auto simp: reader_drain.simps [of env r] intro: loop_reaches.parsed)
  qed (use "1.prems" in \<open>auto simp: reader_drain.simps [of env r] intro: loop_reaches.here\<close>)
qed

lemma loop_reaches_trans:
  "loop_reaches env r is r1 is1 \<Longrightarrow> loop_reaches env r1 is1 r2 is2 \<Longrightarrow> loop_reaches env r is r2 is2"
  by (induction rule: loop_reaches.induct) (auto intro: loop_reaches.intros)

lemma loop_ends:
  assumes ch: "event_channel items is_open capacity (env_send env) recv"
    and "\<forall>i \<in> set is. \<forall>w. w_status (in_others i w) = w_status w"
  shows "case reader_loop_inner env r is of
           Return r' \<Rightarrow> \<exists>r1 is1. loop_reaches env r is r1 is1 \<and> ends_with env is_open r1 is1 (w_status (rd_world r'))
         | ReadMore r' \<Rightarrow> \<exists>r1 p. loop_reaches env r is r1 [] \<and> r' = r1\<lparr>rd_parser := p\<rparr>
         | Continue r' \<Rightarrow> False"
  using assms
proof (induction env r "is" rule: reader_loop_inner.induct [case_names empty read])
  case (empty env r)
  obtain r1 where "loop_reaches env r [] r1 []" "reader_parse env r1 = reader_drain env r"
    "\<forall>r2. reader_drain env r \<noteq> Continue r2"
    using loop_reaches_drain [OF refl, of env r "[]"] by blast
  moreover note reader_parse_status [OF empty.prems(1), of r1 "[]"]
  ultimately show ?case
    by (cases "reader_drain env r") auto
next
  case (read env r i "is")
  obtain r1 where r1: "loop_reaches env r (i # is) r1 (i # is)" "reader_parse env r1 = reader_drain env r"
    "\<forall>r2. reader_drain env r \<noteq> Continue r2"
    using loop_reaches_drain [OF refl, of env r "i # is"] by blast
  note parse = reader_parse_status [OF read.prems(1), of r1 "i # is"]
  show ?case
  proof (cases "reader_drain env r")
    case (ReadMore r')
    with parse r1(2) obtain p where p: "parse_message (env_pdec env) (rd_parser r1) = (Inr None, p)" "r' = r1\<lparr>rd_parser := p\<rparr>"
      by auto
    let ?r = "r'\<lparr>rd_world := in_others i (rd_world r')\<rparr>"
    have eq: "?r = r1\<lparr>rd_parser := p, rd_world := in_others i (rd_world r1)\<rparr>" using p(2) by simp
    note st = reader_read_status [OF p(1), of i is_open "is", folded eq]
    show ?thesis
    proof (cases "reader_read (in_now i) (in_result i) ?r")
      case (Continue r2)
      have go: "loop_reaches env r (i # is) x y" if "loop_reaches env r2 is x y" for x y
        using loop_reaches_trans [OF r1(1) loop_reaches.read [OF _ Continue that]] r1(2) ReadMore by simp
      from read.IH [OF ReadMore Continue] read.prems have
        "case reader_loop_inner env r2 is of
           Return r' \<Rightarrow> \<exists>r1 is1. loop_reaches env r2 is r1 is1 \<and> ends_with env is_open r1 is1 (w_status (rd_world r'))
         | ReadMore r' \<Rightarrow> \<exists>r1 p. loop_reaches env r2 is r1 [] \<and> r' = r1\<lparr>rd_parser := p\<rparr>
         | Continue r' \<Rightarrow> False" by simp
      with go ReadMore Continue show ?thesis
        by (cases "reader_loop_inner env r2 is") auto
    qed (use st r1(1) ReadMore read.prems in auto)
  qed (use parse r1 in auto)
qed

text \<open>C24. The connection status changes at most once, when the reader ends, and it says why. For any reads and any
  interference of the other tasks (which do not own the sender of the status): in every state the loop goes
  through the status is the initial one, and also when the reads run out. When the loop returns, it does so in one of
  these states, and there: the parser had failed and the status is \<open>IoError\<close> with the parser's error; or a
  disconnect notice that does not linger was read and it is \<open>ServerNotice\<close>; or an event was read whose queue
  the application had closed, and the status is unchanged; or, the parser having nothing left, the read gave no bytes
  and it is \<open>PeerClosed\<close>, failed and it is \<open>IoError\<close> with that error, overflowed the buffer and it is
  \<open>IoError\<close> with the size and the limit, or timed out with the liveness threshold set and exceeded, and it is
  \<open>HeartbeatExpired\<close>.\<close>

theorem reader_status_lifecycle:
  assumes "event_channel items is_open capacity (env_send env) recv"
    and "\<forall>i \<in> set is. \<forall>w. w_status (in_others i w) = w_status w"
  shows "(\<forall>r1 is1. loop_reaches env r is r1 is1 \<longrightarrow> w_status (rd_world r1) = w_status (rd_world r))
       \<and> (case reader_loop_inner env r is of
           Return r' \<Rightarrow> \<exists>r1 is1. loop_reaches env r is r1 is1 \<and> ends_with env is_open r1 is1 (w_status (rd_world r'))
         | ReadMore r' \<Rightarrow> w_status (rd_world r') = w_status (rd_world r)
         | Continue r' \<Rightarrow> False)"
proof -
  have same: "\<forall>r1 is1. loop_reaches env r is r1 is1 \<longrightarrow> w_status (rd_world r1) = w_status (rd_world r)"
    using loop_reaches_status [OF _ assms] by blast
  with loop_ends [OF assms, of r] show ?thesis
    by (cases "reader_loop_inner env r is") auto
qed

theorem reader_status_lifecycle_witness:
  "case reader_loop_inner sample_env (reader_start parser_new 0 (world_new sample_queue))
          [\<lparr>in_now = 5, in_result = ReadData [], in_others = id\<rparr>] of
     Return r' \<Rightarrow> w_status (rd_world r') = Disconnected PeerClosed
       \<and> (\<exists>r1 is1. loop_reaches sample_env (reader_start parser_new 0 (world_new sample_queue))
             [\<lparr>in_now = 5, in_result = ReadData [], in_others = id\<rparr>] r1 is1
           \<and> ends_with sample_env lq_open r1 is1 (Disconnected PeerClosed))
   | ReadMore r' \<Rightarrow> False
   | Continue r' \<Rightarrow> False"
proof -
  let ?r = "reader_start parser_new 0 (world_new sample_queue)"
  let ?is = "[\<lparr>in_now = 5, in_result = ReadData [], in_others = id\<rparr>]"
  have "reader_drain sample_env ?r = ReadMore ?r"
    by (simp add: reader_drain.simps reader_parse_def parse_message_def reader_start_def parser_new_def
        extract_until_pattern_def find_pattern_def buf_new_def buf_data_def)
  then have run: "reader_loop_inner sample_env ?r ?is = Return (set_status ?r PeerClosed)"
    by (simp add: reader_read_def)
  have ch: "event_channel lq_items lq_open lq_cap (env_send sample_env) lq_recv"
    by (simp add: sample_env_def list_chan.event_channel_axioms)
  from reader_status_lifecycle [OF ch, of ?is ?r] run show ?thesis
    by (auto simp: set_status_def)
qed

section \<open>Liveness\<close>

text \<open>C26. The liveness timer is exact. On a silent connection (the reader has used up its data and every
  read times out, the last at time \<open>t\<close>), the reader ends with \<open>HeartbeatExpired\<close> if and only if a
  threshold is set and some timeout comes more than that many milliseconds after the last data; a
  threshold of 0 never ends it; the status is untouched otherwise.\<close>

theorem liveness_exact:
  assumes "reader_drain env r = ReadMore r"
  shows "reader_loop_inner env r (map (\<lambda>t. \<lparr>in_now = t, in_result = ReadTimeout, in_others = id\<rparr>) ts)
           = (let threshold = liveness_timeout_ms (w_shared (rd_world r)) in
              if threshold \<noteq> 0 \<and> (\<exists>t \<in> set ts. t - rd_last_recv r > unat threshold * 1000000)
              then Return (set_status r HeartbeatExpired) else ReadMore r)"
proof (induction ts)
  case Nil
  with assms show ?case by simp
next
  case (Cons t ts)
  have id: "r\<lparr>rd_world := rd_world r\<rparr> = r" by simp
  show ?case
  proof (cases "liveness_expired (liveness_timeout_ms (w_shared (rd_world r))) (t - rd_last_recv r)")
    case True
    with assms id show ?thesis
      by (simp add: reader_read_def liveness_expired_def Let_def word_gt_0)
  next
    case False
    with assms id Cons.IH show ?thesis
      by (simp add: reader_read_def liveness_expired_def Let_def word_gt_0)
  qed
qed

definition sample_idle_reader :: "event_item list_queue reader" where
  "sample_idle_reader =
     reader_start parser_new 0
       (world_new sample_queue\<lparr>w_shared := shared_new\<lparr>liveness_timeout_ms := 3\<rparr>\<rparr>)"

theorem liveness_exact_witness:
  "reader_loop_inner sample_env sample_idle_reader
     [\<lparr>in_now = 2000000, in_result = ReadTimeout, in_others = id\<rparr>,
      \<lparr>in_now = 4000000, in_result = ReadTimeout, in_others = id\<rparr>]
   = Return (set_status sample_idle_reader HeartbeatExpired)"
proof -
  have "reader_drain sample_env sample_idle_reader = ReadMore sample_idle_reader"
    by (simp add: reader_drain.simps reader_parse_def parse_message_def reader_start_def parser_new_def
        extract_until_pattern_def find_pattern_def buf_new_def buf_data_def sample_idle_reader_def)
  from liveness_exact[OF this, of "[2000000, 4000000]"] show ?thesis
    by (simp add: sample_idle_reader_def reader_start_def world_new_def)
qed

text \<open>C40. Dropping the event stream ends the reader silently. When the receiving end of the queue is gone,
  the first event message ends the reader with the status unchanged: the client goes on reporting
  itself connected although nobody reads the socket any more.\<close>

theorem closed_stream_keeps_connected:
  assumes "event_channel items is_open capacity (env_send env) recv"
    and "\<not> is_open (w_queue w)" "is_event m"
  shows "handle_message env w m = Return w"
  using dispatch_closed[OF assms(1,2)] assms(3)
  by (simp add: handle_message_def handle_event_def is_event_def Let_def)

theorem closed_stream_keeps_connected_witness:
  "handle_message sample_env (world_new (sample_queue\<lparr>lq_open := False\<rparr>))
     (message_new EventMsg fmempty (Some ''x''))
   = Return (world_new (sample_queue\<lparr>lq_open := False\<rparr>))"
  using closed_stream_keeps_connected[of lq_items lq_open lq_cap sample_env lq_recv
      "world_new (sample_queue\<lparr>lq_open := False\<rparr>)" "message_new EventMsg fmempty (Some ''x'')"]
    list_chan.event_channel_axioms
  by (simp add: sample_env_def world_new_def is_event_def message_new_def)

end
