(* ===== verification/Esl_Command.thy ===== *)
theory Esl_Command
  imports Wire_Lines Esl_Event
begin

text \<open>
  The command half of \<open>src/src/command.rs\<close>: validation, \<open>CommandBuilder\<close>, \<open>EslCommand\<close> with its
  \<open>Debug\<close> text and \<open>to_wire_format\<close>. The builder and the event hold their headers in a
  \<open>HashMap\<close>; the two orders in which the code iterates them are the arguments \<open>ord_ev\<close> (the
  event's map, read when the headers are copied) and \<open>ord_cb\<close> (the builder's map, read when the
  text is built). The constructors \<open>Log\<close> and \<open>Connect\<close> are \<open>LogLevel\<close> and \<open>ConnectCmd\<close>.
\<close>

type_synonym header_order = "headers \<Rightarrow> (string \<times> string) list"

section \<open>Validation and the builder\<close>

definition has_newline :: "string \<Rightarrow> bool" where
  "has_newline s = (NL \<in> set s \<or> CR \<in> set s)"

definition validate_no_newlines :: "string \<Rightarrow> string \<Rightarrow> unit EslResult" where
  "validate_no_newlines s context_name =
     (if has_newline s then Inl (ProtocolError (context_name @ '' must not contain newlines''))
      else Inr ())"

definition validate_opt :: "string option \<Rightarrow> string \<Rightarrow> unit EslResult" where
  "validate_opt o1 context_name =
     (case o1 of Some s \<Rightarrow> validate_no_newlines s context_name | None \<Rightarrow> Inr ())"

record CommandBuilder =
  cb_command :: string
  cb_headers :: headers
  cb_body :: "string option"

definition builder_new :: "string \<Rightarrow> CommandBuilder" where
  "builder_new c = \<lparr>cb_command = c, cb_headers = fmempty, cb_body = None\<rparr>"

definition builder_header :: "CommandBuilder \<Rightarrow> string \<Rightarrow> string \<Rightarrow> CommandBuilder EslResult" where
  "builder_header b name v =
     res_bind (validate_no_newlines name ''header name'') (\<lambda>_.
     res_bind (validate_no_newlines v ''header value'') (\<lambda>_.
     Inr (b\<lparr>cb_headers := fmupd name v (cb_headers b)\<rparr>)))"

definition builder_body :: "CommandBuilder \<Rightarrow> string \<Rightarrow> CommandBuilder" where
  "builder_body b body = b\<lparr>cb_body := Some body\<rparr>"

definition build :: "header_order \<Rightarrow> CommandBuilder \<Rightarrow> string" where
  "build ord_cb b =
     cb_command b @ LINE_TERMINATOR
     @ concat (map (\<lambda>(k, v). k @ '': '' @ v @ LINE_TERMINATOR) (ord_cb (cb_headers b)))
     @ (case cb_body b of
          Some body \<Rightarrow>
            ''Content-Length: '' @ nat_to_string (length body) @ LINE_TERMINATOR
            @ LINE_TERMINATOR @ body
        | None \<Rightarrow> LINE_TERMINATOR)"

text \<open>\<open>for (key, value) in event.headers() { builder = builder.header(key, value)?; }\<close>.\<close>

fun builder_headers :: "CommandBuilder \<Rightarrow> (string \<times> string) list \<Rightarrow> CommandBuilder EslResult" where
  "builder_headers b [] = Inr b"
| "builder_headers b ((k, v) # kvs) = res_bind (builder_header b k v) (\<lambda>b'. builder_headers b' kvs)"

text \<open>The tail shared by \<open>SendMsg\<close> and \<open>SendEvent\<close>.\<close>

definition build_event :: "header_order \<Rightarrow> header_order \<Rightarrow> string \<Rightarrow> EslEvent \<Rightarrow> string EslResult" where
  "build_event ord_ev ord_cb cmd_str ev =
     res_bind (builder_headers (builder_new cmd_str) (ord_ev (ev_headers ev))) (\<lambda>b.
       let b' = (case ev_body ev of Some body \<Rightarrow> builder_body b body | None \<Rightarrow> b)
       in Inr (build ord_cb b'))"

section \<open>Commands\<close>

datatype EslCommand =
    Auth string
  | UserAuth string string
  | Api string
  | BgApi string
  | Events string string
  | Filter string string
  | SendMsg "string option" EslEvent
  | Execute string "string option" "string option"
  | Exit
  | LogLevel string
  | NoLog
  | NoOp
  | SendEvent EslEvent
  | MyEvents string "string option"
  | Linger "u32 option"
  | NoLinger
  | Resume
  | NixEvent string
  | NoEvents
  | FilterDelete string "string option"
  | DivertEvents bool
  | GetVar string
  | ConnectCmd

text \<open>What the \<open>debug_struct\<close> calls are given: the name and the fields, before formatting.\<close>

datatype debug_value =
    DStr string
  | DOptStr "string option"
  | DOptNum "u32 option"
  | DBool bool
  | DEvent EslEvent

fun command_debug :: "EslCommand \<Rightarrow> string \<times> (string \<times> debug_value) list" where
  "command_debug (Auth a) = (''Auth'', [(''password'', DStr ''[REDACTED]'')])"
| "command_debug (UserAuth a b) = (''UserAuth'', [(''user'', DStr a), (''password'', DStr ''[REDACTED]'')])"
| "command_debug (Api a) = (''Api'', [(''command'', DStr a)])"
| "command_debug (BgApi a) = (''BgApi'', [(''command'', DStr a)])"
| "command_debug (Events a b) = (''Events'', [(''format'', DStr a), (''events'', DStr b)])"
| "command_debug (Filter a b) = (''Filter'', [(''header'', DStr a), (''value'', DStr b)])"
| "command_debug (SendMsg a b) = (''SendMsg'', [(''uuid'', DOptStr a), (''event'', DEvent b)])"
| "command_debug (Execute a b d) = (''Execute'', [(''app'', DStr a), (''args'', DOptStr b), (''uuid'', DOptStr d)])"
| "command_debug Exit = (''Exit'', [])"
| "command_debug (LogLevel a) = (''Log'', [(''level'', DStr a)])"
| "command_debug NoLog = (''NoLog'', [])"
| "command_debug NoOp = (''NoOp'', [])"
| "command_debug (SendEvent a) = (''SendEvent'', [(''event'', DEvent a)])"
| "command_debug (MyEvents a b) = (''MyEvents'', [(''format'', DStr a), (''uuid'', DOptStr b)])"
| "command_debug (Linger a) = (''Linger'', [(''timeout'', DOptNum a)])"
| "command_debug NoLinger = (''NoLinger'', [])"
| "command_debug Resume = (''Resume'', [])"
| "command_debug (NixEvent a) = (''NixEvent'', [(''events'', DStr a)])"
| "command_debug NoEvents = (''NoEvents'', [])"
| "command_debug (FilterDelete a b) = (''FilterDelete'', [(''header'', DStr a), (''value'', DOptStr b)])"
| "command_debug (DivertEvents a) = (''DivertEvents'', [(''on'', DBool a)])"
| "command_debug (GetVar a) = (''GetVar'', [(''name'', DStr a)])"
| "command_debug ConnectCmd = (''Connect'', [])"

definition format_simple_command :: "string \<Rightarrow> string list \<Rightarrow> string" where
  "format_simple_command cmd args = cmd @ concat (map (\<lambda>a. SP # a) args) @ HEADER_TERMINATOR"

definition sendmsg_wire ::
    "header_order \<Rightarrow> header_order \<Rightarrow> string option \<Rightarrow> EslEvent \<Rightarrow> string EslResult" where
  "sendmsg_wire ord_ev ord_cb uuid ev =
     res_bind (validate_opt uuid ''sendmsg uuid'') (\<lambda>_.
       build_event ord_ev ord_cb
         (''sendmsg'' @ (case uuid of Some u \<Rightarrow> SP # u | None \<Rightarrow> [])) ev)"

definition execute_event :: "string \<Rightarrow> string option \<Rightarrow> EslEvent" where
  "execute_event app args =
     (let ev = set_header (set_header event_new ''call-command'' ''execute'') ''execute-app-name'' app
      in case args of Some a \<Rightarrow> set_header ev ''execute-app-arg'' a | None \<Rightarrow> ev)"

definition sendevent_name :: "EslEvent \<Rightarrow> string" where
  "sendevent_name ev =
     (case event_type ev of
        Some t \<Rightarrow> event_type_display t
      | None \<Rightarrow> (case header ev ''Event-Name'' of Some n \<Rightarrow> n | None \<Rightarrow> ''CUSTOM''))"

text \<open>\<open>checked fs s\<close>: the validations \<open>fs\<close> in order, then the text \<open>s\<close>.\<close>

fun checked :: "(string \<times> string) list \<Rightarrow> string \<Rightarrow> string EslResult" where
  "checked [] s = Inr s"
| "checked ((f, ctx) # fs) s = res_bind (validate_no_newlines f ctx) (\<lambda>_. checked fs s)"

definition opt_field :: "string option \<Rightarrow> string \<Rightarrow> (string \<times> string) list" where
  "opt_field o1 ctx = (case o1 of Some s \<Rightarrow> [(s, ctx)] | None \<Rightarrow> [])"

fun to_wire_format :: "header_order \<Rightarrow> header_order \<Rightarrow> EslCommand \<Rightarrow> string EslResult" where
  "to_wire_format ord_ev ord_cb (Auth password) =
     checked [(password, ''password'')] (format_simple_command ''auth'' [password])"
| "to_wire_format ord_ev ord_cb (UserAuth user password) =
     checked [(user, ''user''), (password, ''password'')]
       (format_simple_command ''userauth'' [user @ COLON # password])"
| "to_wire_format ord_ev ord_cb (Api command) =
     checked [(command, ''api command'')] (format_simple_command ''api'' [command])"
| "to_wire_format ord_ev ord_cb (BgApi command) =
     checked [(command, ''bgapi command'')] (format_simple_command ''bgapi'' [command])"
| "to_wire_format ord_ev ord_cb (Events fmt events) =
     checked [(fmt, ''event format''), (events, ''event list'')]
       (format_simple_command ''event'' [fmt, events])"
| "to_wire_format ord_ev ord_cb (Filter h v) =
     checked [(h, ''filter header''), (v, ''filter value'')] (format_simple_command ''filter'' [h, v])"
| "to_wire_format ord_ev ord_cb (SendMsg uuid ev) = sendmsg_wire ord_ev ord_cb uuid ev"
| "to_wire_format ord_ev ord_cb (Execute app args uuid) =
     res_bind (checked ([(app, ''execute app'')] @ opt_field args ''execute args''
         @ opt_field uuid ''execute uuid'') [])
       (\<lambda>_. sendmsg_wire ord_ev ord_cb uuid (execute_event app args))"
| "to_wire_format ord_ev ord_cb Exit = Inr (format_simple_command ''exit'' [])"
| "to_wire_format ord_ev ord_cb (LogLevel level) =
     checked [(level, ''log level'')] (format_simple_command ''log'' [level])"
| "to_wire_format ord_ev ord_cb NoLog = Inr (format_simple_command ''nolog'' [])"
| "to_wire_format ord_ev ord_cb NoOp = Inr (format_simple_command ''noop'' [])"
| "to_wire_format ord_ev ord_cb (SendEvent ev) =
     build_event ord_ev ord_cb (''sendevent '' @ sendevent_name ev) ev"
| "to_wire_format ord_ev ord_cb (MyEvents fmt uuid) =
     checked ([(fmt, ''myevents format'')] @ opt_field uuid ''myevents uuid'')
       (case uuid of
          Some u \<Rightarrow> format_simple_command ''myevents'' [u, fmt]
        | None \<Rightarrow> format_simple_command ''myevents'' [fmt])"
| "to_wire_format ord_ev ord_cb (Linger timeout) =
     Inr (case timeout of
            Some n \<Rightarrow> format_simple_command ''linger'' [nat_to_string (unat n)]
          | None \<Rightarrow> format_simple_command ''linger'' [])"
| "to_wire_format ord_ev ord_cb NoLinger = Inr (format_simple_command ''nolinger'' [])"
| "to_wire_format ord_ev ord_cb Resume = Inr (format_simple_command ''resume'' [])"
| "to_wire_format ord_ev ord_cb (NixEvent events) =
     checked [(events, ''nixevent list'')] (format_simple_command ''nixevent'' [events])"
| "to_wire_format ord_ev ord_cb NoEvents = Inr (format_simple_command ''noevents'' [])"
| "to_wire_format ord_ev ord_cb (FilterDelete h v) =
     checked ([(h, ''filter delete header'')] @ opt_field v ''filter delete value'')
       (if h = ''all'' then format_simple_command ''filter'' [''delete'', ''all'']
        else (case v of
                Some w \<Rightarrow> format_simple_command ''filter'' [''delete'', h, w]
              | None \<Rightarrow> format_simple_command ''filter'' [''delete'', h]))"
| "to_wire_format ord_ev ord_cb (DivertEvents on) =
     Inr (format_simple_command ''divert_events'' [if on then ''on'' else ''off''])"
| "to_wire_format ord_ev ord_cb (GetVar name) =
     checked [(name, ''getvar name'')] (format_simple_command ''getvar'' [name])"
| "to_wire_format ord_ev ord_cb ConnectCmd = Inr (format_simple_command ''connect'' [])"

section \<open>Redaction\<close>

text \<open>C36. Passwords never reach a log. The \<open>Debug\<close> text of a command is independent of the password
  of \<open>Auth\<close> and \<open>UserAuth\<close>, and it hides nothing else: two commands print alike exactly when they
  are equal, or both are \<open>Auth\<close>, or both are \<open>UserAuth\<close> for the same user.\<close>

theorem debug_redacts_passwords:
  "command_debug c = command_debug d \<longleftrightarrow>
     c = d \<or> (\<exists>p q. c = Auth p \<and> d = Auth q) \<or> (\<exists>u p q. c = UserAuth u p \<and> d = UserAuth u q)"
  by (cases c; cases d) auto

section \<open>Injection safety\<close>

text \<open>The text a caller controls, by command.\<close>

definition opt_texts :: "string option \<Rightarrow> string list" where
  "opt_texts o1 = (case o1 of Some s \<Rightarrow> [s] | None \<Rightarrow> [])"

definition event_texts :: "EslEvent \<Rightarrow> string list" where
  "event_texts ev = concat (map (\<lambda>(k, v). [k, v]) (sorted_list_of_fmap (ev_headers ev)))"

fun command_texts :: "EslCommand \<Rightarrow> string list" where
  "command_texts (Auth p) = [p]"
| "command_texts (UserAuth u p) = [u, p]"
| "command_texts (Api c) = [c]"
| "command_texts (BgApi c) = [c]"
| "command_texts (Events f e) = [f, e]"
| "command_texts (Filter h v) = [h, v]"
| "command_texts (SendMsg u ev) = opt_texts u @ event_texts ev"
| "command_texts (Execute a args u) = a # opt_texts args @ opt_texts u"
| "command_texts (LogLevel l) = [l]"
| "command_texts (SendEvent ev) = event_texts ev"
| "command_texts (MyEvents f u) = f # opt_texts u"
| "command_texts (NixEvent e) = [e]"
| "command_texts (FilterDelete h v) = h # opt_texts v"
| "command_texts (GetVar n) = [n]"
| "command_texts _ = []"

fun command_word :: "EslCommand \<Rightarrow> string" where
  "command_word (Auth _) = ''auth''"
| "command_word (UserAuth _ _) = ''userauth''"
| "command_word (Api _) = ''api''"
| "command_word (BgApi _) = ''bgapi''"
| "command_word (Events _ _) = ''event''"
| "command_word (Filter _ _) = ''filter''"
| "command_word (SendMsg _ _) = ''sendmsg''"
| "command_word (Execute _ _ _) = ''sendmsg''"
| "command_word Exit = ''exit''"
| "command_word (LogLevel _) = ''log''"
| "command_word NoLog = ''nolog''"
| "command_word NoOp = ''noop''"
| "command_word (SendEvent _) = ''sendevent''"
| "command_word (MyEvents _ _) = ''myevents''"
| "command_word (Linger _) = ''linger''"
| "command_word NoLinger = ''nolinger''"
| "command_word Resume = ''resume''"
| "command_word (NixEvent _) = ''nixevent''"
| "command_word NoEvents = ''noevents''"
| "command_word (FilterDelete _ _) = ''filter''"
| "command_word (DivertEvents _) = ''divert_events''"
| "command_word (GetVar _) = ''getvar''"
| "command_word ConnectCmd = ''connect''"

text \<open>
  One command on the wire: lines without line breaks of which the first starts with the word
  of the command, a blank line, and a body counted by the last header line.
\<close>

definition words :: "string \<Rightarrow> string list \<Rightarrow> string" where
  "words w args = w @ concat (map (\<lambda>a. SP # a) args)"

definition clean_line :: "string \<Rightarrow> bool" where
  "clean_line l = (l \<noteq> [] \<and> \<not> has_newline l)"

definition one_command :: "string \<Rightarrow> string list \<Rightarrow> string \<Rightarrow> string \<Rightarrow> bool" where
  "one_command w ls body s =
     (ls \<noteq> [] \<and> (\<forall>l \<in> set ls. clean_line l) \<and> starts_with w (hd ls)
      \<and> s = block ls @ NL # body
      \<and> (body \<noteq> [] \<longrightarrow> last ls = ''Content-Length: '' @ nat_to_string (length body)))"

named_theorems clean_simps

lemma has_newline_simps [clean_simps]:
  "\<not> has_newline []"
  "has_newline (c # s) \<longleftrightarrow> c = NL \<or> c = CR \<or> has_newline s"
  "has_newline (s @ t) \<longleftrightarrow> has_newline s \<or> has_newline t"
  by (auto simp: has_newline_def)

lemma validate_iff [clean_simps]: "validate_no_newlines s ctx = Inr () \<longleftrightarrow> \<not> has_newline s"
  by (simp add: validate_no_newlines_def)

lemma validate_ok: "\<not> has_newline s \<Longrightarrow> validate_no_newlines s ctx = Inr ()"
  by (simp add: validate_no_newlines_def)

lemma checked_ok: "\<forall>(f, ctx) \<in> set fs. \<not> has_newline f \<Longrightarrow> checked fs s = Inr s"
  by (induction fs s rule: checked.induct) (auto simp: validate_ok)

lemma checked_Inr_iff: "checked fs s = Inr t \<longleftrightarrow> t = s \<and> (\<forall>(f, ctx) \<in> set fs. \<not> has_newline f)"
  by (induction fs s rule: checked.induct) (auto simp: validate_no_newlines_def)

definition newline_error :: "EslError \<Rightarrow> bool" where
  "newline_error e = (\<exists>ctx. e = ProtocolError (ctx @ '' must not contain newlines''))"

lemma validate_Inl: "validate_no_newlines s ctx = Inl e \<Longrightarrow> newline_error e"
  by (auto simp: validate_no_newlines_def newline_error_def split: if_splits)

lemma checked_Inl: "checked fs s = Inl e \<Longrightarrow> newline_error e"
  by (induction fs s rule: checked.induct) (auto simp: res_bind_eq_Inl intro: validate_Inl)

lemma builder_headers_ok:
  "\<forall>(k, v) \<in> set kvs. \<not> has_newline k \<and> \<not> has_newline v \<Longrightarrow>
   builder_headers b kvs = Inr (b\<lparr>cb_headers := fold (\<lambda>(k, v). fmupd k v) kvs (cb_headers b)\<rparr>)"
  by (induction b kvs rule: builder_headers.induct) (auto simp: builder_header_def validate_ok)

lemma builder_headers_Inr:
  "builder_headers b kvs = Inr b' \<Longrightarrow> \<forall>(k, v) \<in> set kvs. \<not> has_newline k \<and> \<not> has_newline v"
  by (induction b kvs rule: builder_headers.induct)
     (auto simp: builder_header_def res_bind_eq_Inr validate_iff)

lemma builder_headers_Inl: "builder_headers b kvs = Inl e \<Longrightarrow> newline_error e"
  by (induction b kvs rule: builder_headers.induct)
     (auto simp: builder_header_def res_bind_eq_Inl intro: validate_Inl)

lemma event_texts_clean:
  "(\<forall>t \<in> set (event_texts ev). \<not> has_newline t) \<longleftrightarrow>
   (\<forall>k v. fmlookup (ev_headers ev) k = Some v \<longrightarrow> \<not> has_newline k \<and> \<not> has_newline v)"
proof -
  have "(\<forall>t \<in> set (event_texts ev). \<not> has_newline t) \<longleftrightarrow>
      (\<forall>k v. (k, v) \<in> set (sorted_list_of_fmap (ev_headers ev)) \<longrightarrow> \<not> has_newline k \<and> \<not> has_newline v)"
    by (force simp: event_texts_def)
  then show ?thesis by (simp only: set_sorted_list_of_fmap)
qed

definition event_clean :: "EslEvent \<Rightarrow> bool" where
  "event_clean ev = (\<forall>t \<in> set (event_texts ev). \<not> has_newline t)"

lemma build_event_cases:
  assumes "map_order ord_ev"
  shows "if event_clean ev
         then build_event ord_ev ord_cb c ev =
                Inr (build ord_cb \<lparr>cb_command = c, cb_headers = ev_headers ev, cb_body = ev_body ev\<rparr>)
         else \<exists>e. build_event ord_ev ord_cb c ev = Inl e \<and> newline_error e"
proof (cases "event_clean ev")
  case True
  then have "\<forall>(k, v) \<in> set (ord_ev (ev_headers ev)). \<not> has_newline k \<and> \<not> has_newline v"
    by (auto simp: event_clean_def event_texts_clean map_order.entries_iff[OF assms])
  moreover have "fold (\<lambda>(k, v). fmupd k v) (ord_ev (ev_headers ev)) fmempty = ev_headers ev"
    using fold_fmupd_of_list[OF map_order.entries_distinct[OF assms], of "\<lambda>v. v" "ev_headers ev"]
    by (simp add: map_order.entries_map[OF assms])
  ultimately show ?thesis
    using True by (simp add: build_event_def builder_headers_ok builder_new_def builder_body_def
        split: option.splits)
next
  case False
  then have "\<not> (\<forall>(k, v) \<in> set (ord_ev (ev_headers ev)). \<not> has_newline k \<and> \<not> has_newline v)"
    by (auto simp: event_clean_def event_texts_clean map_order.entries_iff[OF assms])
  then obtain e where "builder_headers (builder_new c) (ord_ev (ev_headers ev)) = Inl e"
    using builder_headers_Inr by (cases "builder_headers (builder_new c) (ord_ev (ev_headers ev))") blast+
  with False show ?thesis by (simp add: build_event_def builder_headers_Inl)
qed

definition built_lines :: "header_order \<Rightarrow> string \<Rightarrow> EslEvent \<Rightarrow> string list" where
  "built_lines ord_cb c ev =
     c # map raw_line (ord_cb (ev_headers ev))
       @ (case ev_body ev of Some b \<Rightarrow> [''Content-Length: '' @ nat_to_string (length b)] | None \<Rightarrow> [])"

lemma build_one_command:
  assumes "map_order ord_cb" "event_clean ev" "clean_line c" "starts_with w c"
  shows "one_command w (built_lines ord_cb c ev) (case ev_body ev of Some b \<Rightarrow> b | None \<Rightarrow> [])
           (build ord_cb \<lparr>cb_command = c, cb_headers = ev_headers ev, cb_body = ev_body ev\<rparr>)"
proof -
  let ?ls = "built_lines ord_cb c ev"
  have "\<not> has_newline (nat_to_string n)" for n
    by (simp add: has_newline_def nat_to_string_notin)
  then have "\<forall>l \<in> set ?ls. clean_line l"
    using assms(2,3)
    by (auto simp: built_lines_def clean_line_def clean_simps event_clean_def event_texts_clean raw_line_def
        map_order.entries_iff[OF assms(1)] split: option.splits)
  then show ?thesis
    using assms(4)
    by (auto simp: built_lines_def one_command_def build_def block_def raw_line_def comp_def case_prod_unfold
        split: option.splits)
qed

lemma event_type_display_clean: "clean_line (event_type_display t)"
proof -
  have "list_all clean_line (map snd event_type_names)"
    unfolding event_type_names_wire by code_simp
  moreover have "event_type_display t \<in> snd ` set event_type_names"
    using event_type_names_total[of t] event_type_names_display by force
  ultimately show ?thesis by (auto simp: list_all_iff)
qed

lemma sendevent_name_clean: "event_clean ev \<Longrightarrow> \<not> has_newline (sendevent_name ev)"
  using event_type_display_clean
  by (auto simp: sendevent_name_def clean_line_def event_clean_def event_texts_clean header_def
      clean_simps split: option.splits)

lemma words_clean:
  "clean_line w \<Longrightarrow> \<forall>a \<in> set args. \<not> has_newline a \<Longrightarrow> clean_line (words w args) \<and> starts_with w (words w args)"
proof -
  assume w: "clean_line w" and a: "\<forall>a \<in> set args. \<not> has_newline a"
  from a have "\<not> has_newline (concat (map (\<lambda>a. SP # a) args))"
    by (induction args) (auto simp: clean_simps)
  with w show ?thesis by (auto simp: words_def clean_line_def clean_simps starts_with_iff)
qed

lemma simple_one_command:
  assumes "clean_line w" "\<forall>a \<in> set args. \<not> has_newline a"
  shows "\<exists>ls. one_command w ls [] (format_simple_command w args)"
  using words_clean[OF assms]
  by (intro exI[of _ "[words w args]"])
     (simp add: one_command_def format_simple_command_def words_def)

lemma sendmsg_one_command:
  assumes "map_order ord_ev" "map_order ord_cb" "sendmsg_wire ord_ev ord_cb uuid ev = Inr s"
  shows "one_command ''sendmsg'' (built_lines ord_cb (''sendmsg'' @ (case uuid of Some u \<Rightarrow> SP # u | None \<Rightarrow> [])) ev)
           (case ev_body ev of Some b \<Rightarrow> b | None \<Rightarrow> []) s"
proof -
  let ?c = "''sendmsg'' @ (case uuid of Some u \<Rightarrow> SP # u | None \<Rightarrow> [])"
  from assms(3) have u: "validate_opt uuid ''sendmsg uuid'' = Inr ()"
    and b: "build_event ord_ev ord_cb ?c ev = Inr s" by (auto simp: sendmsg_wire_def res_bind_eq_Inr)
  then have c: "clean_line ?c"
    by (auto simp: validate_opt_def clean_line_def clean_simps split: option.splits)
  from build_event_cases[OF assms(1), of ev ord_cb ?c] b have "event_clean ev"
    and s: "s = build ord_cb \<lparr>cb_command = ?c, cb_headers = ev_headers ev, cb_body = ev_body ev\<rparr>"
    by (auto split: if_splits)
  with build_one_command[OF assms(2) _ c, of ev "''sendmsg''"] show ?thesis
    by (auto simp: starts_with_def)
qed

lemma sendevent_one_command:
  assumes "map_order ord_ev" "map_order ord_cb"
    "build_event ord_ev ord_cb (''sendevent '' @ sendevent_name ev) ev = Inr s"
  shows "one_command ''sendevent'' (built_lines ord_cb (''sendevent '' @ sendevent_name ev) ev)
           (case ev_body ev of Some b \<Rightarrow> b | None \<Rightarrow> []) s"
proof -
  let ?c = "''sendevent '' @ sendevent_name ev"
  from build_event_cases[OF assms(1), of ev ord_cb ?c] assms(3) have ev: "event_clean ev"
    and s: "s = build ord_cb \<lparr>cb_command = ?c, cb_headers = ev_headers ev, cb_body = ev_body ev\<rparr>"
    by (auto split: if_splits)
  have c: "clean_line ?c" using sendevent_name_clean[OF ev] by (simp add: clean_line_def clean_simps)
  have "starts_with ''sendevent'' ?c" by (simp add: starts_with_def)
  from build_one_command[OF assms(2) ev c this] show ?thesis unfolding s by blast
qed

lemma nat_to_string_no_newline: "\<not> has_newline (nat_to_string n)"
  by (simp add: has_newline_def nat_to_string_notin)

lemma command_word_clean: "clean_line (command_word c)"
  by (cases c) (simp_all add: clean_line_def clean_simps)

lemma one_command_blank:
  "one_command w ls body s \<Longrightarrow> find_sub [NL, NL] s = Some (length (join [NL] ls))"
  unfolding one_command_def
  by (auto simp: clean_line_def has_newline_def wire_line_def intro!: find_blank_block)

text \<open>All the commands without an event are one line, built from the validated texts.\<close>

definition simple_wire :: "string EslResult \<Rightarrow> string \<Rightarrow> string list \<Rightarrow> bool" where
  "simple_wire r w texts =
     (\<exists>fs args. r = checked fs (format_simple_command w args) \<and> map fst fs = texts
        \<and> ((\<forall>t \<in> set texts. \<not> has_newline t) \<longrightarrow> (\<forall>a \<in> set args. \<not> has_newline a)))"

lemma simple_wire_checked:
  "map fst fs = texts \<Longrightarrow>
   ((\<forall>t \<in> set texts. \<not> has_newline t) \<Longrightarrow> (\<forall>a \<in> set args. \<not> has_newline a)) \<Longrightarrow>
   simple_wire (checked fs (format_simple_command w args)) w texts"
  unfolding simple_wire_def by blast

lemma simple_wire_plain:
  "(\<forall>a \<in> set args. \<not> has_newline a) \<Longrightarrow> simple_wire (Inr (format_simple_command w args)) w []"
  using simple_wire_checked[of "[]" "[]" args w] by simp

fun event_command :: "EslCommand \<Rightarrow> bool" where
  "event_command (SendMsg _ _) = True"
| "event_command (Execute _ _ _) = True"
| "event_command (SendEvent _) = True"
| "event_command _ = False"

lemma to_wire_simple:
  "\<not> event_command c \<Longrightarrow> simple_wire (to_wire_format ord_ev ord_cb c) (command_word c) (command_texts c)"
  by (cases c)
     (auto intro!: simple_wire_checked simple_wire_plain
       simp: opt_field_def opt_texts_def clean_simps nat_to_string_no_newline
       simp del: checked.simps split: option.splits)

lemma fst_checks: "map fst fs = texts \<Longrightarrow> (\<forall>(f, ctx) \<in> set fs. P f) \<longleftrightarrow> (\<forall>t \<in> set texts. P t)"
  by force

lemma checked_fail:
  assumes "\<not> (\<forall>(f, ctx) \<in> set fs. \<not> has_newline f)"
  shows "\<exists>e. checked fs s = Inl e \<and> newline_error e"
  using assms checked_Inr_iff[of fs s] checked_Inl[of fs s] by (cases "checked fs s") blast+

lemma to_wire_one_command:
  assumes "map_order ord_ev" "map_order ord_cb" "to_wire_format ord_ev ord_cb c = Inr s"
  shows "\<exists>ls body. one_command (command_word c) ls body s"
proof (cases "event_command c")
  case True
  then consider (msg) u ev where "sendmsg_wire ord_ev ord_cb u ev = Inr s" "command_word c = ''sendmsg''"
    | (event) ev where "build_event ord_ev ord_cb (''sendevent '' @ sendevent_name ev) ev = Inr s"
        "command_word c = ''sendevent''"
    using assms(3) by (cases c) (auto simp: res_bind_eq_Inr simp del: checked.simps)
  then show ?thesis
  proof cases
    case msg
    then show ?thesis using sendmsg_one_command[OF assms(1,2) msg(1)] by auto
  next
    case event
    then show ?thesis using sendevent_one_command[OF assms(1,2) event(1)] by auto
  qed
next
  case False
  from to_wire_simple[OF this, of ord_ev ord_cb] obtain fs args where
    w: "to_wire_format ord_ev ord_cb c = checked fs (format_simple_command (command_word c) args)"
      "map fst fs = command_texts c"
      "(\<forall>t \<in> set (command_texts c). \<not> has_newline t) \<longrightarrow> (\<forall>a \<in> set args. \<not> has_newline a)"
    unfolding simple_wire_def by blast
  with assms(3) have "s = format_simple_command (command_word c) args"
    "\<forall>a \<in> set args. \<not> has_newline a"
    by (simp_all add: checked_Inr_iff fst_checks[OF w(2)])
  with simple_one_command[OF command_word_clean] show ?thesis by blast
qed

lemma execute_event_lookup:
  "fmlookup (ev_headers (execute_event app args)) k =
     (if k = ''execute-app-name'' then Some app
      else if k = ''call-command'' then Some ''execute''
      else if k = ''execute-app-arg'' then args else None)"
  by (auto simp: execute_event_def set_header_def event_new_def Let_def split: option.splits)

lemma execute_event_clean:
  "event_clean (execute_event app args) \<longleftrightarrow>
     \<not> has_newline app \<and> (\<forall>t \<in> set (opt_texts args). \<not> has_newline t)"
proof
  assume c: "event_clean (execute_event app args)"
  then have "\<And>k v. fmlookup (ev_headers (execute_event app args)) k = Some v \<Longrightarrow> \<not> has_newline v"
    unfolding event_clean_def event_texts_clean by blast
  from this[of "''execute-app-name''"] this[of "''execute-app-arg''"]
  show "\<not> has_newline app \<and> (\<forall>t \<in> set (opt_texts args). \<not> has_newline t)"
    by (simp add: execute_event_lookup opt_texts_def split: option.splits)
next
  assume "\<not> has_newline app \<and> (\<forall>t \<in> set (opt_texts args). \<not> has_newline t)"
  then show "event_clean (execute_event app args)"
    unfolding event_clean_def event_texts_clean execute_event_lookup
    by (simp add: clean_simps opt_texts_def)
qed

lemma sendmsg_wire_cases:
  assumes "map_order ord_ev"
  shows "if event_clean ev \<and> (\<forall>t \<in> set (opt_texts uuid). \<not> has_newline t)
         then \<exists>s. sendmsg_wire ord_ev ord_cb uuid ev = Inr s
         else \<exists>e. sendmsg_wire ord_ev ord_cb uuid ev = Inl e \<and> newline_error e"
  using build_event_cases[OF assms, of ev]
  by (auto simp: sendmsg_wire_def validate_opt_def opt_texts_def validate_no_newlines_def
      newline_error_def split: option.splits if_splits)

lemma to_wire_cases:
  assumes "map_order ord_ev"
  shows "if \<forall>t \<in> set (command_texts c). \<not> has_newline t
         then \<exists>s. to_wire_format ord_ev ord_cb c = Inr s
         else \<exists>e. to_wire_format ord_ev ord_cb c = Inl e \<and> newline_error e"
proof (cases "event_command c")
  case False
  from to_wire_simple[OF this, of ord_ev ord_cb] obtain fs args where
    w: "to_wire_format ord_ev ord_cb c = checked fs (format_simple_command (command_word c) args)"
      "map fst fs = command_texts c"
    unfolding simple_wire_def by blast
  then show ?thesis
    using checked_Inl[of fs "format_simple_command (command_word c) args"]
      checked_Inr_iff[of fs "format_simple_command (command_word c) args"]
    by (cases "checked fs (format_simple_command (command_word c) args)")
       (auto simp: fst_checks[OF w(2)])
next
  case True
  then consider (msg) u ev where "c = SendMsg u ev" | (exec) a args u where "c = Execute a args u"
    | (event) ev where "c = SendEvent ev"
    by (cases c) auto
  then show ?thesis
  proof cases
    case msg
    with sendmsg_wire_cases[OF assms, of ev u ord_cb] show ?thesis
      by (auto simp: event_clean_def split: if_splits)
  next
    case event
    with build_event_cases[OF assms, of ev ord_cb "''sendevent '' @ sendevent_name ev"] show ?thesis
      by (auto simp: event_clean_def split: if_splits)
  next
    case exec
    let ?fs = "[(a, ''execute app'')] @ opt_field args ''execute args'' @ opt_field u ''execute uuid''"
    have fs: "map fst ?fs = command_texts c"
      by (simp add: exec opt_field_def opt_texts_def split: option.splits)
    show ?thesis
    proof (cases "\<forall>t \<in> set (command_texts c). \<not> has_newline t")
      case True
      then have "checked ?fs [] = Inr []"
        using fst_checks[OF fs, of "\<lambda>f. \<not> has_newline f"] by (intro checked_ok) blast
      moreover have "event_clean (execute_event a args)" using True exec by (simp add: execute_event_clean)
      ultimately show ?thesis
        using True exec sendmsg_wire_cases[OF assms, of "execute_event a args" u ord_cb]
        by (auto simp del: checked.simps)
    next
      case False
      then obtain e where "checked ?fs [] = Inl e" "newline_error e"
        using checked_fail[of ?fs "[]"] fst_checks[OF fs, of "\<lambda>f. \<not> has_newline f"] by blast
      then have "to_wire_format ord_ev ord_cb c = Inl e" "newline_error e"
        by (simp_all add: exec del: checked.simps)
      then show ?thesis by (subst if_not_P[OF False]) blast
    qed
  qed
qed

lemma build_event_Inl: "build_event ord_ev ord_cb c ev = Inl e \<Longrightarrow> newline_error e"
  by (auto simp: build_event_def res_bind_eq_Inl intro: builder_headers_Inl)

lemma sendmsg_wire_Inl: "sendmsg_wire ord_ev ord_cb u ev = Inl e \<Longrightarrow> newline_error e"
  by (auto simp: sendmsg_wire_def res_bind_eq_Inl validate_opt_def
      intro: build_event_Inl validate_Inl split: option.splits)

lemma to_wire_Inl:
  assumes "to_wire_format ord_ev ord_cb c = Inl e"
  shows "newline_error e"
proof (cases "event_command c")
  case True
  with assms show ?thesis
    by (cases c)
       (auto simp: res_bind_eq_Inl simp del: checked.simps
          intro: build_event_Inl sendmsg_wire_Inl checked_Inl)
next
  case False
  from to_wire_simple[OF this, of ord_ev ord_cb] obtain fs args where
    "to_wire_format ord_ev ord_cb c = checked fs (format_simple_command (command_word c) args)"
    unfolding simple_wire_def by blast
  with assms show ?thesis by (auto intro: checked_Inl)
qed

text \<open>C19. Exactly the texts with a line break are refused: a command is serialised if and only if no text
  the caller supplied (for the event commands: no header name or value; the body is free) holds a
  line feed or carriage return, and otherwise the error is a protocol error that says so.\<close>

theorem wire_accepts_iff:
  assumes "map_order ord_ev"
  shows "(is_ok (to_wire_format ord_ev ord_cb c) \<longleftrightarrow>
            (\<forall>t \<in> set (command_texts c). NL \<notin> set t \<and> CR \<notin> set t))
       \<and> (\<forall>e. to_wire_format ord_ev ord_cb c = Inl e \<longrightarrow>
            (\<exists>ctx. e = ProtocolError (ctx @ '' must not contain newlines'')))"
  using to_wire_cases[OF assms, of c ord_cb]
  by (auto simp: has_newline_def newline_error_def split: if_splits)

theorem wire_accepts_iff_witness:
  "\<not> is_ok (to_wire_format sorted_list_of_fmap sorted_list_of_fmap (Api (''status'' @ [NL] @ ''exit'')))
   \<and> is_ok (to_wire_format sorted_list_of_fmap sorted_list_of_fmap (Api ''status''))"
  using wire_accepts_iff[OF sorted_order.map_order_axioms, of sorted_list_of_fmap "Api (''status'' @ [NL] @ ''exit'')"]
    wire_accepts_iff[OF sorted_order.map_order_axioms, of sorted_list_of_fmap "Api ''status''"]
  by simp

text \<open>A stored \<open>Content-Length\<close> header is sent beside the computed one. \<open>to_plain_format\<close> skips a
  \<open>Content-Length\<close> kept in the header map; \<open>sendevent\<close> does not: for an event with such a header and
  a body, the command holds a line with the stored value before the line with the length of the
  body, also when the two differ (an event that was parsed from the wire always stores the header).\<close>

theorem sendevent_stale_length:
  assumes "map_order ord_ev" "map_order ord_cb"
    and "to_wire_format ord_ev ord_cb (SendEvent ev) = Inr s"
    and "header ev ''Content-Length'' = Some l" "ev_body ev = Some b"
  shows "\<exists>ls. s = block ls @ NL # b
           \<and> (''Content-Length: '' @ l) \<in> set (butlast ls)
           \<and> last ls = ''Content-Length: '' @ nat_to_string (length b)"
proof -
  let ?c = "''sendevent '' @ sendevent_name ev"
  let ?ls = "(?c # map raw_line (ord_cb (ev_headers ev))) @ [''Content-Length: '' @ nat_to_string (length b)]"
  from assms(3) have "build_event ord_ev ord_cb ?c ev = Inr s" by simp
  with build_event_cases[OF assms(1), of ev ord_cb ?c]
  have s: "s = build ord_cb \<lparr>cb_command = ?c, cb_headers = ev_headers ev, cb_body = ev_body ev\<rparr>"
    by (auto split: if_splits)
  have "(''Content-Length'', l) \<in> set (ord_cb (ev_headers ev))"
    using assms(4) by (simp add: map_order.entries_iff[OF assms(2)] header_def)
  then have "raw_line (''Content-Length'', l) \<in> set (map raw_line (ord_cb (ev_headers ev)))"
    by (metis image_eqI set_map)
  then have "(''Content-Length: '' @ l) \<in> set (butlast ?ls)"
    by (simp only: butlast_snoc) (simp add: raw_line_def)
  moreover have "s = block ?ls @ NL # b"
    using assms(5) by (simp add: s build_def block_def raw_line_def[abs_def] comp_def case_prod_unfold)
  ultimately show ?thesis by (metis last_snoc)
qed

theorem sendevent_stale_length_witness:
  "\<exists>s ls. to_wire_format sorted_list_of_fmap sorted_list_of_fmap
       (SendEvent \<lparr>event_type = None, ev_headers = fmap_of_list [(''Content-Length'', ''5'')],
                   ev_body = Some ''ab''\<rparr>) = Inr s
     \<and> s = block ls @ NL # ''ab'' \<and> ''Content-Length: 5'' \<in> set (butlast ls)
     \<and> last ls = ''Content-Length: '' @ nat_to_string 2"
proof -
  let ?ev = "\<lparr>event_type = None, ev_headers = fmap_of_list [(''Content-Length'', ''5'')],
              ev_body = Some ''ab''\<rparr>"
  have "list_all (\<lambda>t. \<not> has_newline t) (event_texts ?ev)" by code_simp
  then obtain s where s: "to_wire_format sorted_list_of_fmap sorted_list_of_fmap (SendEvent ?ev) = Inr s"
    using to_wire_cases[OF sorted_order.map_order_axioms, of "SendEvent ?ev" sorted_list_of_fmap]
    by (auto simp: list_all_iff)
  from sendevent_stale_length[OF sorted_order.map_order_axioms sorted_order.map_order_axioms s,
      of "''5''" "''ab''"] s
  show ?thesis by (simp add: header_def numeral_2_eq_2)
qed

end
