(* ===== verification/Esl_Client.thy ===== *)
theory Esl_Client
  imports Esl_Reader Esl_Command
begin

text \<open>
  The client side of \<open>src/src/connection.rs\<close>: the handshake (\<open>tcp_connect_with_timeout\<close>,
  \<open>recv_message\<close>, \<open>authenticate\<close>, \<open>connect_inner\<close>), one command with its reply
  (\<open>send_command\<close>) and the methods of \<open>EslClient\<close> built on it. The network is an input: the
  result of the TCP connection, the sequence of reads during the handshake (a sequence that has
  ended stands for silence, a read that times out) and the result of the write; for a command, what
  becomes of the text that is written (\<open>exchange\<close>). The concurrent behaviour of several
  commands and the reader is in \<open>Esl_Exchange\<close>.
\<close>

section \<open>Handshake\<close>

datatype tcp_result = TcpOk | TcpErr string | TcpTimeout

definition tcp_connect_with_timeout :: "tcp_result \<Rightarrow> unit EslResult" where
  "tcp_connect_with_timeout t =
     (case t of
        TcpOk \<Rightarrow> Inr ()
      | TcpErr e \<Rightarrow> Inl (Io e)
      | TcpTimeout \<Rightarrow> Inl (Timeout DEFAULT_TIMEOUT_MS))"

fun recv_message :: "(string \<Rightarrow> bytes) \<Rightarrow> EslParser \<Rightarrow> read_result list
    \<Rightarrow> EslMessage EslResult \<times> EslParser \<times> read_result list" where
  "recv_message pdec p rs =
     (case parse_message pdec p of
        (Inl e, p') \<Rightarrow> (Inl e, p', rs)
      | (Inr (Some m), p') \<Rightarrow> (Inr m, p', rs)
      | (Inr None, p') \<Rightarrow>
          (case rs of
             [] \<Rightarrow> (Inl (Timeout DEFAULT_TIMEOUT_MS), p', [])
           | ReadTimeout # rs' \<Rightarrow> (Inl (Timeout DEFAULT_TIMEOUT_MS), p', rs')
           | ReadFail e # rs' \<Rightarrow> (Inl (Io e), p', rs')
           | ReadData d # rs' \<Rightarrow>
               (if d = [] then (Inl ConnectionClosed, p', rs')
                else
                  (case add_data p' d of
                     (Inl e, p'') \<Rightarrow> (Inl e, p'', rs')
                   | (Inr _, p'') \<Rightarrow> recv_message pdec p'' rs'))))"

declare recv_message.simps [simp del]

datatype AuthMethod = Password string | User string string

definition auth_command :: "AuthMethod \<Rightarrow> EslCommand" where
  "auth_command m = (case m of Password p \<Rightarrow> Auth p | User u p \<Rightarrow> UserAuth u p)"

text \<open>The handshake as far as it got: its result, the parser, the reads left and the texts written.\<close>

record handshake =
  hs_result :: "unit EslResult"
  hs_parser :: EslParser
  hs_reads :: "read_result list"
  hs_written :: "string list"

definition authenticate :: "(string \<Rightarrow> bytes) \<Rightarrow> header_order \<Rightarrow> header_order \<Rightarrow> EslParser
    \<Rightarrow> read_result list \<Rightarrow> string option \<Rightarrow> AuthMethod \<Rightarrow> handshake" where
  "authenticate pdec ord_ev ord_cb p rs write_error method =
     (case recv_message pdec p rs of
        (Inl e, p', rs') \<Rightarrow> \<lparr>hs_result = Inl e, hs_parser = p', hs_reads = rs', hs_written = []\<rparr>
      | (Inr message, p', rs') \<Rightarrow>
          (if message_type message \<noteq> AuthRequest then
             \<lparr>hs_result = Inl (protocol_error ''Expected auth request''), hs_parser = p',
              hs_reads = rs', hs_written = []\<rparr>
           else
             (case to_wire_format ord_ev ord_cb (auth_command method) of
                Inl e \<Rightarrow> \<lparr>hs_result = Inl e, hs_parser = p', hs_reads = rs', hs_written = []\<rparr>
              | Inr command_str \<Rightarrow>
                  (case write_error of
                     Some e \<Rightarrow>
                       \<lparr>hs_result = Inl (Io e), hs_parser = p', hs_reads = rs',
                        hs_written = [command_str]\<rparr>
                   | None \<Rightarrow>
                       (case recv_message pdec p' rs' of
                          (Inl e, p'', rs'') \<Rightarrow>
                            \<lparr>hs_result = Inl e, hs_parser = p'', hs_reads = rs'',
                             hs_written = [command_str]\<rparr>
                        | (Inr response_msg, p'', rs'') \<Rightarrow>
                            (let response = into_response response_msg in
                             \<lparr>hs_result =
                                (if \<not> is_success response then
                                   Inl (auth_failed (case reply_text response of
                                          Some t \<Rightarrow> t | None \<Rightarrow> ''Authentication failed''))
                                 else Inr ()),
                              hs_parser = p'', hs_reads = rs'', hs_written = [command_str]\<rparr>))))))"

definition invalid_username :: "string \<Rightarrow> string" where
  "invalid_username user =
     ''Invalid username format '' @ [QUOTE] @ user @ [QUOTE]
       @ '': must be user@domain (e.g., admin@default)''"

text \<open>
  \<open>connect_inner\<close>: on success the client is spawned on the parser and the reads that are left.
  The read and write sequences of a connection that is not made are empty.
\<close>

definition connect_inner :: "(string \<Rightarrow> bytes) \<Rightarrow> header_order \<Rightarrow> header_order \<Rightarrow> tcp_result
    \<Rightarrow> read_result list \<Rightarrow> string option \<Rightarrow> AuthMethod \<Rightarrow> handshake" where
  "connect_inner pdec ord_ev ord_cb tcp rs write_error method =
     (case (case method of
              User user _ \<Rightarrow>
                if CHR ''@'' \<notin> set user then Inl (auth_failed (invalid_username user)) else Inr ()
            | Password _ \<Rightarrow> Inr ()) of
        Inl e \<Rightarrow> \<lparr>hs_result = Inl e, hs_parser = parser_new, hs_reads = rs, hs_written = []\<rparr>
      | Inr _ \<Rightarrow>
          (case tcp_connect_with_timeout tcp of
             Inl e \<Rightarrow> \<lparr>hs_result = Inl e, hs_parser = parser_new, hs_reads = rs, hs_written = []\<rparr>
           | Inr _ \<Rightarrow> authenticate pdec ord_ev ord_cb parser_new rs write_error method))"

text \<open>\<open>split_and_spawn_with_options\<close>: the state the reader and the client handle start from.\<close>

definition spawn_world :: "(nat \<Rightarrow> 'q) \<Rightarrow> EslConnectOptions \<Rightarrow> 'q world" where
  "spawn_world make_channel options =
     \<lparr>w_shared = shared_new, w_status = Connected,
      w_queue = make_channel (queue_capacity options), w_replies = []\<rparr>"

definition spawn_reader :: "(nat \<Rightarrow> 'q) \<Rightarrow> EslConnectOptions \<Rightarrow> EslParser \<Rightarrow> nat \<Rightarrow> 'q reader" where
  "spawn_reader make_channel options p now =
     reader_start p now (spawn_world make_channel options)"

text \<open>The end of \<open>connect_inner\<close>, the four ways to connect and \<open>accept_outbound\<close>, whose socket may fail.\<close>

definition connect_spawn :: "(nat \<Rightarrow> 'q) \<Rightarrow> EslConnectOptions \<Rightarrow> nat \<Rightarrow> handshake \<Rightarrow> 'q reader EslResult" where
  "connect_spawn make_channel options now hs =
     res_bind (hs_result hs) (\<lambda>_. Inr (spawn_reader make_channel options (hs_parser hs) now))"

record 'q network =
  net_pdec :: "string \<Rightarrow> bytes"
  net_ord_ev :: header_order
  net_ord_cb :: header_order
  net_make_channel :: "nat \<Rightarrow> 'q"
  net_tcp :: tcp_result
  net_reads :: "read_result list"
  net_write_error :: "string option"
  net_now :: nat

definition connect_method :: "'q network \<Rightarrow> AuthMethod \<Rightarrow> EslConnectOptions \<Rightarrow> 'q reader EslResult" where
  "connect_method net method options =
     connect_spawn (net_make_channel net) options (net_now net)
       (connect_inner (net_pdec net) (net_ord_ev net) (net_ord_cb net) (net_tcp net) (net_reads net)
         (net_write_error net) method)"

definition connect_with_options :: "'q network \<Rightarrow> string \<Rightarrow> EslConnectOptions \<Rightarrow> 'q reader EslResult" where
  "connect_with_options net password options = connect_method net (Password password) options"

definition connect :: "'q network \<Rightarrow> string \<Rightarrow> 'q reader EslResult" where
  "connect net password = connect_method net (Password password) connect_options_default"

definition connect_with_user_and_options ::
    "'q network \<Rightarrow> string \<Rightarrow> string \<Rightarrow> EslConnectOptions \<Rightarrow> 'q reader EslResult" where
  "connect_with_user_and_options net user password options = connect_method net (User user password) options"

definition connect_with_user :: "'q network \<Rightarrow> string \<Rightarrow> string \<Rightarrow> 'q reader EslResult" where
  "connect_with_user net user password = connect_method net (User user password) connect_options_default"

definition accept_outbound_with_options ::
    "(nat \<Rightarrow> 'q) \<Rightarrow> string option \<Rightarrow> nat \<Rightarrow> EslConnectOptions \<Rightarrow> 'q reader EslResult" where
  "accept_outbound_with_options make_channel accept_error now options =
     (case accept_error of
        Some e \<Rightarrow> Inl (Io e)
      | None \<Rightarrow> Inr (spawn_reader make_channel options parser_new now))"

definition accept_outbound :: "(nat \<Rightarrow> 'q) \<Rightarrow> string option \<Rightarrow> nat \<Rightarrow> 'q reader EslResult" where
  "accept_outbound make_channel accept_error now =
     accept_outbound_with_options make_channel accept_error now connect_options_default"

section \<open>One command\<close>

datatype exchange = WriteFailed string | Replied EslMessage | SenderGone | ReplyTimeout

record client_ctx =
  cx_ord_ev :: header_order
  cx_ord_cb :: header_order
  cx_status :: ConnectionStatus
  cx_shared :: SharedState
  cx_exchange :: "string \<Rightarrow> exchange"

definition is_connected :: "client_ctx \<Rightarrow> bool" where
  "is_connected cx = (case cx_status cx of Connected \<Rightarrow> True | Disconnected _ \<Rightarrow> False)"

definition send_command :: "client_ctx \<Rightarrow> EslCommand \<Rightarrow> EslResponse EslResult" where
  "send_command cx command =
     (if \<not> is_connected cx then Inl NotConnected
      else
        (case to_wire_format (cx_ord_ev cx) (cx_ord_cb cx) command of
           Inl e \<Rightarrow> Inl e
         | Inr command_str \<Rightarrow>
             (case cx_exchange cx command_str of
                WriteFailed e \<Rightarrow> Inl (Io e)
              | Replied message \<Rightarrow> Inr (into_response message)
              | SenderGone \<Rightarrow> Inl ConnectionClosed
              | ReplyTimeout \<Rightarrow> Inl (Timeout (command_timeout_ms (cx_shared cx))))))"

definition send_command_ok :: "client_ctx \<Rightarrow> EslCommand \<Rightarrow> unit EslResult" where
  "send_command_ok cx command =
     res_bind (send_command cx command) (\<lambda>r. res_bind (into_result r) (\<lambda>_. Inr ()))"

section \<open>The methods\<close>

definition event_types_to_string :: "EslEventType list \<Rightarrow> string" where
  "event_types_to_string events = join [SP] (map event_type_display events)"

definition api :: "client_ctx \<Rightarrow> string \<Rightarrow> EslResponse EslResult" where
  "api cx command = send_command cx (Api command)"

definition bgapi :: "client_ctx \<Rightarrow> string \<Rightarrow> EslResponse EslResult" where
  "bgapi cx command = send_command cx (BgApi command)"

definition subscribe_events :: "client_ctx \<Rightarrow> EventFormat \<Rightarrow> EslEventType list \<Rightarrow> unit EslResult" where
  "subscribe_events cx fmt events =
     (let events_str =
        (if AllEvents \<in> set events then ''ALL'' else event_types_to_string events)
      in send_command_ok cx (Events (event_format_display fmt) events_str))"

definition subscribe_events_raw :: "client_ctx \<Rightarrow> EventFormat \<Rightarrow> string \<Rightarrow> unit EslResult" where
  "subscribe_events_raw cx fmt events = send_command_ok cx (Events (event_format_display fmt) events)"

definition filter_events :: "client_ctx \<Rightarrow> string \<Rightarrow> string \<Rightarrow> unit EslResult" where
  "filter_events cx h v = send_command_ok cx (Filter h v)"

definition execute :: "client_ctx \<Rightarrow> string \<Rightarrow> string option \<Rightarrow> string option
    \<Rightarrow> EslResponse EslResult" where
  "execute cx app args uuid = send_command cx (Execute app args uuid)"

definition sendmsg :: "client_ctx \<Rightarrow> string option \<Rightarrow> EslEvent \<Rightarrow> EslResponse EslResult" where
  "sendmsg cx uuid ev = send_command cx (SendMsg uuid ev)"

definition sendevent :: "client_ctx \<Rightarrow> EslEvent \<Rightarrow> EslResponse EslResult" where
  "sendevent cx ev = send_command cx (SendEvent ev)"

definition myevents :: "client_ctx \<Rightarrow> EventFormat \<Rightarrow> unit EslResult" where
  "myevents cx fmt = send_command_ok cx (MyEvents (event_format_display fmt) None)"

definition myevents_uuid :: "client_ctx \<Rightarrow> string \<Rightarrow> EventFormat \<Rightarrow> unit EslResult" where
  "myevents_uuid cx uuid fmt = send_command_ok cx (MyEvents (event_format_display fmt) (Some uuid))"

definition linger :: "client_ctx \<Rightarrow> u32 option \<Rightarrow> unit EslResult" where
  "linger cx timeout = send_command_ok cx (Linger timeout)"

definition nolinger :: "client_ctx \<Rightarrow> unit EslResult" where
  "nolinger cx = send_command_ok cx NoLinger"

definition resume :: "client_ctx \<Rightarrow> unit EslResult" where
  "resume cx = send_command_ok cx Resume"

definition connect_session :: "client_ctx \<Rightarrow> EslResponse EslResult" where
  "connect_session cx = send_command cx ConnectCmd"

definition nixevent_raw :: "client_ctx \<Rightarrow> string \<Rightarrow> unit EslResult" where
  "nixevent_raw cx events = send_command_ok cx (NixEvent events)"

definition nixevent :: "client_ctx \<Rightarrow> EslEventType list \<Rightarrow> unit EslResult" where
  "nixevent cx events = nixevent_raw cx (event_types_to_string events)"

definition noevents :: "client_ctx \<Rightarrow> unit EslResult" where
  "noevents cx = send_command_ok cx NoEvents"

definition filter_delete :: "client_ctx \<Rightarrow> string \<Rightarrow> string option \<Rightarrow> unit EslResult" where
  "filter_delete cx h v = send_command_ok cx (FilterDelete h v)"

definition filter_delete_all :: "client_ctx \<Rightarrow> unit EslResult" where
  "filter_delete_all cx = filter_delete cx ''all'' None"

definition divert_events :: "client_ctx \<Rightarrow> bool \<Rightarrow> unit EslResult" where
  "divert_events cx on = send_command_ok cx (DivertEvents on)"

definition getvar :: "client_ctx \<Rightarrow> string \<Rightarrow> string EslResult" where
  "getvar cx name =
     res_bind (send_command cx (GetVar name))
       (\<lambda>response. Inr (case reply_text response of Some t \<Rightarrow> t | None \<Rightarrow> []))"

definition client_log :: "client_ctx \<Rightarrow> string \<Rightarrow> EslResponse EslResult" where
  "client_log cx level = send_command cx (LogLevel level)"

definition nolog :: "client_ctx \<Rightarrow> EslResponse EslResult" where
  "nolog cx = send_command cx NoLog"

definition noop :: "client_ctx \<Rightarrow> EslResponse EslResult" where
  "noop cx = send_command cx NoOp"

definition client_exit :: "client_ctx \<Rightarrow> EslResponse EslResult" where
  "client_exit cx = send_command cx Exit"

text \<open>A \<open>Duration\<close> is a number of nanoseconds; \<open>as_millis() as u64\<close> truncates it twice.\<close>

definition as_millis_u64 :: "nat \<Rightarrow> u64" where
  "as_millis_u64 nanos = of_nat (nanos div 1000000)"

definition set_liveness_timeout :: "SharedState \<Rightarrow> nat \<Rightarrow> SharedState" where
  "set_liveness_timeout sh duration = sh\<lparr>liveness_timeout_ms := as_millis_u64 duration\<rparr>"

definition set_command_timeout :: "SharedState \<Rightarrow> nat \<Rightarrow> SharedState" where
  "set_command_timeout sh duration = sh\<lparr>command_timeout_ms := as_millis_u64 duration\<rparr>"

text \<open>\<open>disconnect\<close> shuts the write half down; the argument is the error of the shutdown, if any.\<close>

definition disconnect :: "string option \<Rightarrow> unit EslResult" where
  "disconnect shutdown_error =
     (case shutdown_error of Some e \<Rightarrow> Inl (Io e) | None \<Rightarrow> Inr ())"

definition client_status :: "client_ctx \<Rightarrow> ConnectionStatus" where
  "client_status cx = cx_status cx"

definition client_dropped_event_count :: "client_ctx \<Rightarrow> u64" where
  "client_dropped_event_count cx = dropped_event_count (cx_shared cx)"

text \<open>\<open>EslEventStream::recv\<close> (and \<open>poll_next\<close>, which ends at the same queue): the receive of the
  channel is an argument.\<close>

definition stream_recv :: "('q \<Rightarrow> event_item option \<times> 'q) \<Rightarrow> 'q world \<Rightarrow> event_item option \<times> 'q world" where
  "stream_recv recv_queue w =
     (case recv_queue (w_queue w) of (x, q') \<Rightarrow> (x, w\<lparr>w_queue := q'\<rparr>))"

section \<open>The handshake reads exactly two messages\<close>

lemma frame_extends:
  "next_frame pdec bs = Frame m R \<Longrightarrow> next_frame pdec (bs @ d) = Frame m (R @ d)"
  by (simp add: next_frame_append)

lemma add_data_fits:
  assumes "represents pdec p bs" "length bs + length d \<le> MAX_BUFFER_SIZE"
  shows "\<exists>p'. add_data p d = (Inr (), p') \<and> represents pdec p' (bs @ d)"
proof -
  have "fst (add_data p d) = Inr ()"
    using represents_length[OF assms(1)] assms(2)
    by (simp add: add_data_def check_size_limits_def extend_from_slice_def)
  with represents_add_data[OF assms(1), of d] show ?thesis by (cases "add_data p d") auto
qed

text \<open>
  When the bytes at hand and to come start with a complete message, \<open>recv_message\<close> returns it, and
  the parser and the chunks not read yet hold exactly what follows it.
\<close>

lemma recv_message_frame:
  assumes "represents pdec p bs" "next_frame pdec (bs @ concat cs) = Frame m R"
    and "\<forall>c \<in> set cs. c \<noteq> []" "length bs + length (concat cs) \<le> MAX_BUFFER_SIZE"
  shows "\<exists>p' cs' bs'. recv_message pdec p (map ReadData cs) = (Inr m, p', map ReadData cs')
           \<and> represents pdec p' bs' \<and> bs' @ concat cs' = R \<and> set cs' \<subseteq> set cs
           \<and> length bs' + length (concat cs') \<le> MAX_BUFFER_SIZE"
  using assms
proof (induction cs arbitrary: p bs)
  case Nil
  with parse_message_simulates[OF Nil.prems(1)] obtain q where
    "parse_message pdec p = (Inr (Some m), q)" "represents pdec q R"
    by (cases "parse_message pdec p") (auto simp: simulates_def)
  moreover have "length R \<le> length bs" using next_frame_shorter[of pdec bs m R] Nil.prems(2) by simp
  ultimately show ?case
    using Nil.prems(4) by (intro exI[of _ q] exI[of _ "[]"] exI[of _ R]) (simp add: recv_message.simps)
next
  case (Cons c cs)
  obtain out q where pm: "parse_message pdec p = (out, q)" by (cases "parse_message pdec p")
  note sim = parse_message_simulates[OF Cons.prems(1), unfolded pm]
  show ?case
  proof (cases "next_frame pdec bs")
    case (Frame m' R')
    with Cons.prems(2) frame_extends[OF Frame, of "concat (c # cs)"]
    have "m' = m" "R = R' @ concat (c # cs)" by simp_all
    moreover have "length R' \<le> length bs" using next_frame_shorter[OF Frame] by simp
    ultimately show ?thesis
      using sim pm Frame Cons.prems(4)
      by (intro exI[of _ q] exI[of _ "c # cs"] exI[of _ R'])
         (simp add: recv_message.simps[of pdec p] simulates_def)
  next
    case (Bad e)
    with Cons.prems(2) next_frame_append[of pdec bs "concat (c # cs)"] show ?thesis by simp
  next
    case NeedMore
    with sim have "out = Inr None" and rep: "represents pdec q bs" by (simp_all add: simulates_def)
    from add_data_fits[OF rep, of c] Cons.prems(4) obtain q' where
      q': "add_data q c = (Inr (), q')" "represents pdec q' (bs @ c)" by auto
    have "recv_message pdec p (map ReadData (c # cs)) = recv_message pdec q' (map ReadData cs)"
      using pm \<open>out = Inr None\<close> q' Cons.prems(3) by (simp add: recv_message.simps[of pdec p])
    with Cons.IH[OF q'(2)] Cons.prems show ?thesis by fastforce
  qed
qed

lemma handshake_steps:
  assumes "next_frame pdec (concat cs) = Frame m1 R1" "next_frame pdec R1 = Frame m2 R2"
    and "\<forall>c \<in> set cs. c \<noteq> []" "length (concat cs) \<le> MAX_BUFFER_SIZE"
    and "hs = authenticate pdec ord_ev ord_cb parser_new (map ReadData cs) None method"
  shows "if message_type m1 \<noteq> AuthRequest then
           hs_result hs = Inl (ProtocolError ''Expected auth request'') \<and> hs_written hs = []
         else (case to_wire_format ord_ev ord_cb (auth_command method) of
           Inl e \<Rightarrow> hs_result hs = Inl e \<and> hs_written hs = []
         | Inr line \<Rightarrow>
             hs_written hs = [line]
             \<and> hs_result hs =
                 (if is_success (into_response m2) then Inr ()
                  else Inl (AuthenticationFailed (the (fmlookup (msg_headers m2) ''Reply-Text''))))
             \<and> (\<exists>bs cs'. represents pdec (hs_parser hs) bs \<and> hs_reads hs = map ReadData cs'
                  \<and> bs @ concat cs' = R2 \<and> set cs' \<subseteq> set cs
                  \<and> length bs + length (concat cs') \<le> MAX_BUFFER_SIZE))"
proof -
  obtain p1 cs1 bs1 where r1: "recv_message pdec parser_new (map ReadData cs) = (Inr m1, p1, map ReadData cs1)"
    "represents pdec p1 bs1" "bs1 @ concat cs1 = R1" "set cs1 \<subseteq> set cs"
    "length bs1 + length (concat cs1) \<le> MAX_BUFFER_SIZE"
    using recv_message_frame[OF represents_new, of pdec cs m1 R1] assms(1,3,4) by auto
  have "\<forall>c \<in> set cs1. c \<noteq> []" using assms(3) r1(4) by blast
  then obtain p2 cs2 bs2 where
    r2: "recv_message pdec p1 (map ReadData cs1) = (Inr m2, p2, map ReadData cs2)"
    "represents pdec p2 bs2" "bs2 @ concat cs2 = R2" "set cs2 \<subseteq> set cs1"
    "length bs2 + length (concat cs2) \<le> MAX_BUFFER_SIZE"
    using recv_message_frame[OF r1(2), of cs1 m2 R2] assms(2) r1(3,5) by auto
  have has_text: "\<not> is_success (into_response m2) \<Longrightarrow> \<exists>t. fmlookup (msg_headers m2) ''Reply-Text'' = Some t"
    by (cases "fmlookup (msg_headers m2) ''Reply-Text''")
       (auto simp: into_response_def is_success_def resp_status_new)
  then have failed: "\<not> is_success (into_response m2) \<Longrightarrow>
      (case reply_text (into_response m2) of Some t \<Rightarrow> t | None \<Rightarrow> ''Authentication failed'')
        = the (fmlookup (msg_headers m2) ''Reply-Text'')"
    by (auto simp: into_response_def)
  show ?thesis
    using r1 r2 failed unfolding assms(5) authenticate_def
    by (auto simp: protocol_error_def auth_failed_def Let_def split: sum.splits)
qed

text \<open>C11. The handshake is exact and loses no byte. When the server's stream starts with two complete
  messages, in whatever chunks they arrive: if the first is no \<open>auth/request\<close> nothing is written and
  the connection fails; otherwise exactly the one line with the credentials is written (or, if they
  hold a line break, nothing), and the second message decides, success being \<open>Reply-Text\<close> absent,
  empty or \<open>+OK\<close>; the parser handed to the reader and the chunks still unread are
  exactly the bytes after the second message.\<close>

theorem handshake_exact:
  assumes "next_frame pdec (concat cs) = Frame m1 R1" "next_frame pdec R1 = Frame m2 R2"
    and "\<forall>c \<in> set cs. c \<noteq> []" "length (concat cs) \<le> MAX_BUFFER_SIZE"
    and "hs = authenticate pdec ord_ev ord_cb parser_new (map ReadData cs) None method"
  shows "if message_type m1 \<noteq> AuthRequest then
           hs_result hs = Inl (ProtocolError ''Expected auth request'') \<and> hs_written hs = []
         else (case to_wire_format ord_ev ord_cb (auth_command method) of
           Inl e \<Rightarrow> hs_result hs = Inl e \<and> hs_written hs = []
         | Inr line \<Rightarrow>
             hs_written hs = [line]
             \<and> hs_result hs =
                 (if is_success (into_response m2) then Inr ()
                  else Inl (AuthenticationFailed (the (fmlookup (msg_headers m2) ''Reply-Text''))))
             \<and> (\<exists>bs cs'. represents pdec (hs_parser hs) bs \<and> hs_reads hs = map ReadData cs'
                  \<and> bs @ concat cs' = R2 \<and> set cs' \<subseteq> set cs
                  \<and> length bs + length (concat cs') \<le> MAX_BUFFER_SIZE))"
  using assms by (rule handshake_steps)

definition sample_banner :: string where
  "sample_banner = ''Content-Type: auth/request'' @ [NL, NL]"

definition sample_accept :: string where
  "sample_accept = ''Content-Type: command/reply'' @ [NL] @ ''Reply-Text: +OK accepted'' @ [NL, NL]"

definition sample_hs_chunks :: "bytes list" where
  "sample_hs_chunks = [take 9 sample_banner, drop 9 sample_banner @ sample_accept @ ''Content'', ''-Type'']"

theorem handshake_exact_witness:
  "\<exists>hs. hs = authenticate percent_decode_ref sorted_list_of_fmap sorted_list_of_fmap parser_new
         (map ReadData sample_hs_chunks) None (Password ''ClueCon'')
     \<and> hs_result hs = Inr () \<and> hs_written hs = [''auth ClueCon'' @ [NL, NL]]
     \<and> (\<exists>bs cs'. represents percent_decode_ref (hs_parser hs) bs \<and> hs_reads hs = map ReadData cs'
          \<and> bs @ concat cs' = ''Content-Type'')"
proof -
  have f1: "case next_frame percent_decode_ref (concat sample_hs_chunks) of
      Frame m R \<Rightarrow> message_type m = AuthRequest \<and> R = sample_accept @ ''Content-Type'' | _ \<Rightarrow> False"
    by code_simp
  have f2: "case next_frame percent_decode_ref (sample_accept @ ''Content-Type'') of
      Frame m R \<Rightarrow> R = ''Content-Type'' \<and> is_success (into_response m) | _ \<Rightarrow> False"
    by code_simp
  from f1 obtain m1 where m1: "next_frame percent_decode_ref (concat sample_hs_chunks)
      = Frame m1 (sample_accept @ ''Content-Type'')" "message_type m1 = AuthRequest"
    by (auto split: frame.splits)
  from f2 obtain m2 where m2: "next_frame percent_decode_ref (sample_accept @ ''Content-Type'')
      = Frame m2 ''Content-Type''" "is_success (into_response m2)"
    by (auto split: frame.splits)
  have c: "\<forall>c \<in> set sample_hs_chunks. c \<noteq> []" "length (concat sample_hs_chunks) \<le> MAX_BUFFER_SIZE"
    by (simp_all add: sample_hs_chunks_def sample_banner_def sample_accept_def MAX_BUFFER_SIZE_def)
  have w: "to_wire_format sorted_list_of_fmap sorted_list_of_fmap (auth_command (Password ''ClueCon''))
      = Inr (''auth ClueCon'' @ [NL, NL])"
    by (simp add: auth_command_def validate_no_newlines_def has_newline_def format_simple_command_def)
  from handshake_exact[OF m1(1) m2(1) c refl, of sorted_list_of_fmap sorted_list_of_fmap "Password ''ClueCon''"]
  show ?thesis using m1(2) m2(2) by (simp only: w sum.case) (simp, blast)
qed

text \<open>A user without a domain never reaches the network: \<open>connect_inner\<close> fails with the user named
  in the error before any connection is made, and nothing is written, whatever the network does.\<close>

theorem username_checked_first:
  assumes "CHR ''@'' \<notin> set user"
  shows "hs_result (connect_inner pdec ord_ev ord_cb tcp rs we (User user password))
           = Inl (AuthenticationFailed (invalid_username user))
       \<and> hs_written (connect_inner pdec ord_ev ord_cb tcp rs we (User user password)) = []
       \<and> hs_reads (connect_inner pdec ord_ev ord_cb tcp rs we (User user password)) = rs"
  using assms by (simp add: connect_inner_def auth_failed_def)

theorem username_checked_first_witness:
  "hs_written (connect_inner percent_decode_ref sorted_list_of_fmap sorted_list_of_fmap TcpOk []
     None (User ''admin'' ''x'')) = []"
  using username_checked_first[of "''admin''"] by simp

section \<open>Commands and replies\<close>

text \<open>C25. A command method succeeds exactly when the server accepted that command. \<open>send_command_ok\<close>
  returns success if and only if the client is connected, the command is serialised, its text (and no
  other) is written and answered, and the answer's \<open>Reply-Text\<close> is absent, empty or starts with
  \<open>+OK\<close>; a refusal is \<open>CommandFailed\<close> or \<open>UnexpectedReply\<close> with the server's text.\<close>

theorem send_command_ok_iff:
  "(send_command_ok cx c = Inr () \<longleftrightarrow>
      is_connected cx
      \<and> (\<exists>s m. to_wire_format (cx_ord_ev cx) (cx_ord_cb cx) c = Inr s \<and> cx_exchange cx s = Replied m
           \<and> (case fmlookup (msg_headers m) ''Reply-Text'' of
                None \<Rightarrow> True | Some t \<Rightarrow> t = [] \<or> starts_with ''+OK'' t)))
   \<and> (\<forall>t. send_command_ok cx c = Inl (CommandFailed t) \<longrightarrow>
        (\<exists>s m. cx_exchange cx s = Replied m \<and> fmlookup (msg_headers m) ''Reply-Text'' = Some t
           \<and> starts_with ''-ERR'' t))"
proof -
  have "to_wire_format (cx_ord_ev cx) (cx_ord_cb cx) c \<noteq> Inl (CommandFailed t)" for t
    using to_wire_Inl by (fastforce simp: newline_error_def)
  then show ?thesis
    by (auto simp: send_command_ok_def send_command_def res_bind_def into_result_def into_response_def
        resp_status_new split: sum.splits exchange.splits option.splits if_splits; blast)
qed

definition sample_ctx :: "string \<Rightarrow> client_ctx" where
  "sample_ctx reply =
     \<lparr>cx_ord_ev = sorted_list_of_fmap, cx_ord_cb = sorted_list_of_fmap, cx_status = Connected,
      cx_shared = shared_new, cx_exchange = (\<lambda>s. Replied (sample_reply reply))\<rparr>"

theorem send_command_ok_iff_witness:
  "send_command_ok (sample_ctx ''+OK'') NoEvents = Inr ()
   \<and> send_command_ok (sample_ctx ''-ERR no'') NoEvents \<noteq> Inr ()"
  using send_command_ok_iff[of "sample_ctx ''+OK''" NoEvents]
    send_command_ok_iff[of "sample_ctx ''-ERR no''" NoEvents]
  by (simp add: sample_ctx_def is_connected_def sample_reply_def message_new_def starts_with_def)

text \<open>A typed subscription names exactly its events. Unless all events are asked for, the argument
  \<open>subscribe_events\<close> sends is the list of the names of the given types, separated by spaces, and
  reading these names back gives exactly the given types in order.\<close>

theorem subscription_names_events:
  assumes "AllEvents \<notin> set events" "events \<noteq> []"
  shows "subscribe_events cx fmt events =
           send_command_ok cx (Events (event_format_display fmt) (event_types_to_string events))
       \<and> map parse_event_type (split_str [SP] (event_types_to_string events)) = map Some events"
proof -
  have "list_all (\<lambda>n. SP \<notin> set n) (map snd event_type_names)"
    unfolding event_type_names_wire by code_simp
  then have "SP \<notin> set (event_type_display t)" for t
    using event_type_names_total[of t] event_type_names_display by (force simp: list_all_iff)
  then have "split_str [SP] (event_types_to_string events) = map event_type_display events"
    unfolding event_types_to_string_def using assms(2) by (intro split_str_join_char) auto
  moreover have "parse_event_type (event_type_display t) = Some t" for t
    by (rule event_type_text.name_roundtrip)
  ultimately show ?thesis using assms(1) by (simp add: subscribe_events_def comp_def)
qed

theorem subscription_names_events_witness:
  "map parse_event_type (split_str [SP] (event_types_to_string [ChannelCreate, Dtmf]))
     = [Some ChannelCreate, Some Dtmf]"
  using subscription_names_events[of "[ChannelCreate, Dtmf]"] by simp

text \<open>A liveness timeout below one millisecond switches the check off. The threshold is the duration
  in whole milliseconds modulo \<open>2 ^ 64\<close>: any duration that is positive and below a millisecond, like
  the zero that is documented to disable the timer, gives a reader that never expires; from one
  millisecond up to \<open>2 ^ 64\<close> milliseconds the connection expires after more silence than that.\<close>

theorem liveness_threshold_truncates:
  "(duration < 1000000 \<longrightarrow>
      \<not> liveness_expired (liveness_timeout_ms (set_liveness_timeout sh duration)) elapsed)
   \<and> (1000000 \<le> duration \<and> duration < 2 ^ 64 * 1000000 \<longrightarrow>
      liveness_expired (liveness_timeout_ms (set_liveness_timeout sh duration)) elapsed
        = (elapsed > duration div 1000000 * 1000000))"
proof -
  have "unat (of_nat (duration div 1000000) :: u64) = duration div 1000000"
    if "duration < 2 ^ 64 * 1000000"
  proof -
    from that have "duration div 1000000 < 2 ^ 64" by (simp add: less_mult_imp_div_less)
    then show ?thesis by (simp add: unsigned_of_nat take_bit_nat_eq_self)
  qed
  moreover have "1000000 \<le> duration \<Longrightarrow> 0 < duration div 1000000" by (simp add: div_greater_zero_iff)
  ultimately show ?thesis
    by (auto simp: liveness_expired_def set_liveness_timeout_def as_millis_u64_def word_gt_0
        unat_eq_zero[symmetric])
qed

theorem liveness_threshold_truncates_witness:
  "\<not> liveness_expired (liveness_timeout_ms (set_liveness_timeout shared_new 999999)) 5000000000
   \<and> liveness_expired (liveness_timeout_ms (set_liveness_timeout shared_new 2000000)) 5000000000"
  using liveness_threshold_truncates[of 999999 shared_new 5000000000]
    liveness_threshold_truncates[of 2000000 shared_new 5000000000]
  by simp

end
