(* ===== verification/Esl_Exchange.thy ===== *)
theory Esl_Exchange
  imports Esl_Client
begin

text \<open>
  Concurrent commands: \<open>EslClient::send_command\<close> of several handles, the reader and the server, as
  a step relation. The steps of one call are its accesses to shared data in the order of
  the code: take the writer lock, put the reply sender in the pending slot, write, wait, and
  either receive the reply or, after a timeout, clear the slot; the lock is released when the call
  returns. The server answers the commands it was sent in order, one reply each; the \<open>i\<close>-th reply is
  the number \<open>i\<close>, and it answers the \<open>i\<close>-th command written. The reader gives a reply to the sender in the
  slot; if the receiver is gone the reply is lost, as with \<open>let _ = tx.send(message)\<close>.
  The future of a call may be dropped while it waits (\<open>Cancel\<close>): the lock is released, and
  nothing is taken back. \<open>Write\<close> is the moment \<open>write_all\<close> returns. Nothing bounds the time to it (the
  command timeout only starts then), so no property may count on this step being taken.
  The branch of the code for a sender that was dropped (\<open>ConnectionClosed\<close>) has no step here, since the sender of a
  waiting call stays in the slot; \<open>conn_step\<close> has it, and \<open>lost_connection_times_out\<close> shows that it is never taken.
\<close>

datatype outcome = GotReply nat | GotIoError | GotTimeout | GotCancelled

datatype phase =
    Idle
  | Locked
  | Armed
  | Waiting
  | TimedOut
  | Finished outcome

record exch =
  ex_lock :: "nat option"
  ex_pending :: "nat option"
  ex_phase :: "nat \<Rightarrow> phase"
  ex_inbox :: "nat \<Rightarrow> nat option"
  ex_sent :: "nat list"
  ex_replied :: nat

definition exch_init :: exch where
  "exch_init =
     \<lparr>ex_lock = None, ex_pending = None, ex_phase = (\<lambda>_. Idle), ex_inbox = (\<lambda>_. None),
      ex_sent = [], ex_replied = 0\<rparr>"

definition set_phase :: "exch \<Rightarrow> nat \<Rightarrow> phase \<Rightarrow> exch" where
  "set_phase s c p = s\<lparr>ex_phase := (ex_phase s)(c := p)\<rparr>"

definition finish :: "exch \<Rightarrow> nat \<Rightarrow> outcome \<Rightarrow> exch" where
  "finish s c r = (set_phase s c (Finished r))\<lparr>ex_lock := None\<rparr>"

text \<open>The reader's arm for replies: \<open>pending.take()\<close>, then \<open>tx.send(message)\<close>.\<close>

definition deliver :: "exch \<Rightarrow> exch" where
  "deliver s =
     (case ex_pending s of
        None \<Rightarrow> s\<lparr>ex_replied := Suc (ex_replied s)\<rparr>
      | Some d \<Rightarrow>
          (let s' = s\<lparr>ex_replied := Suc (ex_replied s), ex_pending := None\<rparr> in
           if ex_phase s d = Armed \<or> ex_phase s d = Waiting
           then s'\<lparr>ex_inbox := (ex_inbox s)(d := Some (ex_replied s))\<rparr>
           else s'))"

datatype label =
    Acquire nat
  | Arm nat
  | Write nat
  | WriteFail nat bool
  | Reply
  | ReceiveReply nat
  | Expire nat
  | Clear nat
  | Cancel nat bool

text \<open>A call that has taken the writer lock and has not returned.\<close>

fun active :: "phase \<Rightarrow> bool" where
  "active Idle = False"
| "active (Finished _) = False"
| "active _ = True"

text \<open>A failed or abandoned write may still have reached the server (the flag of \<open>WriteFail\<close> and
  \<open>Cancel\<close>).\<close>

inductive exch_step :: "exch \<Rightarrow> label \<Rightarrow> exch \<Rightarrow> bool" where
  acquire: "ex_phase s c = Idle \<Longrightarrow> ex_lock s = None \<Longrightarrow>
    exch_step s (Acquire c) ((set_phase s c Locked)\<lparr>ex_lock := Some c\<rparr>)"
| arm: "ex_phase s c = Locked \<Longrightarrow>
    exch_step s (Arm c) ((set_phase s c Armed)\<lparr>ex_pending := Some c\<rparr>)"
| put: "ex_phase s c = Armed \<Longrightarrow>
    exch_step s (Write c) ((set_phase s c Waiting)\<lparr>ex_sent := ex_sent s @ [c]\<rparr>)"
| put_fail: "ex_phase s c = Armed \<Longrightarrow>
    exch_step s (WriteFail c reached)
      ((finish s c GotIoError)\<lparr>ex_sent := ex_sent s @ (if reached then [c] else [])\<rparr>)"
| reply: "ex_replied s < length (ex_sent s) \<Longrightarrow> exch_step s Reply (deliver s)"
| receive: "ex_phase s c = Waiting \<Longrightarrow> ex_inbox s c = Some i \<Longrightarrow>
    exch_step s (ReceiveReply c) (finish s c (GotReply i))"
| expire: "ex_phase s c = Waiting \<Longrightarrow> ex_inbox s c = None \<Longrightarrow>
    exch_step s (Expire c) (set_phase s c TimedOut)"
| clear: "ex_phase s c = TimedOut \<Longrightarrow>
    exch_step s (Clear c) ((finish s c GotTimeout)\<lparr>ex_pending := None\<rparr>)"
| cancel: "active (ex_phase s c) \<Longrightarrow>
    exch_step s (Cancel c reached)
      ((finish s c GotCancelled)\<lparr>ex_sent :=
          ex_sent s @ (if ex_phase s c = Armed \<and> reached then [c] else [])\<rparr>)"

inductive_cases exch_stepE: "exch_step s l t"

inductive_simps exch_step_simps:
  "exch_step s (Acquire c) t" "exch_step s (Arm c) t" "exch_step s (Write c) t"
  "exch_step s (WriteFail c b) t" "exch_step s Reply t" "exch_step s (ReceiveReply c) t"
  "exch_step s (Expire c) t" "exch_step s (Clear c) t" "exch_step s (Cancel c b) t"

text \<open>The states reached from the start by steps whose labels satisfy \<open>ok\<close>.\<close>

inductive reached :: "(label \<Rightarrow> bool) \<Rightarrow> exch \<Rightarrow> bool" for ok where
  start: "reached ok exch_init"
| step: "reached ok s \<Longrightarrow> exch_step s l t \<Longrightarrow> ok l \<Longrightarrow> reached ok t"

lemmas exch_defs = set_phase_def finish_def deliver_def

section \<open>One command at a time\<close>

definition lock_inv :: "exch \<Rightarrow> bool" where
  "lock_inv s = (\<forall>c. active (ex_phase s c) \<longleftrightarrow> ex_lock s = Some c)"

lemma lock_inv_step: "exch_step s l t \<Longrightarrow> lock_inv s \<Longrightarrow> lock_inv t"
  by (elim exch_stepE; simp add: lock_inv_def exch_defs Let_def split: option.splits;
      metis active.simps option.inject option.distinct(1))

lemma lock_inv_init: "lock_inv exch_init"
  by (simp add: lock_inv_def exch_init_def)

lemma reached_invariant:
  assumes "reached ok s" "P exch_init" "\<And>s l t. P s \<Longrightarrow> exch_step s l t \<Longrightarrow> ok l \<Longrightarrow> P t"
  shows "P s"
  using assms(1) by (induction rule: reached.induct) (use assms in blast)+

lemma lock_inv_reached: "reached ok s \<Longrightarrow> lock_inv s"
  by (erule reached_invariant) (blast intro: lock_inv_init lock_inv_step)+

text \<open>Replies are handed out at most once, and only what has arrived.\<close>

definition inbox_inv :: "exch \<Rightarrow> bool" where
  "inbox_inv s =
     ((\<forall>c i. ex_inbox s c = Some i \<longrightarrow> i < ex_replied s)
      \<and> (\<forall>c d i. ex_inbox s c = Some i \<and> ex_inbox s d = Some i \<longrightarrow> c = d)
      \<and> (\<forall>c i. ex_phase s c = Finished (GotReply i) \<longrightarrow> ex_inbox s c = Some i)
      \<and> ex_replied s \<le> length (ex_sent s))"

lemma inbox_inv_step: "exch_step s l t \<Longrightarrow> inbox_inv s \<Longrightarrow> inbox_inv t"
  by (elim exch_stepE; simp add: inbox_inv_def exch_defs Let_def less_Suc_eq split: option.splits;
      metis nat_less_le)

lemma inbox_inv_init: "inbox_inv exch_init"
  by (simp add: inbox_inv_def exch_init_def)

lemma inbox_inv_reached: "reached ok s \<Longrightarrow> inbox_inv s"
  by (erule reached_invariant) (blast intro: inbox_inv_init inbox_inv_step)+

text \<open>C17. In every reachable state, whatever the interleaving, timeouts, write errors and dropped futures: at most
  one command is between taking the writer lock and returning, each reply of the server is
  returned by at most one call, and only replies the server has sent are returned.\<close>

theorem one_command_in_flight:
  assumes "reached ok s"
  shows "(active (ex_phase s c) \<and> active (ex_phase s d) \<longrightarrow> c = d)
    \<and> (ex_phase s c = Finished (GotReply i) \<and> ex_phase s d = Finished (GotReply i) \<longrightarrow> c = d)
    \<and> (ex_phase s c = Finished (GotReply i) \<longrightarrow> i < ex_replied s)
    \<and> ex_replied s \<le> length (ex_sent s)"
  using lock_inv_reached [OF assms] inbox_inv_reached [OF assms]
  unfolding lock_inv_def inbox_inv_def by (metis option.inject)

section \<open>Which reply a command gets\<close>

fun undisturbed :: "label \<Rightarrow> bool" where
  "undisturbed (WriteFail _ _) = False"
| "undisturbed (Expire _) = False"
| "undisturbed (Cancel _ _) = False"
| "undisturbed _ = True"

text \<open>Where the command that holds the lock stands.\<close>

definition settled :: "exch \<Rightarrow> bool" where
  "settled s = (ex_replied s = length (ex_sent s))"

definition holder_ok :: "exch \<Rightarrow> bool" where
  "holder_ok s =
     (case ex_lock s of
        None \<Rightarrow> settled s
      | Some d \<Rightarrow>
          (case ex_phase s d of
             Locked \<Rightarrow> settled s \<and> ex_inbox s d = None
           | Armed \<Rightarrow> settled s \<and> ex_inbox s d = None \<and> ex_pending s = Some d
           | Waiting \<Rightarrow>
               (case ex_inbox s d of
                  None \<Rightarrow> ex_pending s = Some d \<and> length (ex_sent s) = Suc (ex_replied s)
                    \<and> ex_sent s ! ex_replied s = d
                | Some _ \<Rightarrow> settled s)
           | _ \<Rightarrow> False))"

definition owner_ok :: "exch \<Rightarrow> bool" where
  "owner_ok s =
     ((\<forall>c. ex_phase s c = Idle \<longrightarrow> ex_inbox s c = None)
      \<and> (\<forall>c i. ex_inbox s c = Some i \<longrightarrow> i < length (ex_sent s) \<and> ex_sent s ! i = c))"

definition corr_inv :: "exch \<Rightarrow> bool" where
  "corr_inv s = (lock_inv s \<and> inbox_inv s \<and> holder_ok s \<and> owner_ok s)"

lemma corr_inv_init: "corr_inv exch_init"
  by (simp add: corr_inv_def lock_inv_init inbox_inv_init holder_ok_def owner_ok_def)
    (simp add: exch_init_def settled_def)

lemma holder: "lock_inv s \<Longrightarrow> active (ex_phase s c) \<Longrightarrow> ex_lock s = Some c"
  by (simp add: lock_inv_def)

lemma holder_only: "lock_inv s \<Longrightarrow> ex_lock s = Some d \<Longrightarrow> c \<noteq> d \<Longrightarrow> \<not> active (ex_phase s c)"
  by (simp add: lock_inv_def)

lemma reply_holder:
  assumes "holder_ok s" "ex_replied s < length (ex_sent s)"
  obtains d where "ex_lock s = Some d" "ex_phase s d = Waiting" "ex_inbox s d = None"
    "ex_pending s = Some d" "length (ex_sent s) = Suc (ex_replied s)" "ex_sent s ! ex_replied s = d"
  using assms by (auto simp: holder_ok_def settled_def split: option.splits phase.splits)

lemma holder_ok_step:
  assumes "exch_step s l t" "undisturbed l" "lock_inv s" "owner_ok s" "holder_ok s"
  shows "holder_ok t"
  using assms(1)
proof (cases rule: exch_step.cases)
  case (acquire c)
  then show ?thesis
    using assms by (simp add: holder_ok_def owner_ok_def settled_def exch_defs)
next
  case (arm c)
  then show ?thesis
    using assms holder [of s c] by (simp add: holder_ok_def settled_def exch_defs)
next
  case (put c)
  then show ?thesis
    using assms holder [of s c] by (simp add: holder_ok_def settled_def exch_defs)
next
  case (put_fail c reached)
  then show ?thesis
    using assms by simp
next
  case reply
  then obtain d where "ex_lock s = Some d" "ex_phase s d = Waiting" "ex_inbox s d = None"
    "ex_pending s = Some d" "length (ex_sent s) = Suc (ex_replied s)" "ex_sent s ! ex_replied s = d"
    using reply_holder assms by metis
  with reply show ?thesis
    by (simp add: holder_ok_def settled_def deliver_def Let_def)
next
  case (receive c i)
  then show ?thesis
    using assms holder [of s c] by (simp add: holder_ok_def settled_def exch_defs)
next
  case (expire c)
  then show ?thesis
    using assms by simp
next
  case (clear c)
  then show ?thesis
    using assms holder [of s c] by (simp add: holder_ok_def)
next
  case (cancel c reached)
  then show ?thesis
    using assms by simp
qed

lemma owner_ok_step:
  assumes "exch_step s l t" "holder_ok s" "owner_ok s"
  shows "owner_ok t"
  using assms(1)
proof (cases rule: exch_step.cases)
  case reply
  then obtain d where "ex_phase s d = Waiting" "ex_pending s = Some d" "ex_sent s ! ex_replied s = d"
    using reply_holder assms by metis
  with reply assms show ?thesis
    by (auto simp: owner_ok_def deliver_def)
qed (use assms in \<open>auto simp: owner_ok_def exch_defs nth_append less_SucI\<close>)

lemma corr_inv_reached:
  assumes "reached undisturbed s"
  shows "corr_inv s"
  using assms corr_inv_init
  by (rule reached_invariant [where P = corr_inv])
    (simp add: corr_inv_def, blast intro: lock_inv_step inbox_inv_step holder_ok_step owner_ok_step)

lemma own_reply:
  assumes "reached undisturbed s" "ex_phase s c = Finished (GotReply i)"
  shows "i < length (ex_sent s) \<and> ex_sent s ! i = c"
  using corr_inv_reached [OF assms(1)] assms(2) unfolding corr_inv_def inbox_inv_def owner_ok_def by blast

text \<open>As long as no call times out or is dropped and no write fails, each call that returns a reply
  returns the reply to its own command: reply number \<open>i\<close> goes to the command that was written
  \<open>i\<close>-th, however the calls of the handles interleave. When no call holds the lock every command is
  answered.\<close>

theorem reply_correlation:
  assumes "reached undisturbed s"
  shows "(\<forall>c i. ex_phase s c = Finished (GotReply i) \<longrightarrow> i < length (ex_sent s) \<and> ex_sent s ! i = c)
    \<and> (ex_lock s = None \<longrightarrow> ex_replied s = length (ex_sent s))"
  using own_reply [OF assms] corr_inv_reached [OF assms]
  by (auto simp: corr_inv_def holder_ok_def settled_def)

section \<open>Executable runs\<close>

text \<open>A run of labels; the witnesses use it to exhibit reachable states.\<close>

fun exch_next :: "exch \<Rightarrow> label \<Rightarrow> exch option" where
  "exch_next s (Acquire c) =
     (if ex_phase s c = Idle \<and> ex_lock s = None
      then Some ((set_phase s c Locked)\<lparr>ex_lock := Some c\<rparr>) else None)"
| "exch_next s (Arm c) =
     (if ex_phase s c = Locked then Some ((set_phase s c Armed)\<lparr>ex_pending := Some c\<rparr>) else None)"
| "exch_next s (Write c) =
     (if ex_phase s c = Armed
      then Some ((set_phase s c Waiting)\<lparr>ex_sent := ex_sent s @ [c]\<rparr>) else None)"
| "exch_next s (WriteFail c b) =
     (if ex_phase s c = Armed
      then Some ((finish s c GotIoError)\<lparr>ex_sent := ex_sent s @ (if b then [c] else [])\<rparr>) else None)"
| "exch_next s Reply = (if ex_replied s < length (ex_sent s) then Some (deliver s) else None)"
| "exch_next s (ReceiveReply c) =
     (if ex_phase s c = Waiting
      then map_option (\<lambda>i. finish s c (GotReply i)) (ex_inbox s c) else None)"
| "exch_next s (Expire c) =
     (if ex_phase s c = Waiting \<and> ex_inbox s c = None then Some (set_phase s c TimedOut) else None)"
| "exch_next s (Clear c) =
     (if ex_phase s c = TimedOut
      then Some ((finish s c GotTimeout)\<lparr>ex_pending := None\<rparr>) else None)"
| "exch_next s (Cancel c b) =
     (if active (ex_phase s c)
      then Some ((finish s c GotCancelled)\<lparr>ex_sent :=
             ex_sent s @ (if ex_phase s c = Armed \<and> b then [c] else [])\<rparr>) else None)"

fun exch_run :: "exch \<Rightarrow> label list \<Rightarrow> exch option" where
  "exch_run s [] = Some s"
| "exch_run s (l # ls) = Option.bind (exch_next s l) (\<lambda>t. exch_run t ls)"

text \<open>The step relation and its executable reading are the same.\<close>

lemma exch_next_iff: "exch_next s l = Some t \<longleftrightarrow> exch_step s l t"
  by (cases l) (auto simp: exch_step_simps)

lemma reached_run: "reached ok s \<Longrightarrow> exch_run s ls = Some t \<Longrightarrow> list_all ok ls \<Longrightarrow> reached ok t"
proof (induction ls arbitrary: s)
  case (Cons l ls)
  then obtain u where "exch_step s l u" "exch_run u ls = Some t"
    by (auto simp: exch_next_iff bind_eq_Some_conv)
  with Cons show ?case
    by (auto intro: reached.step)
qed simp

lemma run_reaches:
  assumes "map_option P (exch_run exch_init ls) = Some True" "list_all ok ls"
  shows "\<exists>t. reached ok t \<and> P t"
  using assms reached_run [OF reached.start] by blast

text \<open>Two calls, one after the other, and a third that has taken the lock.\<close>

abbreviation one_call :: "nat \<Rightarrow> label list" where
  "one_call c \<equiv> [Acquire c, Arm c, Write c, Reply, ReceiveReply c]"

lemma two_calls_run:
  "\<exists>t. reached undisturbed t \<and> ex_phase t 0 = Finished (GotReply 0)
     \<and> ex_phase t 1 = Finished (GotReply 1) \<and> ex_phase t 2 = Locked"
  by (rule run_reaches [where ls = "one_call 0 @ one_call 1 @ [Acquire 2]"])
    (simp_all add: exch_init_def exch_defs Let_def)

theorem reply_correlation_witness:
  "\<exists>t::exch. ex_phase t 0 = Finished (GotReply 0) \<and> ex_phase t 1 = Finished (GotReply 1)
     \<and> ex_sent t ! 0 = 0 \<and> ex_sent t ! 1 = 1"
proof -
  obtain t where t: "reached undisturbed t" "ex_phase t 0 = Finished (GotReply 0)"
    "ex_phase t 1 = Finished (GotReply 1)"
    using two_calls_run by blast
  then have "ex_sent t ! 0 = 0" "ex_sent t ! 1 = 1"
    using reply_correlation [OF t(1)] by simp_all
  with t show ?thesis
    by blast
qed

theorem one_command_in_flight_witness:
  "\<exists>t::exch. active (ex_phase t 2) \<and> (\<forall>c. active (ex_phase t c) \<longrightarrow> c = 2)
     \<and> ex_phase t 1 = Finished (GotReply 1) \<and> 1 < ex_replied t"
proof -
  obtain t where t: "reached undisturbed t" "ex_phase t 1 = Finished (GotReply 1)"
    "ex_phase t 2 = Locked"
    using two_calls_run by blast
  then have "active (ex_phase t 2)"
    by simp
  moreover have "\<forall>c. active (ex_phase t c) \<longrightarrow> c = 2"
    using calculation one_command_in_flight [OF t(1), of _ 2] by blast
  moreover have "1 < ex_replied t"
    using t(2) one_command_in_flight [OF t(1), of 1 1 1] by blast
  ultimately show ?thesis
    using t(2) by blast
qed

section \<open>The reply slot\<close>

text \<open>A sender is in the slot exactly from the moment it is put there until it is used.\<close>

definition slot_inv :: "exch \<Rightarrow> bool" where
  "slot_inv a =
     ((\<forall>c. ex_phase a c = Idle \<or> ex_phase a c = Locked \<longrightarrow> ex_pending a \<noteq> Some c \<and> ex_inbox a c = None)
      \<and> (\<forall>c. ex_phase a c = Armed \<or> ex_phase a c = Waiting \<longrightarrow>
           (ex_pending a = Some c \<longleftrightarrow> ex_inbox a c = None)))"

lemma slot_inv_step:
  assumes "exch_step a l b" "lock_inv a" "slot_inv a"
  shows "slot_inv b"
  using assms(1)
proof (cases rule: exch_step.cases)
  case (arm c)
  then have "\<not> active (ex_phase a d)" if "d \<noteq> c" for d
    using holder_only [of a c d] holder [of a c] assms(2) that by simp
  then have "ex_phase a d \<noteq> Armed \<and> ex_phase a d \<noteq> Waiting" if "d \<noteq> c" for d
    using that by fastforce
  with arm assms(3) show ?thesis
    by (simp add: slot_inv_def exch_defs)
next
  case (clear c)
  then have "\<not> active (ex_phase a d)" if "d \<noteq> c" for d
    using holder_only [of a c d] holder [of a c] assms(2) that by simp
  then have "ex_phase a d \<noteq> Armed \<and> ex_phase a d \<noteq> Waiting" if "d \<noteq> c" for d
    using that by fastforce
  with clear assms(3) show ?thesis
    by (simp add: slot_inv_def exch_defs)
next
  case reply
  with assms(3) show ?thesis
    by (cases "ex_pending a") (auto simp: slot_inv_def deliver_def Let_def)
qed (use assms(3) in \<open>simp_all add: slot_inv_def exch_defs\<close>)

lemma slot_inv_reached: "reached ok a \<Longrightarrow> slot_inv a"
proof (induction rule: reached.induct)
  case start
  then show ?case by (simp add: slot_inv_def exch_init_def)
next
  case (step s l t)
  then show ?case using slot_inv_step lock_inv_reached by blast
qed

section \<open>Whose reply a call returns\<close>

text \<open>A call writes at most once; the one that waits has written last.\<close>

definition sent_inv :: "exch \<Rightarrow> bool" where
  "sent_inv s =
     (distinct (ex_sent s)
      \<and> (\<forall>c. ex_phase s c \<in> {Idle, Locked, Armed} \<longrightarrow> c \<notin> set (ex_sent s))
      \<and> (\<forall>c. ex_phase s c = Waiting \<longrightarrow> (\<exists>xs. ex_sent s = xs @ [c])))"

lemma sent_inv_step:
  assumes "exch_step s l t" "lock_inv s" "sent_inv s"
  shows "sent_inv t"
proof -
  have alone: "ex_phase s d \<noteq> Waiting" if "ex_phase s c = Armed" "d \<noteq> c" for c d
    using holder [OF assms(2), of c] holder_only [OF assms(2), of c d] that by force
  from assms(1) show ?thesis
  proof (cases rule: exch_step.cases)
    case (put c)
    with assms(3) alone [of c] show ?thesis by (auto simp: sent_inv_def exch_defs(1,2))
  next
    case (put_fail c reached)
    with assms(3) alone [of c] show ?thesis by (auto simp: sent_inv_def exch_defs(1,2))
  next
    case (cancel c reached)
    with assms(3) alone [of c] show ?thesis by (auto simp: sent_inv_def exch_defs(1,2))
  next
    case reply
    with assms(3) show ?thesis by (simp add: sent_inv_def deliver_def Let_def split: option.splits)
  qed (use assms(3) in \<open>auto simp: sent_inv_def exch_defs(1,2)\<close>)
qed

lemma sent_inv_reached: "reached ok s \<Longrightarrow> sent_inv s"
proof (induction rule: reached.induct)
  case start
  then show ?case by (simp add: sent_inv_def exch_init_def)
next
  case (step s l t)
  then show ?case using sent_inv_step lock_inv_reached by blast
qed

text \<open>What stays true of a call \<open>d\<close> that waited when \<open>ss\<close> had been sent and \<open>n\<close> replies delivered.\<close>

definition gets_next :: "nat \<Rightarrow> nat list \<Rightarrow> nat \<Rightarrow> exch \<Rightarrow> bool" where
  "gets_next d ss n s =
     (ex_phase s d \<notin> {Idle, Locked, Armed} \<and> prefix ss (ex_sent s)
      \<and> (ex_inbox s d = None \<or> ex_inbox s d = Some n \<and> n < length ss)
      \<and> (ex_phase s d = Waiting \<and> ex_inbox s d = None \<longrightarrow> ex_replied s = n \<and> ex_sent s = ss))"

lemma gets_next_step:
  assumes "exch_step s l t" "lock_inv s" "slot_inv s" "gets_next d ss n s"
  shows "gets_next d ss n t"
proof -
  have alone: "ex_phase s d \<noteq> Waiting" if "ex_phase s c = Armed" for c
    using holder [OF assms(2), of c] holder_only [OF assms(2), of c d] that by force
  from assms(1) show ?thesis
  proof (cases rule: exch_step.cases)
    case (put c)
    with assms(4) alone [of c] show ?thesis by (auto simp: gets_next_def exch_defs(1,2))
  next
    case (put_fail c reached)
    with assms(4) alone [of c] show ?thesis by (auto simp: gets_next_def exch_defs(1,2))
  next
    case (cancel c reached)
    with assms(4) alone [of c] show ?thesis by (auto simp: gets_next_def exch_defs(1,2))
  next
    case reply
    have "ex_phase s d = Waiting \<Longrightarrow> ex_pending s = Some d \<longleftrightarrow> ex_inbox s d = None"
      using assms(3) by (simp add: slot_inv_def)
    with reply assms(4) show ?thesis
      by (cases "ex_pending s") (auto simp: gets_next_def deliver_def Let_def)
  qed (use assms(4) in \<open>auto simp: gets_next_def exch_defs(1,2)\<close>)
qed

lemma gets_next_run:
  "reached (\<lambda>_. True) s \<Longrightarrow> gets_next d ss n s \<Longrightarrow> exch_run s ls = Some t \<Longrightarrow> gets_next d ss n t"
proof (induction ls arbitrary: s)
  case (Cons l ls)
  then obtain u where u: "exch_step s l u" "exch_run u ls = Some t"
    by (auto simp: exch_next_iff bind_eq_Some_conv)
  with Cons gets_next_step [OF u(1) lock_inv_reached slot_inv_reached] show ?case
    by (blast intro: reached.step)
qed simp

text \<open>C38. Whose reply a call returns. Take any state, with any timeouts, failed writes and dropped futures before
  it, in which a call has written and waits, its slot filled. Whatever happens next, if the call returns a reply, it is
  the next one the server sends; and that is the reply to its own command if and only if its command is the
  only one without a reply. So when an earlier command was given up (by the timeout or by dropping its future) before its
  reply came, and the reply had not come by the time the next command was written, the next call returns the reply to
  the earlier command as its own.\<close>

theorem late_reply_misdelivered:
  assumes "reached (\<lambda>_. True) s" "ex_phase s d = Waiting" "ex_inbox s d = None"
    and "exch_run s ls = Some t" "ex_phase t d = Finished (GotReply i)"
  shows "i = ex_replied s \<and> i < length (ex_sent s)
    \<and> (ex_sent t ! i = d \<longleftrightarrow> Suc (ex_replied s) = length (ex_sent s))"
proof -
  let ?n = "ex_replied s"
  obtain xs where xs: "ex_sent s = xs @ [d]" "d \<notin> set xs"
    using sent_inv_reached [OF assms(1)] assms(2) by (fastforce simp: sent_inv_def)
  have "gets_next d (ex_sent s) ?n s"
    using assms(2,3) by (simp add: gets_next_def)
  from gets_next_run [OF assms(1) this assms(4)] have g: "gets_next d (ex_sent s) ?n t" .
  have "ex_inbox t d = Some i"
    using inbox_inv_reached [OF reached_run [OF assms(1,4)], unfolded inbox_inv_def] assms(5)
    by (simp add: list_all_iff)
  with g have i: "i = ?n" "?n < length (ex_sent s)"
    by (auto simp: gets_next_def)
  obtain zs where "ex_sent t = ex_sent s @ zs"
    using g by (auto simp: gets_next_def prefix_def)
  with i have at: "ex_sent t ! i = (xs @ [d]) ! ?n"
    by (simp add: nth_append xs(1))
  have "(xs @ [d]) ! ?n = d \<longleftrightarrow> ?n = length xs"
    using i(2) xs by (auto simp: nth_append less_Suc_eq)
  with i at show ?thesis
    by (simp add: xs(1))
qed

theorem late_reply_misdelivered_witness:
  "\<exists>s t. exch_run exch_init [Acquire 0, Arm 0, Write 0, Expire 0, Clear 0, Acquire 1, Arm 1, Write 1] = Some s
     \<and> exch_run s [Reply, ReceiveReply 1] = Some t
     \<and> ex_phase t 1 = Finished (GotReply 0) \<and> ex_sent t ! 0 \<noteq> 1"
proof -
  let ?ls = "[Acquire 0, Arm 0, Write 0, Expire 0, Clear 0, Acquire 1, Arm 1, Write 1]"
  obtain s where s: "exch_run exch_init ?ls = Some s" "ex_phase s 1 = Waiting" "ex_inbox s 1 = None"
    "ex_replied s = 0" "length (ex_sent s) = 2" "ex_pending s = Some 1"
    by (simp add: exch_init_def exch_defs Let_def)
  have r: "reached (\<lambda>_. True) s"
    using reached_run [OF reached.start s(1)] by (simp add: list_all_iff)
  obtain t where t: "exch_run s [Reply, ReceiveReply 1] = Some t" "ex_phase t 1 = Finished (GotReply 0)"
    using s(2-) by (simp add: deliver_def finish_def set_phase_def Let_def)
  from late_reply_misdelivered [OF r s(2,3) t] s t show ?thesis
    by auto
qed

section \<open>What a call waits for\<close>

text \<open>Only the first \<open>n\<close> commands are made.\<close>

fun label_below :: "nat \<Rightarrow> label \<Rightarrow> bool" where
  "label_below n Reply = True"
| "label_below n (Acquire c) = (c < n)"
| "label_below n (Arm c) = (c < n)"
| "label_below n (Write c) = (c < n)"
| "label_below n (WriteFail c _) = (c < n)"
| "label_below n (ReceiveReply c) = (c < n)"
| "label_below n (Expire c) = (c < n)"
| "label_below n (Clear c) = (c < n)"
| "label_below n (Cancel c _) = (c < n)"

fun weight :: "phase \<Rightarrow> nat" where
  "weight Idle = 6"
| "weight Locked = 5"
| "weight Armed = 4"
| "weight Waiting = 2"
| "weight TimedOut = 1"
| "weight (Finished _) = 0"

definition remaining :: "nat \<Rightarrow> exch \<Rightarrow> nat" where
  "remaining n s = (\<Sum>c<n. weight (ex_phase s c)) + (length (ex_sent s) - ex_replied s)"

lemma weight_update:
  fixes c n :: nat
  assumes "c < n"
  shows "(\<Sum>d<n. weight ((f(c := p)) d)) + weight (f c) = (\<Sum>d<n. weight (f d)) + weight p"
proof -
  have "(\<Sum>d<n. weight (g d)) = weight (g c) + (\<Sum>d \<in> {..<n} - {c}. weight (g d))" for g
    using assms by (intro sum.remove) auto
  moreover have "(\<Sum>d \<in> {..<n} - {c}. weight ((f(c := p)) d)) = (\<Sum>d \<in> {..<n} - {c}. weight (f d))"
    by (intro sum.cong) auto
  ultimately show ?thesis
    by simp
qed

lemma deliver_phase [simp]:
  "ex_phase (deliver s) = ex_phase s" "ex_sent (deliver s) = ex_sent s"
  "ex_replied (deliver s) = Suc (ex_replied s)"
  by (simp_all add: deliver_def Let_def split: option.splits)

lemma remaining_step:
  assumes "exch_step s l t" "label_below n l" "ex_replied s \<le> length (ex_sent s)"
  shows "remaining n t < remaining n s"
  using assms(1)
proof (cases rule: exch_step.cases)
  case reply
  then show ?thesis
    by (simp add: remaining_def)
next
  case (put_fail c b)
  then show ?thesis
    using assms(2,3) weight_update [of c n "ex_phase s" "Finished GotIoError"]
    by (simp add: remaining_def exch_defs del: fun_upd_apply) linarith
next
  case (acquire c)
  then show ?thesis
    using assms(2) weight_update [of c n "ex_phase s" Locked]
    by (simp add: remaining_def exch_defs del: fun_upd_apply)
next
  case (arm c)
  then show ?thesis
    using assms(2) weight_update [of c n "ex_phase s" Armed]
    by (simp add: remaining_def exch_defs del: fun_upd_apply)
next
  case (put c)
  then show ?thesis
    using assms(2,3) weight_update [of c n "ex_phase s" Waiting]
    by (simp add: remaining_def exch_defs del: fun_upd_apply)
next
  case (receive c i)
  then show ?thesis
    using assms(2) weight_update [of c n "ex_phase s" "Finished (GotReply i)"]
    by (simp add: remaining_def exch_defs del: fun_upd_apply)
next
  case (expire c)
  then show ?thesis
    using assms(2) weight_update [of c n "ex_phase s" TimedOut]
    by (simp add: remaining_def exch_defs del: fun_upd_apply)
next
  case (clear c)
  then show ?thesis
    using assms(2) weight_update [of c n "ex_phase s" "Finished GotTimeout"]
    by (simp add: remaining_def exch_defs del: fun_upd_apply)
next
  case (cancel c reached)
  then have "weight (ex_phase s c) > 0"
    by (cases "ex_phase s c"; simp)
  then show ?thesis
    using cancel assms(2,3) weight_update [of c n "ex_phase s" "Finished GotCancelled"]
    by (cases "ex_phase s c = Armed \<and> reached")
      (simp_all add: remaining_def exch_defs del: fun_upd_apply)
qed

definition idle_above :: "nat \<Rightarrow> exch \<Rightarrow> bool" where
  "idle_above n s = (\<forall>c \<ge> n. ex_phase s c = Idle)"

lemma idle_above_step: "exch_step s l t \<Longrightarrow> label_below n l \<Longrightarrow> idle_above n s \<Longrightarrow> idle_above n t"
  by (cases rule: exch_step.cases) (auto simp: idle_above_def exch_defs(1,2))

lemma run_invariants:
  "exch_run s ls = Some t \<Longrightarrow> list_all (label_below n) ls \<Longrightarrow> inbox_inv s \<Longrightarrow> lock_inv s \<Longrightarrow> idle_above n s \<Longrightarrow>
     inbox_inv t \<and> lock_inv t \<and> idle_above n t \<and> length ls + remaining n t \<le> remaining n s"
proof (induction ls arbitrary: s)
  case (Cons l ls)
  then obtain u where u: "exch_step s l u" "exch_run u ls = Some t"
    by (auto simp: exch_next_iff bind_eq_Some_conv)
  have "ex_replied s \<le> length (ex_sent s)"
    using Cons.prems(3) by (simp add: inbox_inv_def)
  then have "remaining n u < remaining n s"
    using remaining_step [OF u(1)] Cons.prems(2) by simp
  moreover have "inbox_inv t \<and> lock_inv t \<and> idle_above n t \<and> length ls + remaining n t \<le> remaining n u"
    using Cons.IH [OF u(2)] Cons.prems u(1) inbox_inv_step lock_inv_step idle_above_step by simp
  ultimately show ?case
    by simp
qed simp

text \<open>The steps that are only up to the client: the lock is free, the next line is run, a reply or the timer is
  there. Writing, the server's replies and dropping a future are not among them.\<close>

fun prompt :: "label \<Rightarrow> bool" where
  "prompt (Acquire _) = True"
| "prompt (Arm _) = True"
| "prompt (ReceiveReply _) = True"
| "prompt (Expire _) = True"
| "prompt (Clear _) = True"
| "prompt _ = False"

lemma active_can_step:
  "active (ex_phase s c) \<Longrightarrow> ex_phase s c \<noteq> Armed \<Longrightarrow> c < n \<Longrightarrow> \<exists>l t. label_below n l \<and> prompt l \<and> exch_step s l t"
  by (cases "ex_phase s c"; cases "ex_inbox s c")
    (fastforce intro: exch_step.intros label_below.simps [THEN iffD2])+

text \<open>C18. Calls wait for nothing but a write. When \<open>n\<close> commands are made, whatever the server does (replies
  late or never), whatever writes fail and whatever futures are dropped, no run is longer than \<open>6 n\<close> steps. When no
  step is left that is up to the client, either all \<open>n\<close> calls have returned, or exactly one of them is in
  \<open>write_all\<close>, holding the writer lock, and all the others have returned or wait for the lock behind it. So there is
  no deadlock and no call waits for ever for its reply; but a peer that stops reading blocks
  a call, and every call after it, without any bound: the command timeout covers neither the write nor the lock.\<close>

theorem calls_wait_only_for_write:
  assumes "exch_run exch_init ls = Some t" "list_all (label_below n) ls"
  shows "length ls \<le> 6 * n
    \<and> ((\<forall>l u. label_below n l \<and> prompt l \<longrightarrow> \<not> exch_step t l u) \<longrightarrow>
         (\<forall>c < n. \<exists>r. ex_phase t c = Finished r)
         \<or> (\<exists>c < n. ex_phase t c = Armed \<and> ex_lock t = Some c
              \<and> (\<forall>d < n. d \<noteq> c \<longrightarrow> ex_phase t d = Idle \<or> (\<exists>r. ex_phase t d = Finished r))))"
proof -
  have "remaining n exch_init = 6 * n" "idle_above n exch_init"
    by (simp_all add: remaining_def exch_init_def idle_above_def)
  with run_invariants [OF assms inbox_inv_init lock_inv_init]
  have inv: "lock_inv t" "idle_above n t" and len: "length ls \<le> 6 * n"
    by auto
  have "(\<forall>c < n. \<exists>r. ex_phase t c = Finished r)
      \<or> (\<exists>c < n. ex_phase t c = Armed \<and> ex_lock t = Some c
           \<and> (\<forall>d < n. d \<noteq> c \<longrightarrow> ex_phase t d = Idle \<or> (\<exists>r. ex_phase t d = Finished r)))"
    if stuck: "\<forall>l u. label_below n l \<and> prompt l \<longrightarrow> \<not> exch_step t l u"
  proof (cases "ex_lock t")
    case None
    have "\<exists>r. ex_phase t c = Finished r" if "c < n" for c
    proof -
      have "\<not> active (ex_phase t c)" using inv(1) None by (simp add: lock_inv_def)
      moreover have "ex_phase t c \<noteq> Idle"
        using exch_step.acquire [of t c, OF _ None] stuck that by fastforce
      ultimately show ?thesis by (cases "ex_phase t c") auto
    qed
    then show ?thesis by blast
  next
    case (Some c)
    then have c: "active (ex_phase t c)" using inv(1) by (simp add: lock_inv_def)
    moreover from this have "c < n" using inv(2) by (cases "c < n") (auto simp: idle_above_def)
    ultimately have "ex_phase t c = Armed" using active_can_step [of t c n] stuck by blast
    moreover have "ex_phase t d = Idle \<or> (\<exists>r. ex_phase t d = Finished r)" if "d \<noteq> c" for d
      using holder_only [OF inv(1) Some that] by (cases "ex_phase t d") auto
    ultimately show ?thesis using \<open>c < n\<close> Some by blast
  qed
  with len show ?thesis
    by blast
qed

text \<open>A call whose write does not return, and another one behind it.\<close>

theorem calls_wait_only_for_write_witness:
  "\<exists>t. exch_run exch_init [Acquire 0, Arm 0] = Some t \<and> ex_phase t 0 = Armed \<and> ex_lock t = Some 0
     \<and> ex_phase t 1 = Idle"
proof -
  obtain t where t: "exch_run exch_init [Acquire 0, Arm 0] = Some t" "\<forall>c. ex_phase t c = (if c = 0 then Armed else Idle)"
    "ex_lock t = Some 0"
    by (simp add: exch_init_def exch_defs)
  have "\<forall>l u. label_below 2 l \<and> prompt l \<longrightarrow> \<not> exch_step t l u"
  proof (intro allI impI)
    fix l u
    show "label_below 2 l \<and> prompt l \<Longrightarrow> \<not> exch_step t l u"
      using t(2,3) by (cases l) (auto simp: exch_step_simps split: if_splits)
  qed
  with calls_wait_only_for_write [OF t(1), of 2] t show ?thesis
    by auto
qed

end
