(* ===== verification/Esl_Connection.thy ===== *)
theory Esl_Connection
  imports Esl_Client
begin

text \<open>
  A connection as a whole: connecting, the handshake and the reader task of \<open>src/src/connection.rs\<close>
  on one byte stream. The theorem composes framing, handshake, reader, routing and dispatch.
\<close>

section \<open>The buffer over the whole stream\<close>

abbreviation left_over :: "(string \<Rightarrow> bytes) \<Rightarrow> bytes \<Rightarrow> bytes" where
  "left_over pdec bs \<equiv> snd (snd (frames pdec bs))"

lemma left_over_append: "left_over pdec (left_over pdec bs @ d) = left_over pdec (bs @ d)"
proof (induction pdec bs rule: frames.induct)
  case (1 pdec bs)
  show ?case
  proof (cases "next_frame pdec bs")
    case (Frame m r)
    then have "next_frame pdec (bs @ d) = Frame m (r @ d)" by (rule frame_extends)
    with 1[OF Frame] Frame show ?thesis
      by (cases "frames pdec r"; cases "frames pdec (r @ d)")
        (simp add: frames.simps[of pdec bs] frames.simps[of pdec "bs @ d"])
  qed (simp_all add: frames.simps[of pdec bs])
qed

lemma within_buffer_left_over: "within_buffer pdec (left_over pdec bs @ d) cs = within_buffer pdec (bs @ d) cs"
  by (cases cs) (simp_all only: within_buffer.simps left_over_append)

lemma within_buffer_append:
  assumes "length bs + length (concat cs) \<le> MAX_BUFFER_SIZE" "within_buffer pdec (bs @ concat cs) ds"
  shows "within_buffer pdec bs (cs @ ds)"
  using assms
proof (induction cs arbitrary: bs)
  case (Cons c cs)
  have le: "length (left_over pdec bs) \<le> length bs" by (rule frames_rest_length)
  have "within_buffer pdec (left_over pdec bs @ c) (cs @ ds)"
    using Cons.IH[of "left_over pdec bs @ c"] Cons.prems le
      within_buffer_left_over[of pdec bs "c @ concat cs" ds] by simp
  then show ?case using le Cons.prems(1) by (simp add: Let_def)
qed simp

section \<open>From the socket to the event queue\<close>

text \<open>The connection can be made: the TCP connection, the writes and the credentials are good.\<close>

definition can_connect :: "'q network \<Rightarrow> AuthMethod \<Rightarrow> bool" where
  "can_connect net method =
     (net_tcp net = TcpOk \<and> net_write_error net = None
      \<and> (case method of User user _ \<Rightarrow> CHR ''@'' \<in> set user | Password _ \<Rightarrow> True)
      \<and> is_ok (to_wire_format (net_ord_ev net) (net_ord_cb net) (auth_command method)))"

lemma connect_inner_authenticates:
  "can_connect net method \<Longrightarrow>
     connect_inner pdec ord_ev ord_cb (net_tcp net) rs (net_write_error net) method
       = authenticate pdec ord_ev ord_cb parser_new rs None method"
  by (auto simp: can_connect_def connect_inner_def tcp_connect_with_timeout_def split: AuthMethod.splits)

definition network_handshake :: "'q network \<Rightarrow> AuthMethod \<Rightarrow> handshake" where
  "network_handshake net method =
     connect_inner (net_pdec net) (net_ord_ev net) (net_ord_cb net) (net_tcp net) (net_reads net)
       (net_write_error net) method"

lemma connect_method_spawns:
  assumes "can_connect net method" "net_reads net = map ReadData cs"
    and "next_frame (net_pdec net) (concat cs) = Frame m1 R1" "message_type m1 = AuthRequest"
    and "next_frame (net_pdec net) R1 = Frame m2 R2" "is_success (into_response m2)"
    and "\<forall>c \<in> set cs. c \<noteq> []" "length (concat cs) \<le> MAX_BUFFER_SIZE"
  shows "\<exists>p bs cs'. connect_method net method options
             = Inr (spawn_reader (net_make_channel net) options p (net_now net))
           \<and> hs_reads (network_handshake net method) = map ReadData cs'
           \<and> represents (net_pdec net) p bs \<and> bs @ concat cs' = R2
           \<and> (\<forall>c \<in> set cs'. c \<noteq> []) \<and> length bs + length (concat cs') \<le> MAX_BUFFER_SIZE"
proof -
  obtain line where line: "to_wire_format (net_ord_ev net) (net_ord_cb net) (auth_command method) = Inr line"
    using assms(1) by (auto simp: can_connect_def is_ok_iff)
  define hs where "hs = network_handshake net method"
  have hs: "hs = authenticate (net_pdec net) (net_ord_ev net) (net_ord_cb net) parser_new (map ReadData cs) None method"
    using connect_inner_authenticates[OF assms(1)] assms(2) by (simp add: hs_def network_handshake_def)
  from handshake_steps[OF assms(3,5,7,8) hs] assms(4,6) line
  obtain bs cs' where "hs_result hs = Inr ()" "represents (net_pdec net) (hs_parser hs) bs"
    "hs_reads hs = map ReadData cs'" "bs @ concat cs' = R2" "set cs' \<subseteq> set cs"
    "length bs + length (concat cs') \<le> MAX_BUFFER_SIZE" by auto
  then show ?thesis
    using assms(7) unfolding connect_method_def connect_spawn_def network_handshake_def[symmetric] hs_def[symmetric]
    by (intro exI[of _ "hs_parser hs"] exI[of _ bs] exI[of _ cs']) auto
qed

lemma delivers:
  assumes "event_channel items is_open capacity (env_send env) recv"
    and "\<forall>n. is_open (net_make_channel net n) \<and> items (net_make_channel net n) = []
           \<and> capacity (net_make_channel net n) = n"
    and "env_pdec env = net_pdec net"
    and "can_connect net method" "net_reads net = map ReadData cs"
    and "next_frame (net_pdec net) (concat cs) = Frame m1 R1" "message_type m1 = AuthRequest"
    and "next_frame (net_pdec net) R1 = Frame m2 R2" "is_success (into_response m2)"
    and "\<forall>c \<in> set cs. c \<noteq> []" "length (concat cs) \<le> MAX_BUFFER_SIZE"
    and "\<forall>tc \<in> set later. snd tc \<noteq> []" "within_buffer (net_pdec net) R2 (map snd later)"
    and "frames (net_pdec net) (R2 @ concat (map snd later)) = (ms, None, rest)"
    and "\<forall>m \<in> set ms. \<not> ends_session m" "length (filter is_event ms) \<le> queue_capacity options"
  shows "\<exists>r unread. connect_method net method options = Inr r
           \<and> hs_reads (network_handshake net method) = map ReadData unread
           \<and> (\<forall>times. length times = length unread \<longrightarrow>
                (\<exists>r'. reader_loop_inner env r (map data_input (zip times unread @ later)) = ReadMore r'
                  \<and> items (w_queue (rd_world r')) = map (event_result env) (filter is_event ms)
                  \<and> w_status (rd_world r') = Connected \<and> w_replies (rd_world r') = []
                  \<and> dropped_event_count (w_shared (rd_world r')) = 0))"
proof -
  obtain p bs unread where c: "connect_method net method options
        = Inr (spawn_reader (net_make_channel net) options p (net_now net))"
      "hs_reads (network_handshake net method) = map ReadData unread"
      "represents (net_pdec net) p bs" "bs @ concat unread = R2"
      "\<forall>c \<in> set unread. c \<noteq> []" "length bs + length (concat unread) \<le> MAX_BUFFER_SIZE"
    using connect_method_spawns[OF assms(4-11)] by blast
  let ?r = "spawn_reader (net_make_channel net) options p (net_now net)"
  define w where "w = spawn_world (net_make_channel net) options"
  have w: "rd_world ?r = w" "rd_parser ?r = p"
    by (simp_all add: spawn_reader_def reader_start_def w_def)
  have "is_open (w_queue w)" "items (w_queue w) = []" "capacity (w_queue w) = queue_capacity options"
    "\<not> event_overflow (w_shared w)" "w_status w = Connected" "w_replies w = []"
    "pending_reply (w_shared w) = None" "dropped_event_count (w_shared w) = 0"
    using assms(2) by (simp_all add: w_def spawn_world_def shared_new_def)
  with handle_all_routes[OF assms(1), of w ms] assms(15,16) obtain w' where
    w': "handle_all env w ms = Continue w'" "items (w_queue w') = map (event_result env) (filter is_event ms)"
      "w_replies w' = []" "w_status w' = Connected" "dropped_event_count (w_shared w') = 0"
    by (auto simp: first_reply_def)
  have run: "\<exists>r'. reader_loop_inner env ?r (map data_input (zip times unread @ later)) = ReadMore r' \<and> rd_world r' = w'"
    if "length times = length unread" for times
  proof -
    have snds: "map snd (zip times unread) = unread" using that by simp
    have "\<forall>tc \<in> set (zip times unread). snd tc \<noteq> []"
      using c(5) set_zip_rightD[of _ _ times unread] by (metis prod.collapse)
    then have "\<forall>tc \<in> set (zip times unread @ later). snd tc \<noteq> []"
      using assms(12) by (simp add: ball_Un)
    moreover have "within_buffer (env_pdec env) bs (unread @ map snd later)"
      using within_buffer_append[OF c(6)] assms(3,13) c(4) by simp
    ultimately have "observed (reader_loop_inner env ?r (map data_input (zip times unread @ later)))
        = stream_outcome env w (frames (env_pdec env) (bs @ concat (unread @ map snd later)))"
      using reader_loop_stream[of env ?r bs "zip times unread @ later"] c(3) assms(3) w snds by simp
    also have "\<dots> = ReadMore w'"
      using assms(3,14) c(4) w'(1) by (simp add: stream_outcome_def flip: append_assoc)
    finally show ?thesis by (rule observed_cases(1))
  qed
  show ?thesis
  proof (rule exI[of _ ?r], rule exI[of _ unread], intro conjI allI impI)
    show "connect_method net method options = Inr ?r" "hs_reads (network_handshake net method) = map ReadData unread"
      by (fact c)+
    fix times :: "nat list"
    assume "length times = length unread"
    then obtain r' where "reader_loop_inner env ?r (map data_input (zip times unread @ later)) = ReadMore r'"
      "rd_world r' = w'" using run by blast
    with w' show "\<exists>r'. reader_loop_inner env ?r (map data_input (zip times unread @ later)) = ReadMore r'
        \<and> items (w_queue (rd_world r')) = map (event_result env) (filter is_event ms)
        \<and> w_status (rd_world r') = Connected \<and> w_replies (rd_world r') = []
        \<and> dropped_event_count (w_shared (rd_world r')) = 0" by (intro exI[of _ r']) simp
  qed
qed

text \<open>C10. From the socket to the event queue. When the server sends an authentication request, a
  successful reply and then any messages that do not end the session, in whatever chunks the stream arrives:
  connecting succeeds, and once the reader has read everything (first the chunks the handshake
  left unread, then any later ones) it waits for more data, the status is connected, no
  reply was given to anyone, and the queue holds exactly the events of the stream after the handshake, each once
  and in order, as long as they fit in it. No message of the stream is read twice or lost between handshake
  and reader.\<close>

theorem connection_delivers_events:
  assumes "event_channel items is_open capacity (env_send env) recv"
    and "\<forall>n. is_open (net_make_channel net n) \<and> items (net_make_channel net n) = []
           \<and> capacity (net_make_channel net n) = n"
    and "env_pdec env = net_pdec net"
    and "can_connect net method" "net_reads net = map ReadData cs"
    and "next_frame (net_pdec net) (concat cs) = Frame m1 R1" "message_type m1 = AuthRequest"
    and "next_frame (net_pdec net) R1 = Frame m2 R2" "is_success (into_response m2)"
    and "\<forall>c \<in> set cs. c \<noteq> []" "length (concat cs) \<le> MAX_BUFFER_SIZE"
    and "\<forall>tc \<in> set later. snd tc \<noteq> []" "within_buffer (net_pdec net) R2 (map snd later)"
    and "frames (net_pdec net) (R2 @ concat (map snd later)) = (ms, None, rest)"
    and "\<forall>m \<in> set ms. \<not> ends_session m" "length (filter is_event ms) \<le> queue_capacity options"
  shows "\<exists>r unread. connect_method net method options = Inr r
           \<and> hs_reads (network_handshake net method) = map ReadData unread
           \<and> (\<forall>times. length times = length unread \<longrightarrow>
                (\<exists>r'. reader_loop_inner env r (map data_input (zip times unread @ later)) = ReadMore r'
                  \<and> items (w_queue (rd_world r')) = map (event_result env) (filter is_event ms)
                  \<and> w_status (rd_world r') = Connected \<and> w_replies (rd_world r') = []
                  \<and> dropped_event_count (w_shared (rd_world r')) = 0))"
  using assms by (rule delivers)

text \<open>A server that accepts the password; its next bytes arrive with the reply.\<close>

definition sample_reads :: "bytes \<Rightarrow> bytes list" where
  "sample_reads next_bytes = [take 9 sample_banner, drop 9 sample_banner @ sample_accept @ next_bytes]"

definition sample_network :: "bytes \<Rightarrow> event_item list_queue network" where
  "sample_network next_bytes =
     \<lparr>net_pdec = percent_decode_ref, net_ord_ev = sorted_list_of_fmap, net_ord_cb = sorted_list_of_fmap,
      net_make_channel = (\<lambda>n. \<lparr>lq_items = [], lq_open = True, lq_cap = n\<rparr>), net_tcp = TcpOk,
      net_reads = map ReadData (sample_reads next_bytes), net_write_error = None, net_now = 0\<rparr>"

lemma sample_network_simps:
  "net_pdec (sample_network b) = percent_decode_ref"
  "net_reads (sample_network b) = map ReadData (sample_reads b)"
  "net_make_channel (sample_network b) n = \<lparr>lq_items = [], lq_open = True, lq_cap = n\<rparr>"
  "can_connect (sample_network b) (Password ''ClueCon'')"
  by (simp_all add: sample_network_def can_connect_def auth_command_def validate_no_newlines_def has_newline_def)

lemma sample_reads_simps:
  "concat (sample_reads b) = sample_banner @ sample_accept @ b" "\<forall>c \<in> set (sample_reads b). c \<noteq> []"
  "length (concat (sample_reads b)) \<le> 100 + length b"
  by (simp_all add: sample_reads_def sample_banner_def sample_accept_def)

lemma sample_handshake:
  obtains m1 m2 where
    "\<And>b. next_frame percent_decode_ref (concat (sample_reads b)) = Frame m1 (sample_accept @ b)"
    "message_type m1 = AuthRequest"
    "\<And>b. next_frame percent_decode_ref (sample_accept @ b) = Frame m2 b" "is_success (into_response m2)"
proof -
  have f1: "case next_frame percent_decode_ref sample_banner of
      Frame m R \<Rightarrow> message_type m = AuthRequest \<and> R = [] | _ \<Rightarrow> False"
    by code_simp
  have f2: "case next_frame percent_decode_ref sample_accept of
      Frame m R \<Rightarrow> R = [] \<and> is_success (into_response m) | _ \<Rightarrow> False"
    by code_simp
  from f1 obtain m1 where m1: "next_frame percent_decode_ref sample_banner = Frame m1 []"
    "message_type m1 = AuthRequest"
    by (auto split: frame.splits)
  from f2 obtain m2 where m2: "next_frame percent_decode_ref sample_accept = Frame m2 []"
    "is_success (into_response m2)"
    by (auto split: frame.splits)
  show thesis
    using that[OF _ m1(2) _ m2(2)] frame_extends[OF m1(1)] frame_extends[OF m2(1)]
    by (simp add: sample_reads_simps)
qed

lemma sample_channel:
  "event_channel lq_items lq_open lq_cap (env_send sample_env) lq_recv"
  "\<forall>n. lq_open (net_make_channel (sample_network b) n) \<and> lq_items (net_make_channel (sample_network b) n) = []
     \<and> lq_cap (net_make_channel (sample_network b) n) = n"
  "env_pdec sample_env = net_pdec (sample_network b)"
  using list_chan.event_channel_axioms by (simp_all add: sample_env_def sample_network_simps)

text \<open>One event, cut inside its envelope.\<close>

definition sample_event_bytes :: bytes where
  "sample_event_bytes =
     ''Content-Length: 10'' @ [NL] @ ''Content-Type: text/event-plain'' @ [NL, NL] @ ''Name: b'' @ [NL, NL, NL]"

theorem connection_delivers_events_witness:
  "\<exists>r unread r'. connect_method (sample_network (take 7 sample_event_bytes)) (Password ''ClueCon'')
         connect_options_default = Inr r
     \<and> reader_loop_inner sample_env r
         (map data_input (zip (replicate (length unread) 1) unread @ [(2, drop 7 sample_event_bytes)])) = ReadMore r'
     \<and> length (lq_items (w_queue (rd_world r'))) = 1 \<and> w_status (rd_world r') = Connected"
proof -
  let ?b = "take 7 sample_event_bytes"
  let ?later = "[(2 :: nat, drop 7 sample_event_bytes)]"
  let ?net = "sample_network ?b"
  obtain m1 m2 where
    m1: "next_frame (net_pdec ?net) (concat (sample_reads ?b)) = Frame m1 (sample_accept @ ?b)" "message_type m1 = AuthRequest"
    and m2: "next_frame (net_pdec ?net) (sample_accept @ ?b) = Frame m2 ?b" "is_success (into_response m2)"
    using sample_handshake unfolding sample_network_simps by metis
  have f3: "case next_frame percent_decode_ref sample_event_bytes of
      Frame m R \<Rightarrow> R = [] \<and> message_type m = EventMsg | _ \<Rightarrow> False"
    by code_simp
  then obtain m3 where m3: "next_frame percent_decode_ref sample_event_bytes = Frame m3 []" "message_type m3 = EventMsg"
    by (auto split: frame.splits)
  have fr: "frames (net_pdec ?net) (?b @ concat (map snd ?later)) = ([m3], None, [])"
    using m3 by (simp add: sample_network_simps frames.simps[of _ sample_event_bytes] frames.simps[of _ "[]"]
        next_frame_def)
  have len: "length (concat (sample_reads ?b)) \<le> MAX_BUFFER_SIZE" "drop 7 sample_event_bytes \<noteq> []"
    "length ?b + length (concat (map snd ?later)) \<le> MAX_BUFFER_SIZE"
    by (simp_all add: sample_event_bytes_def sample_reads_simps sample_banner_def sample_accept_def MAX_BUFFER_SIZE_def)
  have later: "\<forall>tc \<in> set ?later. snd tc \<noteq> []" "within_buffer (net_pdec ?net) ?b (map snd ?later)"
    using len within_buffer_total[OF len(3)] by simp_all
  have ms: "\<forall>m \<in> set [m3]. \<not> ends_session m" "length (filter is_event [m3]) \<le> queue_capacity connect_options_default"
    "is_event m3"
    using m3(2) by (simp_all add: queue_capacity_def connect_options_default_def is_event_def ends_session_def)
  obtain r unread where r: "connect_method ?net (Password ''ClueCon'') connect_options_default = Inr r"
    and run: "\<And>times. length times = length unread \<Longrightarrow>
       \<exists>r'. reader_loop_inner sample_env r (map data_input (zip times unread @ ?later)) = ReadMore r'
          \<and> lq_items (w_queue (rd_world r')) = map (event_result sample_env) (filter is_event [m3])
          \<and> w_status (rd_world r') = Connected"
    using connection_delivers_events[OF sample_channel sample_network_simps(4,2) m1 m2 sample_reads_simps(2) len(1)
        later fr ms(1,2)] by blast
  from run[of "replicate (length unread) 1"] ms(3) obtain r' where
    "reader_loop_inner sample_env r
       (map data_input (zip (replicate (length unread) 1) unread @ ?later)) = ReadMore r'"
    "lq_items (w_queue (rd_world r')) = [event_result sample_env m3]" "w_status (rd_world r') = Connected"
    by auto
  then show ?thesis
    using r by (intro exI[of _ r] exI[of _ unread] exI[of _ r']) simp
qed

end
