(* ===== verification/Esl_Delivery.thy ===== *)
theory Esl_Delivery
  imports Esl_Connection
begin

text \<open>
  From the server's events to the application's: the serialised events of \<open>src/src/event.rs\<close>, sent in
  their envelopes over a connection of \<open>src/src/connection.rs\<close> that is cut by TCP at any place, are the
  events the application receives.
\<close>

section \<open>Sent and received events\<close>

definition sent_event :: "(bytes \<Rightarrow> string) \<Rightarrow> EslEvent \<Rightarrow> bytes" where
  "sent_event penc ev =
     wire_message (plain_envelope (to_plain_format penc ev)) (to_plain_format penc ev)"

definition received_event :: "EslEvent \<Rightarrow> EslEvent" where
  "received_event ev = event_of (reread_headers ev) (if ev_body ev = Some [] then None else ev_body ev)"

definition sendable :: "(bytes \<Rightarrow> string) \<Rightarrow> EslEvent \<Rightarrow> bool" where
  "sendable penc ev =
     (wf_event ev \<and> length (to_plain_format penc ev) \<le> MAX_MESSAGE_SIZE \<and> utf8_valid (to_plain_format penc ev))"

text \<open>What the application gets from its stream when it calls \<open>recv\<close> \<open>n\<close> times.\<close>

fun receives :: "('q \<Rightarrow> event_item option \<times> 'q) \<Rightarrow> nat \<Rightarrow> 'q world \<Rightarrow> event_item option list" where
  "receives recv_queue 0 w = []"
| "receives recv_queue (Suc n) w =
     (case stream_recv recv_queue w of (x, w') \<Rightarrow> x # receives recv_queue n w')"

lemma receives_items:
  assumes "event_channel items is_open capacity try_send recv"
  shows "receives recv (length (items (w_queue w))) w = map Some (items (w_queue w))"
proof (induction "items (w_queue w)" arbitrary: w)
  case (Cons x xs)
  from event_channel.recv_some[OF assms, of "w_queue w" x xs] Cons.hyps(2) obtain q' where
    q': "recv (w_queue w) = (Some x, q')" "items q' = xs" by auto
  then have "stream_recv recv w = (Some x, w\<lparr>w_queue := q'\<rparr>)" by (simp add: stream_recv_def)
  moreover have "receives recv (length xs) (w\<lparr>w_queue := q'\<rparr>) = map Some xs"
    using Cons.hyps(1)[of "w\<lparr>w_queue := q'\<rparr>"] q'(2) by simp
  ultimately show ?case using Cons.hyps(2) by (metis length_Cons list.map(2) receives.simps(2) case_prod_conv)
qed simp

section \<open>The stream of sent events\<close>

lemma sent_event_frame:
  assumes "percent_codec penc pdec" "sendable penc ev"
  shows "\<exists>m. next_frame pdec (sent_event penc ev @ rest) = Frame m rest \<and> is_event m \<and> \<not> ends_session m
     \<and> (\<forall>json xml. parse_event pdec json xml m (message_format m) = Inr (received_event ev))"
proof -
  from plain_event_framed[OF assms(1), of ev "to_plain_format penc ev" rest] assms(2) obtain m where
    m: "next_frame pdec (sent_event penc ev @ rest) = Frame m rest" "message_type m = EventMsg"
      "fmlookup (msg_headers m) ''Content-Type'' = Some ''text/event-plain''"
      "parse_plain_event pdec m = Inr (received_event ev)"
    by (auto simp: sendable_def sent_event_def received_event_def)
  have "message_format m = Plain"
    using m(3) by (simp add: message_format_def from_content_type_def)
  with m show ?thesis by (auto simp: is_event_def ends_session_def parse_event_def)
qed

lemma frames_Nil: "frames pdec [] = ([], None, [])"
  by (simp add: frames.simps next_frame_def)

lemma frames_Frame:
  "next_frame pdec bs = Frame m R \<Longrightarrow> frames pdec bs = (m # fst (frames pdec R), snd (frames pdec R))"
  by (simp add: frames.simps[of pdec bs] split: prod.splits)

lemma frames_sent:
  assumes "percent_codec penc (env_pdec env)" "\<forall>ev \<in> set evs. sendable penc ev"
  shows "\<exists>ms. frames (env_pdec env) (concat (map (sent_event penc) evs)) = (ms, None, [])
     \<and> (\<forall>m \<in> set ms. is_event m \<and> \<not> ends_session m)
     \<and> map (event_result env) ms = map (\<lambda>ev. Inr (received_event ev)) evs"
  using assms(2)
proof (induction evs)
  case (Cons ev evs)
  obtain m where m: "next_frame (env_pdec env) (concat (map (sent_event penc) (ev # evs)))
      = Frame m (concat (map (sent_event penc) evs))" "is_event m" "\<not> ends_session m"
      "event_result env m = Inr (received_event ev)"
    using sent_event_frame[OF assms(1), of ev "concat (map (sent_event penc) evs)"] Cons.prems
    by (auto simp: event_result_def)
  from Cons obtain ms where ms: "frames (env_pdec env) (concat (map (sent_event penc) evs)) = (ms, None, [])"
    "\<forall>m \<in> set ms. is_event m \<and> \<not> ends_session m" "map (event_result env) ms = map (\<lambda>ev. Inr (received_event ev)) evs"
    by auto
  show ?case
    using m(2-4) ms frames_Frame[OF m(1)] by (intro exI[of _ "m # ms"]) simp
qed (simp add: frames_Nil)

text \<open>The buffer never holds more than an incomplete event.\<close>

lemma left_over_sent:
  assumes "percent_codec penc pdec" "\<forall>ev \<in> set evs. sendable penc ev \<and> length (sent_event penc ev) \<le> B"
    and "x @ y = concat (map (sent_event penc) evs)"
  shows "length (left_over pdec x) \<le> B"
  using assms(2,3)
proof (induction evs arbitrary: x)
  case Nil
  then show ?case by (simp add: frames_Nil)
next
  case (Cons ev evs)
  let ?s = "sent_event penc ev"
  from Cons.prems(2) have xy: "x @ y = ?s @ concat (map (sent_event penc) evs)" by simp
  show ?case
  proof (cases "length ?s \<le> length x")
    case True
    then obtain x' where x: "x = ?s @ x'" and "x' @ y = concat (map (sent_event penc) evs)"
      using xy by (metis append_eq_append_conv_if append_take_drop_id same_append_eq append.assoc)
    moreover obtain m where "next_frame pdec (?s @ x') = Frame m x'"
      using sent_event_frame[OF assms(1), of ev x'] Cons.prems(1) by auto
    ultimately show ?thesis
      using Cons.IH[of x'] Cons.prems(1) by (simp add: frames_Frame)
  next
    case False
    have "next_frame pdec x = NeedMore"
    proof (rule ccontr)
      assume n: "next_frame pdec x \<noteq> NeedMore"
      obtain m where "next_frame pdec (x @ y) = Frame m (concat (map (sent_event penc) evs))"
        using sent_event_frame[OF assms(1), of ev "concat (map (sent_event penc) evs)"] Cons.prems(1) xy by auto
      with next_frame_append[OF n, of y] obtain R where "concat (map (sent_event penc) evs) = R @ y"
        by (auto split: frame.splits)
      with xy False have "length x = length ?s + length R" by (metis add_right_cancel length_append add.assoc)
      with False show False by simp
    qed
    then show ?thesis using False Cons.prems(1) by (simp add: frames.simps[of pdec x])
  qed
qed

lemma within_buffer_bounded:
  assumes "\<And>x y. x @ y = bs @ concat cs \<Longrightarrow> length (left_over pdec x) \<le> B" "\<forall>c \<in> set cs. B + length c \<le> MAX_BUFFER_SIZE"
  shows "within_buffer pdec bs cs"
  using assms
proof (induction cs arbitrary: bs)
  case (Cons c cs)
  have "within_buffer pdec (bs @ c) cs"
  proof (rule Cons.IH)
    show "length (left_over pdec x) \<le> B" if "x @ y = (bs @ c) @ concat cs" for x y
      using Cons.prems(1)[of x y] that by simp
  qed (use Cons.prems(2) in simp)
  moreover have "length (left_over pdec bs) \<le> B"
    by (rule Cons.prems(1)[of bs "concat (c # cs)"]) (rule refl)
  then have "length (left_over pdec bs) + length c \<le> MAX_BUFFER_SIZE"
    using Cons.prems(2) by simp
  ultimately show ?case
    by (simp add: Let_def within_buffer_left_over)
qed simp

lemma nat_to_string_short: "length (nat_to_string n) \<le> 1 + n div 10"
proof (induction n rule: nat_to_string.induct)
  case (1 n)
  show ?case
  proof (cases "n < 10")
    case False
    have "length (nat_to_string n) = length (nat_to_string (n div 10)) + 1"
      using False by (subst nat_to_string.simps) simp
    moreover have "n div 10 div 10 < n div 10"
      using False by (intro div_less_dividend) (simp_all add: div_greater_zero_iff)
    moreover have "length (nat_to_string (n div 10)) \<le> 1 + n div 10 div 10" by (rule 1[OF False])
    ultimately show ?thesis by linarith
  next
    case True
    then show ?thesis by (subst nat_to_string.simps) simp
  qed
qed

lemma sent_event_length:
  assumes "sendable penc ev"
  shows "length (sent_event penc ev) \<le> MAX_BUFFER_SIZE - SOCKET_BUF_SIZE"
proof -
  let ?n = "length (to_plain_format penc ev)"
  have "length (nat_to_string ?n) \<le> 1 + ?n div 10" by (rule nat_to_string_short)
  moreover have "?n \<le> MAX_MESSAGE_SIZE" using assms by (simp add: sendable_def)
  ultimately show ?thesis
    by (simp add: sent_event_def wire_message_def plain_envelope_def block_def raw_line_def
        MAX_MESSAGE_SIZE_def MAX_BUFFER_SIZE_def SOCKET_BUF_SIZE_def)
qed

section \<open>Delivery\<close>

text \<open>C9. The application receives the events the server sent. After the handshake let the server send
  any events, each serialised and in its envelope, and let TCP cut the stream anywhere, the reads being at most
  the reader's buffer long. Then connecting succeeds, and once everything is read, the
  application's first \<open>recv\<close> calls return exactly these events in order, each equal
  to the sent one up to what the plain format cannot carry (a \<open>Content-Length\<close> header is added for a body, an empty
  body is none), as long as the event queue has room for them. The receive buffer never overflows, however
  long the stream is.\<close>

theorem events_delivered:
  assumes "event_channel items is_open capacity (env_send env) recv"
    and "\<forall>n. is_open (net_make_channel net n) \<and> items (net_make_channel net n) = []
           \<and> capacity (net_make_channel net n) = n"
    and "env_pdec env = net_pdec net" "percent_codec penc (net_pdec net)"
    and "can_connect net method" "net_reads net = map ReadData cs"
    and "next_frame (net_pdec net) (concat cs) = Frame m1 R1" "message_type m1 = AuthRequest"
    and "next_frame (net_pdec net) R1 = Frame m2 R2" "is_success (into_response m2)"
    and "\<forall>c \<in> set cs. c \<noteq> []" "length (concat cs) \<le> MAX_BUFFER_SIZE"
    and "\<forall>tc \<in> set later. snd tc \<noteq> [] \<and> length (snd tc) \<le> SOCKET_BUF_SIZE"
    and "R2 @ concat (map snd later) = concat (map (sent_event penc) evs)"
    and "\<forall>ev \<in> set evs. sendable penc ev" "length evs \<le> queue_capacity options"
  shows "\<exists>r unread. connect_method net method options = Inr r
           \<and> hs_reads (network_handshake net method) = map ReadData unread
           \<and> (\<forall>times. length times = length unread \<longrightarrow>
                (\<exists>r'. reader_loop_inner env r (map data_input (zip times unread @ later)) = ReadMore r'
                  \<and> receives recv (length evs) (rd_world r') = map (\<lambda>ev. Some (Inr (received_event ev))) evs
                  \<and> w_status (rd_world r') = Connected))"
proof -
  have "percent_codec penc (env_pdec env)" using assms(3,4) by simp
  from frames_sent[OF this assms(15)] assms(3,14) obtain ms where
    ms: "frames (net_pdec net) (R2 @ concat (map snd later)) = (ms, None, [])"
      "\<forall>m \<in> set ms. is_event m \<and> \<not> ends_session m"
      "map (event_result env) ms = map (\<lambda>ev. Inr (received_event ev)) evs" by auto
  have ms': "filter is_event ms = ms" "\<forall>m \<in> set ms. \<not> ends_session m" "length ms = length evs"
    using ms(2) arg_cong[OF ms(3), of length] by simp_all
  have wb: "within_buffer (net_pdec net) R2 (map snd later)"
  proof (rule within_buffer_bounded)
    show "length (left_over (net_pdec net) x) \<le> MAX_BUFFER_SIZE - SOCKET_BUF_SIZE"
      if "x @ y = R2 @ concat (map snd later)" for x y
      using left_over_sent[OF assms(4), of evs _ x y] sent_event_length assms(15) that assms(14) by metis
    show "\<forall>c \<in> set (map snd later). MAX_BUFFER_SIZE - SOCKET_BUF_SIZE + length c \<le> MAX_BUFFER_SIZE"
      using assms(13) by (auto simp: MAX_BUFFER_SIZE_def SOCKET_BUF_SIZE_def)
  qed
  have later: "\<forall>tc \<in> set later. snd tc \<noteq> []" "length (filter is_event ms) \<le> queue_capacity options"
    using assms(13,16) ms' by simp_all
  obtain r unread where r: "connect_method net method options = Inr r"
      "hs_reads (network_handshake net method) = map ReadData unread"
    and run: "\<And>times. length times = length unread \<Longrightarrow>
      \<exists>r'. reader_loop_inner env r (map data_input (zip times unread @ later)) = ReadMore r'
        \<and> items (w_queue (rd_world r')) = map (event_result env) (filter is_event ms)
        \<and> w_status (rd_world r') = Connected"
    using delivers[OF assms(1-3,5-12) later(1) wb ms(1) ms'(2) later(2)] by blast
  show ?thesis
  proof (rule exI[of _ r], rule exI[of _ unread], intro conjI allI impI)
    fix times :: "nat list"
    assume "length times = length unread"
    from run[OF this] obtain r' where
      r': "reader_loop_inner env r (map data_input (zip times unread @ later)) = ReadMore r'"
        "items (w_queue (rd_world r')) = map (\<lambda>ev. Inr (received_event ev)) evs" "w_status (rd_world r') = Connected"
      using ms'(1) ms(3) by auto
    have "receives recv (length evs) (rd_world r') = map (\<lambda>ev. Some (Inr (received_event ev))) evs"
      using receives_items[OF assms(1), of "rd_world r'"] r'(2) by simp
    with r' show "\<exists>r'. reader_loop_inner env r (map data_input (zip times unread @ later)) = ReadMore r'
        \<and> receives recv (length evs) (rd_world r') = map (\<lambda>ev. Some (Inr (received_event ev))) evs
        \<and> w_status (rd_world r') = Connected" by blast
  qed (fact r)+
qed

text \<open>The event of the round trip, cut after seven bytes.\<close>

definition sample_sent :: bytes where
  "sample_sent = sent_event percent_encode_ref sample_event"

theorem events_delivered_witness:
  "\<exists>r unread r'. connect_method (sample_network (take 7 sample_sent)) (Password ''ClueCon'')
         connect_options_default = Inr r
     \<and> reader_loop_inner sample_env r
         (map data_input (zip (replicate (length unread) 1) unread @ [(2, drop 7 sample_sent)])) = ReadMore r'
     \<and> receives lq_recv 1 (rd_world r') = [Some (Inr (received_event sample_event))]"
proof -
  let ?b = "take 7 sample_sent"
  let ?later = "[(2 :: nat, drop 7 sample_sent)]"
  let ?net = "sample_network ?b"
  obtain m1 m2 where
    m1: "next_frame (net_pdec ?net) (concat (sample_reads ?b)) = Frame m1 (sample_accept @ ?b)" "message_type m1 = AuthRequest"
    and m2: "next_frame (net_pdec ?net) (sample_accept @ ?b) = Frame m2 ?b" "is_success (into_response m2)"
    using sample_handshake unfolding sample_network_simps by metis
  have size: "length (to_plain_format percent_encode_ref sample_event) \<le> 1000
      \<and> utf8_valid (to_plain_format percent_encode_ref sample_event)
      \<and> length sample_sent \<le> 1000 \<and> drop 7 sample_sent \<noteq> []"
    by code_simp
  have send: "\<forall>ev \<in> set [sample_event]. sendable percent_encode_ref ev"
    "length [sample_event] \<le> queue_capacity connect_options_default"
    using size wf_sample_event
    by (simp_all add: sendable_def MAX_MESSAGE_SIZE_def queue_capacity_def connect_options_default_def)
  have len: "length (concat (sample_reads ?b)) \<le> MAX_BUFFER_SIZE"
    "\<forall>tc \<in> set ?later. snd tc \<noteq> [] \<and> length (snd tc) \<le> SOCKET_BUF_SIZE"
    using sample_reads_simps(3)[of ?b] size by (simp_all add: MAX_BUFFER_SIZE_def SOCKET_BUF_SIZE_def le_diff_conv)
  have stream: "?b @ concat (map snd ?later) = concat (map (sent_event percent_encode_ref) [sample_event])"
    by (simp add: sample_sent_def)
  have codec: "percent_codec percent_encode_ref (net_pdec ?net)"
    using percent_ref.percent_codec_axioms by (simp add: sample_network_simps)
  obtain r unread where r: "connect_method ?net (Password ''ClueCon'') connect_options_default = Inr r"
    and run: "\<And>times. length times = length unread \<Longrightarrow>
       \<exists>r'. reader_loop_inner sample_env r (map data_input (zip times unread @ ?later)) = ReadMore r'
          \<and> receives lq_recv (length [sample_event]) (rd_world r')
              = map (\<lambda>ev. Some (Inr (received_event ev))) [sample_event]"
    using events_delivered[OF sample_channel codec sample_network_simps(4,2) m1 m2 sample_reads_simps(2) len
        stream send] by blast
  from run[of "replicate (length unread) 1"] obtain r' where
    "reader_loop_inner sample_env r
       (map data_input (zip (replicate (length unread) 1) unread @ ?later)) = ReadMore r'"
    "receives lq_recv 1 (rd_world r') = [Some (Inr (received_event sample_event))]"
    by auto
  then show ?thesis
    using r by (intro exI[of _ r] exI[of _ unread] exI[of _ r']) simp
qed

end
