(* ===== verification/Esl_Calls.thy ===== *)
theory Esl_Calls
  imports Esl_Exchange Esl_Delivery
begin

text \<open>
  A connection in use: several \<open>send_command\<close> calls, the reader task and the server, on the real
  state of \<open>src/src/connection.rs\<close>. Where \<open>Esl_Exchange\<close> numbers the commands and replies,
  here a call has its command and its text, the reader is the one of \<open>Esl_Reader\<close> with its
  parser and shared state, and the server's messages are bytes that arrive in any chunks. One step of a
  call is one access to shared data, in the order of \<open>send_command\<close>; one step of the reader
  parses one message or ends one read. The two models are related by a simulation, which carries
  the results on numbered replies over to the bytes.
\<close>

section \<open>The state\<close>

text \<open>Where a call stands; the text is what \<open>to_wire_format\<close> gave, the number the timeout
  that was loaded. The sender and the receiver of the call's reply channel are named by the call.\<close>

datatype call =
    Ready
  | Refused EslError
  | Wants string
  | Holds string
  | Slotted string
  | Awaits u64
  | Late u64
  | Returned "EslResponse EslResult"
  | Dropped

text \<open>The reader is before \<open>parse_message\<close> (\<open>Continue\<close>), in the read (\<open>ReadMore\<close>) or has
  ended (\<open>Return\<close>). \<open>cn_sent\<close> and \<open>cn_answers\<close> are the texts written and the replies sent so
  far, \<open>cn_wire\<close> the bytes the client has written, torn texts included; \<open>cn_stream\<close> holds the bytes the server has sent and the reader has not read.\<close>

record 'q conn =
  cn_lock :: "nat option"
  cn_reader :: "'q reader loop_ctl"
  cn_call :: "nat \<Rightarrow> call"
  cn_sent :: "(nat \<times> string) list"
  cn_stream :: bytes
  cn_answers :: "EslMessage list"
  cn_wire :: bytes

fun the_reader :: "'a loop_ctl \<Rightarrow> 'a" where
  "the_reader (Continue r) = r"
| "the_reader (Return r) = r"
| "the_reader (ReadMore r) = r"

definition cn_world :: "'q conn \<Rightarrow> 'q world" where
  "cn_world s = rd_world (the_reader (cn_reader s))"

definition set_world :: "'q conn \<Rightarrow> 'q world \<Rightarrow> 'q conn" where
  "set_world s w = s\<lparr>cn_reader := map_loop_ctl (\<lambda>r. r\<lparr>rd_world := w\<rparr>) (cn_reader s)\<rparr>"

definition set_shared :: "'q conn \<Rightarrow> SharedState \<Rightarrow> 'q conn" where
  "set_shared s sh = set_world s ((cn_world s)\<lparr>w_shared := sh\<rparr>)"

definition set_call :: "'q conn \<Rightarrow> nat \<Rightarrow> call \<Rightarrow> 'q conn" where
  "set_call s c x = s\<lparr>cn_call := (cn_call s)(c := x)\<rparr>"

text \<open>A call returns or is dropped: the guard of the writer lock goes out of scope.\<close>

definition release :: "'q conn \<Rightarrow> nat \<Rightarrow> call \<Rightarrow> 'q conn" where
  "release s c x = (set_call s c x)\<lparr>cn_lock := None\<rparr>"

definition cn_shared :: "'q conn \<Rightarrow> SharedState" where
  "cn_shared s = w_shared (cn_world s)"

definition set_pending :: "'q conn \<Rightarrow> nat option \<Rightarrow> 'q conn" where
  "set_pending s p = set_shared s ((cn_shared s)\<lparr>pending_reply := p\<rparr>)"

definition got_reply :: "'q conn \<Rightarrow> nat \<Rightarrow> bool" where
  "got_reply s c = (c \<in> fst ` set (w_replies (cn_world s)))"

section \<open>Steps\<close>

text \<open>The head of \<open>send_command\<close>: the connection is checked, the text is made.\<close>

definition begin_call :: "header_order \<Rightarrow> header_order \<Rightarrow> ConnectionStatus \<Rightarrow> EslCommand \<Rightarrow> call" where
  "begin_call ord_ev ord_cb status command =
     (if status \<noteq> Connected then Refused NotConnected
      else (case to_wire_format ord_ev ord_cb command of Inl e \<Rightarrow> Refused e | Inr t \<Rightarrow> Wants t))"

datatype act = Begin nat | Do label | Tear label nat | Setting | TakeEvent | ReaderActs | ServerActs

record ('q, 'v) party =
  su_env :: "('q, 'v) reader_env"
  su_ord_ev :: header_order
  su_ord_cb :: header_order
  su_recv :: "'q \<Rightarrow> event_item option \<times> 'q"
  su_command :: "nat \<Rightarrow> EslCommand"

inductive conn_step :: "('q, 'v) party \<Rightarrow> 'q conn \<Rightarrow> act \<Rightarrow> 'q conn \<Rightarrow> bool" for su where
  start_call: "cn_call s c = Ready \<Longrightarrow>
    conn_step su s (Begin c)
      (set_call s c (begin_call (su_ord_ev su) (su_ord_cb su) (w_status (cn_world s)) (su_command su c)))"
| give_up: "cn_call s c = Wants t \<Longrightarrow> conn_step su s (Begin c) (set_call s c Dropped)"
| acquire: "cn_call s c = Wants t \<Longrightarrow> cn_lock s = None \<Longrightarrow>
    conn_step su s (Do (Acquire c)) ((set_call s c (Holds t))\<lparr>cn_lock := Some c\<rparr>)"
| arm: "cn_call s c = Holds t \<Longrightarrow>
    conn_step su s (Do (Arm c)) (set_pending (set_call s c (Slotted t)) (Some c))"
| put: "cn_call s c = Slotted t \<Longrightarrow>
    conn_step su s (Do (Write c))
      ((set_call s c (Awaits (command_timeout_ms (cn_shared s))))\<lparr>cn_sent := cn_sent s @ [(c, t)],
         cn_wire := cn_wire s @ t\<rparr>)"
| put_fail: "cn_call s c = Slotted t \<Longrightarrow>
    conn_step su s (Do (WriteFail c b))
      ((release s c (Returned (Inl (Io e))))\<lparr>cn_sent := cn_sent s @ (if b then [(c, t)] else []),
         cn_wire := cn_wire s @ (if b then t else [])\<rparr>)"
| tear_fail: "cn_call s c = Slotted t \<Longrightarrow> 0 < k \<Longrightarrow> k < length t \<Longrightarrow>
    conn_step su s (Tear (WriteFail c False) k)
      ((release s c (Returned (Inl (Io e))))\<lparr>cn_wire := cn_wire s @ take k t\<rparr>)"
| tear_cancel: "cn_call s c = Slotted t \<Longrightarrow> 0 < k \<Longrightarrow> k < length t \<Longrightarrow>
    conn_step su s (Tear (Cancel c False) k) ((release s c Dropped)\<lparr>cn_wire := cn_wire s @ take k t\<rparr>)"
| receive: "cn_call s c = Awaits ms \<Longrightarrow> (c, m) \<in> set (w_replies (cn_world s)) \<Longrightarrow>
    conn_step su s (Do (ReceiveReply c)) (release s c (Returned (Inr (into_response m))))"
| sender_gone: "cn_call s c = Awaits ms \<Longrightarrow> \<not> got_reply s c \<Longrightarrow> pending_reply (cn_shared s) \<noteq> Some c \<Longrightarrow>
    conn_step su s (Do (ReceiveReply c)) (release s c (Returned (Inl ConnectionClosed)))"
| expire: "cn_call s c = Awaits ms \<Longrightarrow> \<not> got_reply s c \<Longrightarrow>
    conn_step su s (Do (Expire c)) (set_call s c (Late ms))"
| clear: "cn_call s c = Late ms \<Longrightarrow>
    conn_step su s (Do (Clear c)) (set_pending (release s c (Returned (Inl (Timeout ms)))) None)"
| cancel: "cn_call s c \<in> {Holds t, Slotted t, Awaits ms, Late ms} \<Longrightarrow>
    conn_step su s (Do (Cancel c b))
      ((release s c Dropped)\<lparr>cn_sent :=
          cn_sent s @ (if cn_call s c = Slotted t \<and> b then [(c, t)] else []),
         cn_wire := cn_wire s @ (if cn_call s c = Slotted t \<and> b then t else [])\<rparr>)"
| command_timeout: "conn_step su s Setting (set_shared s (set_command_timeout (cn_shared s) d))"
| liveness_timeout: "conn_step su s Setting (set_shared s (set_liveness_timeout (cn_shared s) d))"
| take_event: "stream_recv (su_recv su) (cn_world s) = (x, w) \<Longrightarrow> conn_step su s TakeEvent (set_world s w)"
| parse: "cn_reader s = Continue r \<Longrightarrow>
    conn_step su s ReaderActs (s\<lparr>cn_reader := reader_parse (su_env su) r\<rparr>)"
| read_data: "cn_reader s = ReadMore r \<Longrightarrow> cn_stream s = d @ rest \<Longrightarrow> d \<noteq> [] \<Longrightarrow> length d \<le> SOCKET_BUF_SIZE \<Longrightarrow>
    conn_step su s ReaderActs (s\<lparr>cn_reader := reader_read now (ReadData d) r, cn_stream := rest\<rparr>)"
| read_none: "cn_reader s = ReadMore r \<Longrightarrow> rr \<in> {ReadData [], ReadFail e, ReadTimeout} \<Longrightarrow>
    conn_step su s ReaderActs (s\<lparr>cn_reader := reader_read now rr r\<rparr>)"
| answer: "length (cn_answers s) < length (cn_sent s) \<Longrightarrow>
    next_frame (env_pdec (su_env su)) bs = Frame m [] \<Longrightarrow> is_reply m \<Longrightarrow>
    conn_step su s ServerActs (s\<lparr>cn_stream := cn_stream s @ bs, cn_answers := cn_answers s @ [m]\<rparr>)"
| push: "next_frame (env_pdec (su_env su)) bs = Frame m [] \<Longrightarrow> \<not> is_reply m \<Longrightarrow>
    conn_step su s ServerActs (s\<lparr>cn_stream := cn_stream s @ bs\<rparr>)"

inductive_cases conn_stepE: "conn_step su s a t"

text \<open>A connection starts with the reader as it is spawned; what the server sent before the first
  command are messages, none of them a reply.\<close>

definition conn_start :: "'q reader \<Rightarrow> bytes \<Rightarrow> 'q conn" where
  "conn_start r stream =
     \<lparr>cn_lock = None, cn_reader = Continue r, cn_call = (\<lambda>_. Ready), cn_sent = [], cn_stream = stream,
      cn_answers = [], cn_wire = []\<rparr>"

definition fresh :: "(string \<Rightarrow> bytes) \<Rightarrow> 'q reader \<Rightarrow> bytes \<Rightarrow> bool" where
  "fresh pdec r stream =
     (pending_reply (w_shared (rd_world r)) = None \<and> w_replies (rd_world r) = []
      \<and> (\<exists>bs ms. represents pdec (rd_parser r) bs \<and> frames pdec (bs @ stream) = (ms, None, [])
           \<and> filter is_reply ms = []))"

inductive conn_reached :: "('q, 'v) party \<Rightarrow> (act \<Rightarrow> bool) \<Rightarrow> 'q conn \<Rightarrow> bool" for su ok where
  start: "fresh (env_pdec (su_env su)) r stream \<Longrightarrow> conn_reached su ok (conn_start r stream)"
| step: "conn_reached su ok s \<Longrightarrow> conn_step su s a t \<Longrightarrow> ok a \<Longrightarrow> conn_reached su ok t"

fun quiet :: "act \<Rightarrow> bool" where
  "quiet (Do l) = undisturbed l"
| "quiet (Tear _ _) = False"
| "quiet _ = True"

lemmas conn_defs = set_call_def release_def set_world_def set_shared_def set_pending_def cn_world_def
  cn_shared_def got_reply_def

lemma cn_world_simps [simp]:
  "cn_world (set_world s w) = w" "cn_world (set_call s c x) = cn_world s"
  "cn_world (release s c x) = cn_world s" "cn_world (s\<lparr>cn_lock := l\<rparr>) = cn_world s"
  "cn_world (s\<lparr>cn_sent := ts\<rparr>) = cn_world s" "cn_world (s\<lparr>cn_stream := b\<rparr>) = cn_world s"
  "cn_world (s\<lparr>cn_answers := ms\<rparr>) = cn_world s" "cn_world (s\<lparr>cn_wire := b\<rparr>) = cn_world s" "cn_world (s\<lparr>cn_reader := rl\<rparr>) = rd_world (the_reader rl)"
  "cn_world (set_shared s sh) = (cn_world s)\<lparr>w_shared := sh\<rparr>"
  by (cases "cn_reader s"; simp add: conn_defs)+

lemma cn_fields [simp]:
  "cn_lock (set_world s w) = cn_lock s" "cn_call (set_world s w) = cn_call s"
  "cn_sent (set_world s w) = cn_sent s" "cn_stream (set_world s w) = cn_stream s"
  "cn_answers (set_world s w) = cn_answers s" "cn_wire (set_world s w) = cn_wire s"
  "cn_wire (set_call s c x) = cn_wire s"
  "cn_lock (set_call s c x) = cn_lock s" "cn_call (set_call s c x) = (cn_call s)(c := x)"
  "cn_sent (set_call s c x) = cn_sent s" "cn_stream (set_call s c x) = cn_stream s"
  "cn_answers (set_call s c x) = cn_answers s" "cn_reader (set_call s c x) = cn_reader s"
  by (simp_all add: set_world_def set_call_def)

lemmas conn_ops = release_def set_pending_def set_shared_def

section \<open>Simulation of the numbered exchange\<close>

fun phase_sim :: "EslMessage list \<Rightarrow> call \<Rightarrow> phase \<Rightarrow> bool" where
  "phase_sim ms Ready p = (p = Idle)"
| "phase_sim ms (Refused _) p = (p = Idle)"
| "phase_sim ms (Wants _) p = (p = Idle)"
| "phase_sim ms (Holds _) p = (p = Locked)"
| "phase_sim ms (Slotted _) p = (p = Armed)"
| "phase_sim ms (Awaits _) p = (p = Waiting)"
| "phase_sim ms (Late _) p = (p = TimedOut)"
| "phase_sim ms (Returned (Inr r)) p =
     (\<exists>i < length ms. p = Finished (GotReply i) \<and> r = into_response (ms ! i))"
| "phase_sim ms (Returned (Inl (Io _))) p = (p = Finished GotIoError)"
| "phase_sim ms (Returned (Inl (Timeout _))) p = (p = Finished GotTimeout)"
| "phase_sim ms (Returned (Inl _)) p = False"
| "phase_sim ms Dropped p = (p = Idle \<or> p = Finished GotCancelled)"

text \<open>Before it has its reply, a call's inbox holds the reply with the number of the exchange.\<close>

fun unserved :: "phase \<Rightarrow> bool" where
  "unserved (Finished _) = False"
| "unserved TimedOut = False"
| "unserved _ = True"

definition replies_sim :: "EslMessage list \<Rightarrow> (nat \<times> EslMessage) list \<Rightarrow> exch \<Rightarrow> bool" where
  "replies_sim ms rs a =
     (\<forall>c m. unserved (ex_phase a c) \<longrightarrow>
        ((c, m) \<in> set rs \<longleftrightarrow> (\<exists>i < length ms. ex_inbox a c = Some i \<and> ms ! i = m)))"

text \<open>What the reader has not handled yet are whole messages; the replies among them are the last ones
  the server has sent.\<close>

definition unread :: "(string \<Rightarrow> bytes) \<Rightarrow> 'q reader \<Rightarrow> bytes \<Rightarrow> EslMessage list \<Rightarrow> bool" where
  "unread pdec r stream replies =
     (\<exists>bs ms. represents pdec (rd_parser r) bs \<and> frames pdec (bs @ stream) = (ms, None, [])
        \<and> filter is_reply ms = replies)"

definition stream_sim :: "(string \<Rightarrow> bytes) \<Rightarrow> 'q conn \<Rightarrow> nat \<Rightarrow> bool" where
  "stream_sim pdec s n =
     (case cn_reader s of
        Return _ \<Rightarrow> True
      | Continue r \<Rightarrow> unread pdec r (cn_stream s) (drop n (cn_answers s))
      | ReadMore r \<Rightarrow> unread pdec r (cn_stream s) (drop n (cn_answers s)))"

definition sim :: "(string \<Rightarrow> bytes) \<Rightarrow> 'q conn \<Rightarrow> exch \<Rightarrow> bool" where
  "sim pdec s a =
     (ex_lock a = cn_lock s \<and> ex_pending a = pending_reply (cn_shared s) \<and> ex_sent a = map fst (cn_sent s)
      \<and> (\<forall>c. phase_sim (cn_answers s) (cn_call s c) (ex_phase a c))
      \<and> replies_sim (cn_answers s) (w_replies (cn_world s)) a
      \<and> ex_replied a \<le> length (cn_answers s) \<and> length (cn_answers s) \<le> length (cn_sent s)
      \<and> stream_sim pdec s (ex_replied a))"

section \<open>Every step is one of the exchange, or none\<close>

lemma stream_sim_simps [simp]:
  "stream_sim pdec (set_world s w) n = stream_sim pdec s n"
  "stream_sim pdec (set_call s c x) n = stream_sim pdec s n"
  "stream_sim pdec (s\<lparr>cn_lock := l\<rparr>) n = stream_sim pdec s n"
  "stream_sim pdec (s\<lparr>cn_sent := ts\<rparr>) n = stream_sim pdec s n"
  "stream_sim pdec (s\<lparr>cn_wire := b\<rparr>) n = stream_sim pdec s n"
  by (cases "cn_reader s"; simp add: stream_sim_def unread_def set_world_def set_call_def)+

text \<open>A step that changes only what the exchange does not see.\<close>

lemma sim_stutter:
  assumes "sim pdec s a" "cn_lock t = cn_lock s" "pending_reply (cn_shared t) = pending_reply (cn_shared s)"
    "cn_sent t = cn_sent s" "\<forall>c. phase_sim (cn_answers s) (cn_call t c) (ex_phase a c)"
    "w_replies (cn_world t) = w_replies (cn_world s)" "cn_answers t = cn_answers s"
    "stream_sim pdec s (ex_replied a) \<longrightarrow> stream_sim pdec t (ex_replied a)"
  shows "sim pdec t a"
  using assms by (simp add: sim_def)

lemma begin_call_phase: "phase_sim ms (begin_call ord_ev ord_cb status command) p = (p = Idle)"
  by (simp add: begin_call_def split: sum.splits)

text \<open>A step of the exchange that moves one call and leaves the replies alone.\<close>

lemma sim_move:
  assumes "sim pdec s a" "slot_inv a"
    and "ex_phase b = (ex_phase a)(c := p)" "cn_call t = (cn_call s)(c := x)" "phase_sim (cn_answers s) x p"
    and "unserved p \<longrightarrow> unserved (ex_phase a c)"
    and "ex_inbox b = ex_inbox a" "ex_replied b = ex_replied a"
    and "w_replies (cn_world t) = w_replies (cn_world s)" "cn_answers t = cn_answers s"
    and "ex_lock b = cn_lock t" "ex_pending b = pending_reply (cn_shared t)"
    and "ex_sent b = map fst (cn_sent t)" "length (cn_sent s) \<le> length (cn_sent t)"
    and "stream_sim pdec t (ex_replied a) = stream_sim pdec s (ex_replied a)"
  shows "sim pdec t b"
  using assms by (auto simp: sim_def replies_sim_def)

lemma cn_shared_simps [simp]:
  "cn_shared (set_shared s sh) = sh" "cn_shared (set_call s c x) = cn_shared s"
  "cn_shared (s\<lparr>cn_lock := l\<rparr>) = cn_shared s" "cn_shared (s\<lparr>cn_sent := ts\<rparr>) = cn_shared s"
  "cn_shared (s\<lparr>cn_wire := b\<rparr>) = cn_shared s"
  "cn_shared (set_world s w) = w_shared w"
  by (simp_all add: cn_shared_def)

lemma conn_begin:
  assumes "conn_step su s (Begin c) t" "sim pdec s a"
  shows "sim pdec t a"
  using assms(1)
proof (cases rule: conn_step.cases)
  case start_call
  show ?thesis
    by (rule sim_stutter [OF assms(2)])
      (use start_call assms(2) in \<open>auto simp: sim_def begin_call_phase dest: spec [of _ c]\<close>)
next
  case (give_up x)
  show ?thesis
    by (rule sim_stutter [OF assms(2)])
      (use give_up assms(2) in \<open>auto simp: sim_def dest: spec [of _ c]\<close>)
qed

lemma sim_phase: "sim pdec s a \<Longrightarrow> phase_sim (cn_answers s) (cn_call s c) (ex_phase a c)"
  by (simp add: sim_def)

lemma sim_inbox:
  assumes "sim pdec s a" "inbox_inv a" "cn_call s c = Awaits ms"
  shows "(c, m) \<in> set (w_replies (cn_world s)) \<Longrightarrow>
      \<exists>i < length (cn_answers s). ex_inbox a c = Some i \<and> cn_answers s ! i = m"
    and "\<not> got_reply s c \<Longrightarrow> ex_inbox a c = None"
proof -
  have "ex_phase a c = Waiting"
    using sim_phase [OF assms(1), of c] assms(3) by simp
  then have r: "(c, m) \<in> set (w_replies (cn_world s)) \<longleftrightarrow>
      (\<exists>i < length (cn_answers s). ex_inbox a c = Some i \<and> cn_answers s ! i = m)" for m
    using assms(1) by (simp add: sim_def replies_sim_def)
  then show "(c, m) \<in> set (w_replies (cn_world s)) \<Longrightarrow>
      \<exists>i < length (cn_answers s). ex_inbox a c = Some i \<and> cn_answers s ! i = m"
    by simp
  show "ex_inbox a c = None" if "\<not> got_reply s c"
  proof (rule ccontr)
    assume "ex_inbox a c \<noteq> None"
    then obtain i where i: "ex_inbox a c = Some i"
      by blast
    moreover have "i < length (cn_answers s)"
      using i assms(1,2) unfolding inbox_inv_def sim_def by (meson less_le_trans)
    ultimately have "(c, cn_answers s ! i) \<in> set (w_replies (cn_world s))"
      using r by blast
    with that show False
      by (force simp: got_reply_def)
  qed
qed

lemma conn_do:
  assumes "conn_step su s (Do l) t" "sim pdec s a" "lock_inv a" "slot_inv a" "inbox_inv a"
  shows "\<exists>b. exch_step a l b \<and> sim pdec t b"
proof -
  note phase = sim_phase [OF assms(2)]
  have eqs: "ex_lock a = cn_lock s" "ex_pending a = pending_reply (cn_shared s)"
    "ex_sent a = map fst (cn_sent s)"
    using assms(2) by (simp_all add: sim_def)
  note move = sim_move [OF assms(2,4)]
  note ops = eqs conn_ops exch_defs(1,2)
  from assms(1) show ?thesis
  proof (cases rule: conn_step.cases)
    case (acquire c x)
    then have "ex_phase a c = Idle" using phase [of c] by simp
    with acquire show ?thesis
      by (simp add: exch_step_simps ops) (rule move [where c = c and p = Locked and x = "Holds x"]; simp add: ops)
  next
    case (arm c x)
    then have "ex_phase a c = Locked" using phase [of c] by simp
    with arm show ?thesis
      by (simp add: exch_step_simps ops) (rule move [where c = c and p = Armed and x = "Slotted x"]; simp add: ops)
  next
    case (put c x)
    then have "ex_phase a c = Armed" using phase [of c] by simp
    with put show ?thesis
      by (simp add: exch_step_simps ops)
        (rule move [where c = c and p = Waiting and x = "Awaits (command_timeout_ms (cn_shared s))"]; simp add: ops)
  next
    case (put_fail c x b e)
    then have "ex_phase a c = Armed" using phase [of c] by simp
    with put_fail show ?thesis
      by (simp add: exch_step_simps ops)
        (intro conjI impI; rule move [where c = c and p = "Finished GotIoError" and x = "Returned (Inl (Io e))"];
          simp add: ops)
  next
    case (receive c ms m)
    then have p: "ex_phase a c = Waiting" using phase [of c] by simp
    from sim_inbox(1) [OF assms(2,5)] receive obtain i where
      i: "i < length (cn_answers s)" "ex_inbox a c = Some i" "cn_answers s ! i = m" by blast
    with receive p show ?thesis
      by (simp add: exch_step_simps ops)
        (rule move [where c = c and p = "Finished (GotReply i)" and x = "Returned (Inr (into_response m))"];
          simp add: ops)
  next
    case (sender_gone c ms)
    then have "ex_phase a c = Waiting" using phase [of c] by simp
    moreover have "ex_inbox a c = None" using sim_inbox(2) [OF assms(2,5)] sender_gone by blast
    ultimately have "pending_reply (cn_shared s) = Some c"
      using assms(4) eqs(2) by (simp add: slot_inv_def)
    with sender_gone show ?thesis by simp
  next
    case (expire c ms)
    then have "ex_phase a c = Waiting" using phase [of c] by simp
    moreover have "ex_inbox a c = None" using sim_inbox(2) [OF assms(2,5)] expire by blast
    ultimately show ?thesis
      using expire by (simp add: exch_step_simps ops)
        (rule move [where c = c and p = TimedOut and x = "Late ms"]; simp add: ops)
  next
    case (clear c ms)
    then have "ex_phase a c = TimedOut" using phase [of c] by simp
    with clear show ?thesis
      by (simp add: exch_step_simps ops)
        (rule move [where c = c and p = "Finished GotTimeout" and x = "Returned (Inl (Timeout ms))"]; simp add: ops)
  next
    case (cancel c x ms b)
    then have "active (ex_phase a c)" "ex_phase a c = Armed \<longleftrightarrow> cn_call s c = Slotted x"
      using phase [of c] by auto
    with cancel show ?thesis
      by (simp add: exch_step_simps ops)
        (intro conjI impI; rule move [where c = c and p = "Finished GotCancelled" and x = Dropped]; simp add: ops)
  qed
qed

text \<open>A torn write is, for the exchange, one that wrote nothing.\<close>

lemma sim_wire [simp]: "sim pdec (s\<lparr>cn_wire := b\<rparr>) a = sim pdec s a"
  by (simp add: sim_def)

lemma tear_whole:
  assumes "conn_step su s (Tear l k) t"
  shows "\<exists>u. conn_step su s (Do l) u \<and> t = u\<lparr>cn_wire := cn_wire t\<rparr>"
  using assms
proof (cases rule: conn_step.cases)
  case (tear_fail c x e)
  with conn_step.put_fail [of s c x su False e] show ?thesis
    by (intro exI [of _ "release s c (Returned (Inl (Io e)))"]) (cases s; simp add: conn_ops set_call_def)
next
  case (tear_cancel c x)
  with conn_step.cancel [of s c x "0" su False] show ?thesis
    by (intro exI [of _ "release s c Dropped"]) (cases s; simp add: conn_ops set_call_def)
qed

text \<open>What the reader does with a message that is no reply leaves the reply channels alone.\<close>

lemma handle_message_keeps:
  assumes "\<not> is_reply m" "handle_message env w m = Continue w' \<or> handle_message env w m = Return w'"
  shows "w_replies w' = w_replies w \<and> pending_reply (w_shared w') = pending_reply (w_shared w)"
  using assms dispatch_keeps_pending
  by (auto simp: handle_message_def handle_event_def is_reply_def Let_def
      split: MessageType.splits prod.splits if_splits)

lemma handle_message_reply: "is_reply m \<Longrightarrow> handle_message env w m = Continue (handle_reply w m)"
  by (auto simp: handle_message_def is_reply_def)

lemma unread_frame:
  assumes "frames pdec (bs @ stream) = (ms, None, [])" "next_frame pdec bs = Frame m rest"
  obtains ms' where "ms = m # ms'" "frames pdec (rest @ stream) = (ms', None, [])"
  using assms frame_extends [OF assms(2), of stream]
  by (auto simp: frames.simps [of pdec "bs @ stream"] split: prod.splits)

lemma reader_parse_unread:
  assumes "unread (env_pdec env) r stream replies"
  shows "(\<exists>r'. (reader_parse env r = Return r'
              \<or> (reader_parse env r = Continue r' \<or> reader_parse env r = ReadMore r')
                 \<and> unread (env_pdec env) r' stream replies)
            \<and> w_replies (rd_world r') = w_replies (rd_world r)
            \<and> pending_reply (w_shared (rd_world r')) = pending_reply (w_shared (rd_world r)))
     \<or> (\<exists>r' m ms. replies = m # ms \<and> reader_parse env r = Continue r'
            \<and> rd_world r' = handle_reply (rd_world r) m \<and> unread (env_pdec env) r' stream ms)"
proof -
  from assms obtain bs ms where u: "represents (env_pdec env) (rd_parser r) bs"
    "frames (env_pdec env) (bs @ stream) = (ms, None, [])" "filter is_reply ms = replies"
    by (auto simp: unread_def)
  note sim = parse_message_simulates [OF u(1)]
  obtain out p' where pm: "parse_message (env_pdec env) (rd_parser r) = (out, p')"
    by (cases "parse_message (env_pdec env) (rd_parser r)")
  show ?thesis
  proof (cases "next_frame (env_pdec env) bs")
    case NeedMore
    with sim pm u show ?thesis
      by (simp add: simulates_def reader_parse_def unread_def) blast
  next
    case (Bad e)
    with sim pm show ?thesis
      by (simp add: simulates_def reader_parse_def set_status_def)
  next
    case (Frame m rest)
    with sim pm have o: "out = Inr (Some m)" and rep: "represents (env_pdec env) p' rest"
      by (simp_all add: simulates_def)
    from unread_frame [OF u(2) Frame] obtain ms' where
      ms: "ms = m # ms'" "frames (env_pdec env) (rest @ stream) = (ms', None, [])" .
    show ?thesis
    proof (cases "is_reply m")
      case True
      with pm o rep ms u(3) show ?thesis
        by (simp add: reader_parse_def handle_message_reply unread_def) blast
    next
      case False
      have "unread (env_pdec env) (r\<lparr>rd_parser := p', rd_world := w'\<rparr>) stream replies" for w'
        using rep ms u(3) False by (auto simp: unread_def)
      with pm o handle_message_keeps [OF False, of env "rd_world r"] show ?thesis
        by (cases "handle_message env (rd_world r) m")
          (simp_all add: reader_parse_def handle_message_no_read)
    qed
  qed
qed

lemma reader_read_unread:
  assumes "unread pdec r (d @ rest) replies" "rr = ReadData d \<or> d = [] \<and> (\<forall>x. rr \<noteq> ReadData x)"
  shows "case reader_read now rr r of
      Continue r' \<Rightarrow> rd_world r' = rd_world r \<and> unread pdec r' rest replies
    | Return r' \<Rightarrow> w_replies (rd_world r') = w_replies (rd_world r) \<and> w_shared (rd_world r') = w_shared (rd_world r)
    | ReadMore _ \<Rightarrow> False"
proof -
  from assms(1) obtain bs ms where "represents pdec (rd_parser r) bs"
    "frames pdec (bs @ d @ rest) = (ms, None, [])" "filter is_reply ms = replies"
    by (auto simp: unread_def)
  with represents_add_data [of pdec "rd_parser r" bs d] assms show ?thesis
    by (cases rr) (auto simp: reader_read_def set_status_def Let_def unread_def split: prod.splits sum.splits)
qed

text \<open>A reply that is handled is the next reply of the exchange.\<close>

lemma sim_deliver:
  assumes "sim pdec s a" "slot_inv a" "inbox_inv a" "drop (ex_replied a) (cn_answers s) = m # ms"
    and "cn_world t = handle_reply (cn_world s) m" "cn_lock t = cn_lock s" "cn_call t = cn_call s"
    and "cn_sent t = cn_sent s" "cn_answers t = cn_answers s" "stream_sim pdec t (Suc (ex_replied a))"
  shows "exch_step a Reply (deliver a) \<and> sim pdec t (deliver a)"
proof
  let ?n = "ex_replied a"
  have n: "?n < length (cn_answers s)" "cn_answers s ! ?n = m"
    using assms(4) by (metis drop_eq_Nil2 leI list.distinct(1))
      (metis assms(4) nth_via_drop)
  have sim: "ex_sent a = map fst (cn_sent s)" "length (cn_answers s) \<le> length (cn_sent s)"
    "ex_pending a = pending_reply (cn_shared s)"
    "replies_sim (cn_answers s) (w_replies (cn_world s)) a"
    using assms(1) by (simp_all add: sim_def)
  show "exch_step a Reply (deliver a)"
    using n(1) sim(1,2) by (simp add: exch_step_simps)
  have "replies_sim (cn_answers s) (w_replies (handle_reply (cn_world s) m)) (deliver a)"
  proof (cases "ex_pending a")
    case None
    with sim(3,4) show ?thesis
      by (simp add: handle_reply_def deliver_def cn_shared_def replies_sim_def)
  next
    case (Some d)
    have "ex_phase a d \<noteq> Idle" "ex_phase a d \<noteq> Locked"
      "ex_phase a d = Armed \<or> ex_phase a d = Waiting \<longrightarrow> ex_inbox a d = None"
      using assms(2) Some by (auto simp: slot_inv_def)
    with Some sim(3,4) n show ?thesis
      by (cases "ex_phase a d") (auto simp: handle_reply_def deliver_def cn_shared_def replies_sim_def)
  qed
  moreover have "ex_lock (deliver a) = ex_lock a" "ex_pending (deliver a) = None"
    by (simp_all add: deliver_def Let_def split: option.splits)
  moreover have "pending_reply (w_shared (handle_reply (cn_world s) m)) = None"
    by simp
  ultimately show "sim pdec t (deliver a)"
    using assms(1,5-10) n(1) by (simp add: sim_def cn_shared_def)
qed

lemma conn_reader:
  fixes su :: "('q, 'v) party"
  assumes "conn_step su s ReaderActs t" "sim (env_pdec (su_env su)) s a" "slot_inv a" "inbox_inv a"
  shows "sim (env_pdec (su_env su)) t a
    \<or> (exch_step a Reply (deliver a) \<and> sim (env_pdec (su_env su)) t (deliver a))"
proof -
  let ?replies = "drop (ex_replied a) (cn_answers s)"
  have st: "stream_sim (env_pdec (su_env su)) s (ex_replied a)"
    and ph: "\<forall>c. phase_sim (cn_answers s) (cn_call s c) (ex_phase a c)"
    using assms(2) by (simp_all add: sim_def)
  from assms(1) show ?thesis
  proof (cases rule: conn_step.cases)
    case (parse r)
    have w: "cn_world s = rd_world r"
      using parse by (simp add: cn_world_def)
    have "unread (env_pdec (su_env su)) r (cn_stream s) ?replies"
      using st parse by (simp add: stream_sim_def)
    from reader_parse_unread [OF this] consider
      (same) r' where "reader_parse (su_env su) r = Return r'
            \<or> (reader_parse (su_env su) r = Continue r' \<or> reader_parse (su_env su) r = ReadMore r')
               \<and> unread (env_pdec (su_env su)) r' (cn_stream s) ?replies"
          "w_replies (rd_world r') = w_replies (rd_world r)"
          "pending_reply (w_shared (rd_world r')) = pending_reply (w_shared (rd_world r))"
    | (reply) r' m ms where "?replies = m # ms" "reader_parse (su_env su) r = Continue r'"
        "rd_world r' = handle_reply (rd_world r) m"
        "unread (env_pdec (su_env su)) r' (cn_stream s) ms"
      by blast
    then show ?thesis
    proof cases
      case (same r')
      then have "cn_world t = rd_world r'" "stream_sim (env_pdec (su_env su)) t (ex_replied a)"
        using parse by (auto simp: stream_sim_def)
      then show ?thesis
        using same(2,3) parse w ph by (intro disjI1 sim_stutter [OF assms(2)]) (simp_all add: cn_shared_def)
    next
      case (reply r' m ms)
      then have "ms = drop (Suc (ex_replied a)) (cn_answers s)"
        by (metis drop_Suc tl_drop list.sel(3))
      with reply parse w show ?thesis
        by (intro disjI2 sim_deliver [OF assms(2-4) reply(1)]) (simp_all add: stream_sim_def)
    qed
  next
    case (read_data r d rest now)
    have "unread (env_pdec (su_env su)) r (d @ rest) ?replies"
      using st read_data by (simp add: stream_sim_def)
    from reader_read_unread [OF this, of "ReadData d" now] read_data ph show ?thesis
      by (intro disjI1 sim_stutter [OF assms(2)])
        (auto simp: cn_shared_def stream_sim_def cn_world_def split: loop_ctl.splits)
  next
    case (read_none r rr e now)
    have "unread (env_pdec (su_env su)) r ([] @ cn_stream s) ?replies"
      using st read_none by (simp add: stream_sim_def)
    from reader_read_unread [OF this, of rr now] read_none ph show ?thesis
      by (intro disjI1 sim_stutter [OF assms(2)])
        (auto simp: cn_shared_def stream_sim_def cn_world_def split: loop_ctl.splits)
  qed
qed

lemma unread_append:
  assumes "unread pdec r stream replies" "next_frame pdec bs = Frame m []"
  shows "unread pdec r (stream @ bs) (replies @ (if is_reply m then [m] else []))"
proof -
  from assms(1) obtain ds ms where u: "represents pdec (rd_parser r) ds"
    "frames pdec (ds @ stream) = (ms, None, [])" "filter is_reply ms = replies"
    by (auto simp: unread_def)
  have "frames pdec bs = ([m], None, [])"
    using frames_Frame [OF assms(2)] by (simp add: frames_Nil)
  then have "frames pdec ((ds @ stream) @ bs) = (ms @ [m], None, [])"
    using frames_append [of pdec "ds @ stream" bs] u(2) by simp
  with u(1,3) show ?thesis
    unfolding unread_def by (intro exI [of _ ds] exI [of _ "ms @ [m]"]) auto
qed

lemma phase_sim_mono: "phase_sim ms x p \<Longrightarrow> phase_sim (ms @ [m]) x p"
proof (cases x)
  case (Returned z)
  assume a: "phase_sim ms x p"
  show ?thesis
  proof (cases z)
    case (Inl e)
    with a Returned show ?thesis by (cases e) simp_all
  next
    case (Inr r)
    with a Returned obtain i where "i < length ms" "p = Finished (GotReply i)" "r = into_response (ms ! i)"
      by auto
    with Inr Returned show ?thesis by (auto simp: nth_append intro: exI [of _ i])
  qed
qed simp_all

lemma conn_server:
  assumes "conn_step su s ServerActs t" "sim (env_pdec (su_env su)) s a" "inbox_inv a"
  shows "sim (env_pdec (su_env su)) t a"
proof -
  have grow: "stream_sim (env_pdec (su_env su))
       (s\<lparr>cn_stream := cn_stream s @ bs, cn_answers := cn_answers s @ (if is_reply m then [m] else [])\<rparr>) (ex_replied a)"
    if "next_frame (env_pdec (su_env su)) bs = Frame m []" for bs m
    using assms(2) unread_append [OF _ that]
    by (auto simp: sim_def stream_sim_def split: loop_ctl.splits)
  from assms(1) show ?thesis
  proof (cases rule: conn_step.cases)
    case (answer bs m)
    have "i < length (cn_answers s)" if "ex_inbox a c = Some i" for c i
      using that assms(2,3) unfolding sim_def inbox_inv_def by (meson less_le_trans)
    then have "replies_sim (cn_answers s @ [m]) (w_replies (cn_world s)) a"
      using assms(2) by (fastforce simp: sim_def replies_sim_def nth_append)
    with answer assms(2) grow [of bs m] phase_sim_mono show ?thesis
      by (simp add: sim_def cn_shared_def)
  next
    case (push bs m)
    then show ?thesis
      using grow [of bs m] assms(2) by (intro sim_stutter [OF assms(2)]) (simp_all add: cn_shared_def sim_def)
  qed
qed

lemma conn_other:
  assumes "conn_step su s a t" "a = Setting \<or> a = TakeEvent" "sim pdec s x"
  shows "sim pdec t x"
  using assms
  by (elim conn_stepE; intro sim_stutter [OF assms(3)])
    (auto simp: sim_def set_command_timeout_def set_liveness_timeout_def stream_recv_def set_shared_def cn_shared_def
      split: prod.splits)

section \<open>The refinement\<close>

lemma sim_start: "fresh pdec r stream \<Longrightarrow> sim pdec (conn_start r stream) exch_init"
  by (simp add: sim_def conn_start_def exch_init_def fresh_def cn_shared_def cn_world_def replies_sim_def
      stream_sim_def unread_def)

lemma conn_simulates:
  assumes "conn_step su s x t" "sim (env_pdec (su_env su)) s a" "reached ok a" "\<And>l k. x = Do l \<or> x = Tear l k \<Longrightarrow> ok l" "ok Reply"
  shows "\<exists>b. reached ok b \<and> sim (env_pdec (su_env su)) t b"
proof -
  note inv = lock_inv_reached [OF assms(3)] slot_inv_reached [OF assms(3)] inbox_inv_reached [OF assms(3)]
  show ?thesis
  proof (cases x)
    case (Begin c)
    then show ?thesis using conn_begin assms(1-3) by blast
  next
    case (Do l)
    then show ?thesis
      using conn_do [OF _ assms(2) inv] assms(1,3,4) by (blast intro: reached.step)
  next
    case (Tear l k)
    with tear_whole assms(1) obtain u where u: "conn_step su s (Do l) u" "t = u\<lparr>cn_wire := cn_wire t\<rparr>" by blast
    from conn_do [OF u(1) assms(2) inv] obtain b where b: "exch_step a l b" "sim (env_pdec (su_env su)) u b" by blast
    have "reached ok b" using assms(3) b(1) assms(4) Tear by (blast intro: reached.step)
    moreover have "sim (env_pdec (su_env su)) t b" by (subst u(2)) (simp add: b(2))
    ultimately show ?thesis by blast
  next
    case ReaderActs
    then show ?thesis
      using conn_reader [OF _ assms(2) inv(2,3)] assms(1,3,5) by (blast intro: reached.step)
  next
    case ServerActs
    then show ?thesis using conn_server [OF _ assms(2) inv(3)] assms(1,3) by blast
  qed (use conn_other assms(1-3) in blast)+
qed

lemma conn_refines:
  assumes "conn_reached su ok s" "\<And>l k. ok (Do l) \<or> ok (Tear l k) \<Longrightarrow> okl l" "okl Reply"
  shows "\<exists>a. reached okl a \<and> sim (env_pdec (su_env su)) s a"
  using assms(1)
proof (induction rule: conn_reached.induct)
  case (start r stream)
  then show ?case using sim_start reached.start by blast
next
  case (step s a t)
  then show ?case using conn_simulates assms(2,3) by metis
qed

end
