(* ===== verification/Esl_Own_Reply.thy ===== *)
theory Esl_Own_Reply
  imports Esl_Calls
begin

text \<open>
  What the simulation of \<open>Esl_Calls\<close> gives for the calls of \<open>send_command\<close> in
  \<open>src/src/connection.rs\<close>: the refinement of the numbered exchange, the reply each call
  returns, the end of a call whose connection is lost, and a first answered call.
\<close>

section \<open>Refinement\<close>

text \<open>C2. The running connection refines the numbered exchange. In every state the calls, the reader and
  the server can reach, with timeouts, write errors, dropped futures and any chunks of bytes, there is a reachable
  state of the exchange with the same lock, slot and commands written, in which every call is in the
  corresponding phase, and the messages the reader has not yet handled contain exactly the replies that the
  exchange has not yet delivered.\<close>

theorem calls_refine_exchange:
  assumes "conn_reached su (\<lambda>_. True) s"
  shows "\<exists>a. reached (\<lambda>_. True) a \<and> sim (env_pdec (su_env su)) s a"
  by (rule conn_refines [OF assms]) simp_all

section \<open>Every command gets its own reply\<close>

fun text_of :: "call \<Rightarrow> string option" where
  "text_of (Wants t) = Some t"
| "text_of (Holds t) = Some t"
| "text_of (Slotted t) = Some t"
| "text_of _ = None"

definition texts_ok :: "('q, 'v) party \<Rightarrow> 'q conn \<Rightarrow> bool" where
  "texts_ok su s =
     (\<forall>c t. text_of (cn_call s c) = Some t \<or> (c, t) \<in> set (cn_sent s)
        \<longrightarrow> to_wire_format (su_ord_ev su) (su_ord_cb su) (su_command su c) = Inr t)"

lemma begin_call_text:
  "text_of (begin_call ord_ev ord_cb status command) = Some t \<Longrightarrow> to_wire_format ord_ev ord_cb command = Inr t"
  by (simp add: begin_call_def split: if_splits sum.splits)

lemma texts_ok_update:
  assumes "texts_ok su s" "cn_call t = (cn_call s)(c := x)" "set (cn_sent t) \<subseteq> insert (c, y) (set (cn_sent s))"
    and "\<And>z. text_of x = Some z \<or> z = y \<and> cn_sent t \<noteq> cn_sent s
      \<Longrightarrow> to_wire_format (su_ord_ev su) (su_ord_cb su) (su_command su c) = Inr z"
  shows "texts_ok su t"
  unfolding texts_ok_def
proof (intro allI impI)
  fix d z
  assume "text_of (cn_call t d) = Some z \<or> (d, z) \<in> set (cn_sent t)"
  then consider "text_of (cn_call s d) = Some z" | "(d, z) \<in> set (cn_sent s)"
    | "d = c" "text_of x = Some z" | "d = c" "z = y" "cn_sent t \<noteq> cn_sent s"
    using assms(2,3) by (metis fun_upd_apply insertE prod.inject subsetD)
  then show "to_wire_format (su_ord_ev su) (su_ord_cb su) (su_command su d) = Inr z"
  proof cases
    case 1
    with assms(1) show ?thesis unfolding texts_ok_def by blast
  next
    case 2
    with assms(1) show ?thesis unfolding texts_ok_def by blast
  qed (use assms(4) in blast)+
qed

lemma texts_ok_step:
  assumes "conn_step su s x t" "texts_ok su s"
  shows "texts_ok su t"
proof -
  have own: "to_wire_format (su_ord_ev su) (su_ord_cb su) (su_command su c) = Inr z"
    if "text_of (cn_call s c) = Some z" for c z
    using assms(2) that by (simp add: texts_ok_def)
  have same: "texts_ok su t" if "cn_call t = cn_call s" "cn_sent t = cn_sent s"
    using assms(2) that by (simp add: texts_ok_def)
  note upd = texts_ok_update [OF assms(2)]
  from assms(1) show ?thesis
  proof (cases rule: conn_step.cases)
    case (start_call c)
    show ?thesis
      by (rule upd [where c = c]) (use start_call begin_call_text in \<open>auto simp: conn_ops\<close>)
  next
    case (give_up c z)
    show ?thesis by (rule upd [where c = c]) (use give_up in \<open>auto simp: conn_ops\<close>)
  next
    case (acquire c z)
    show ?thesis by (rule upd [where c = c]) (use acquire own [of c z] in \<open>auto simp: conn_ops\<close>)
  next
    case (arm c z)
    show ?thesis by (rule upd [where c = c]) (use arm own [of c z] in \<open>auto simp: conn_ops\<close>)
  next
    case (put c z)
    show ?thesis by (rule upd [where c = c and y = z]) (use put own [of c z] in \<open>auto simp: conn_ops\<close>)
  next
    case (put_fail c z b e)
    show ?thesis by (rule upd [where c = c and y = z]) (use put_fail own [of c z] in \<open>auto simp: conn_ops\<close>)
  next
    case (tear_fail c z k e)
    show ?thesis by (rule upd [where c = c]) (use tear_fail in \<open>auto simp: conn_ops\<close>)
  next
    case (tear_cancel c z k)
    show ?thesis by (rule upd [where c = c]) (use tear_cancel in \<open>auto simp: conn_ops\<close>)
  next
    case (receive c ms m)
    show ?thesis by (rule upd [where c = c]) (use receive in \<open>auto simp: conn_ops\<close>)
  next
    case (sender_gone c ms)
    show ?thesis by (rule upd [where c = c]) (use sender_gone in \<open>auto simp: conn_ops\<close>)
  next
    case (expire c ms)
    show ?thesis by (rule upd [where c = c]) (use expire in \<open>auto simp: conn_ops\<close>)
  next
    case (clear c ms)
    show ?thesis by (rule upd [where c = c]) (use clear in \<open>auto simp: conn_ops\<close>)
  next
    case (cancel c z ms b)
    show ?thesis
      by (rule upd [where c = c and y = z]) (use cancel own [of c z] in \<open>auto simp: conn_ops split: if_splits\<close>)
  qed (rule same; simp add: conn_ops)+
qed

lemma texts_ok_reached: "conn_reached su ok s \<Longrightarrow> texts_ok su s"
proof (induction rule: conn_reached.induct)
  case (start r stream)
  then show ?case by (simp add: texts_ok_def conn_start_def)
qed (blast intro: texts_ok_step)

lemma own_reply_bytes:
  assumes "conn_reached su quiet s" "cn_call s c = Returned (Inr resp)"
  shows "\<exists>i t. i < length (cn_answers s) \<and> i < length (cn_sent s) \<and> cn_sent s ! i = (c, t)
     \<and> to_wire_format (su_ord_ev su) (su_ord_cb su) (su_command su c) = Inr t
     \<and> resp = into_response (cn_answers s ! i)"
proof -
  obtain a where a: "reached undisturbed a" "sim (env_pdec (su_env su)) s a"
    using conn_refines [OF assms(1), of undisturbed] by auto
  with sim_phase [OF a(2), of c] assms(2) obtain i where i: "i < length (cn_answers s)"
    "ex_phase a c = Finished (GotReply i)" "resp = into_response (cn_answers s ! i)"
    by auto
  have "ex_sent a = map fst (cn_sent s)"
    using a(2) by (simp add: sim_def)
  with own_reply [OF a(1) i(2)] have "i < length (cn_sent s)" "fst (cn_sent s ! i) = c"
    by auto
  moreover have "(c, snd (cn_sent s ! i)) \<in> set (cn_sent s)"
    using calculation by (metis nth_mem prod.collapse)
  ultimately show ?thesis
    using texts_ok_reached [OF assms(1)] i
    by (intro exI [of _ i] exI [of _ "snd (cn_sent s ! i)"]) (auto simp: texts_ok_def prod_eq_iff)
qed

text \<open>C3. Concurrent commands get their own replies, on bytes. However the calls of several handles, the reader
  and the server interleave, and in whatever chunks events and replies arrive: a call that returns a
  response returns the one made of the reply with the number of its own command text on the socket, and
  that text is the command's wire form, as long as no call times out or is dropped and no write
  fails.\<close>

theorem command_gets_own_reply:
  assumes "conn_reached su quiet s" "cn_call s c = Returned (Inr resp)"
  shows "\<exists>i t. i < length (cn_answers s) \<and> i < length (cn_sent s) \<and> cn_sent s ! i = (c, t)
     \<and> to_wire_format (su_ord_ev su) (su_ord_cb su) (su_command su c) = Inr t
     \<and> resp = into_response (cn_answers s ! i)"
  using assms by (rule own_reply_bytes)

section \<open>When the connection ends\<close>

text \<open>The sender of a waiting call is never dropped.\<close>

lemma awaits_slot:
  assumes "conn_reached su ok s" "cn_call s c = Awaits ms" "\<not> got_reply s c"
  shows "pending_reply (cn_shared s) = Some c"
proof -
  obtain a where a: "reached (\<lambda>_. True) a" "sim (env_pdec (su_env su)) s a"
    using conn_refines [OF assms(1), of "\<lambda>_. True"] by auto
  have "ex_inbox a c = None" "ex_phase a c = Waiting"
    using sim_inbox(2) [OF a(2) inbox_inv_reached [OF a(1)] assms(2,3)] sim_phase [OF a(2), of c] assms(2)
    by simp_all
  then show ?thesis
    using slot_inv_reached [OF a(1)] a(2) by (simp add: slot_inv_def sim_def)
qed

text \<open>C15. A lost connection does not end the command in flight. No call ever returns \<open>ConnectionClosed\<close>:
  the slot with its sender is shared with the client handles and outlives the reader. When the reader
  has ended (server notice, end of stream, error or liveness timeout), a call that is still without its reply
  can only run into its timeout or be dropped.\<close>

theorem lost_connection_times_out:
  assumes "conn_reached su (\<lambda>_. True) s"
  shows "cn_call s c \<noteq> Returned (Inl ConnectionClosed)
    \<and> (cn_reader s = Return r \<and> cn_call s c = Awaits ms \<and> \<not> got_reply s c \<and> conn_step su s x t
         \<and> cn_call t c \<noteq> cn_call s c \<longrightarrow> cn_call t c = Late ms \<or> cn_call t c = Dropped)"
proof
  obtain a where "sim (env_pdec (su_env su)) s a"
    using conn_refines [OF assms, of "\<lambda>_. True"] by auto
  then show "cn_call s c \<noteq> Returned (Inl ConnectionClosed)"
    using sim_phase [of _ s a c] by auto
  show "cn_reader s = Return r \<and> cn_call s c = Awaits ms \<and> \<not> got_reply s c \<and> conn_step su s x t
         \<and> cn_call t c \<noteq> cn_call s c \<longrightarrow> cn_call t c = Late ms \<or> cn_call t c = Dropped"
    using awaits_slot [OF assms, of c ms]
    by (auto elim!: conn_stepE simp: conn_ops got_reply_def image_iff split: if_splits)
qed

section \<open>A call on an idle connection\<close>

lemma parse_idle:
  assumes "represents (env_pdec env) (rd_parser r) []"
  shows "\<exists>p. reader_parse env r = ReadMore (r\<lparr>rd_parser := p\<rparr>) \<and> represents (env_pdec env) p []"
  using parse_message_simulates [OF assms]
  by (cases "parse_message (env_pdec env) (rd_parser r)")
    (auto simp: next_frame_def simulates_def reader_parse_def)

lemma parse_reply:
  assumes "represents (env_pdec env) (rd_parser r) bs" "next_frame (env_pdec env) bs = Frame m []" "is_reply m"
  shows "\<exists>p. reader_parse env r = Continue (r\<lparr>rd_parser := p, rd_world := handle_reply (rd_world r) m\<rparr>)"
  using parse_message_simulates [OF assms(1)] assms(2,3)
  by (cases "parse_message (env_pdec env) (rd_parser r)")
    (auto simp: simulates_def reader_parse_def handle_message_reply)

lemma frame_not_Nil: "next_frame pdec bs = Frame m R \<Longrightarrow> bs \<noteq> []"
  by (auto simp: next_frame_def)

text \<open>A call on an idle connection, up to the moment when its reply is in the socket.\<close>

lemma waiting_call:
  fixes su :: "('q, 'v) party" and r :: "'q reader"
  assumes "represents (env_pdec (su_env su)) (rd_parser r) []" "rd_world r = w"
    and "w_status w = Connected" "pending_reply (w_shared w) = None" "w_replies w = []"
    and "to_wire_format (su_ord_ev su) (su_ord_cb su) (su_command su c) = Inr t"
    and "next_frame (env_pdec (su_env su)) bs = Frame m []" "is_reply m"
  shows "\<exists>p. conn_reached su quiet
       \<lparr>cn_lock = Some c,
        cn_reader = ReadMore (r\<lparr>rd_world := w\<lparr>w_shared := (w_shared w)\<lparr>pending_reply := Some c\<rparr>\<rparr>, rd_parser := p\<rparr>),
        cn_call = (\<lambda>_. Ready)(c := Awaits (command_timeout_ms (w_shared w))), cn_sent = [(c, t)], cn_stream = bs,
        cn_answers = [m], cn_wire = t\<rparr>
     \<and> represents (env_pdec (su_env su)) p []"
proof -
  let ?reach = "conn_reached su quiet"
  have go: "?reach s \<Longrightarrow> conn_step su s x y \<Longrightarrow> quiet x \<Longrightarrow> ?reach y" for s x y
    by (rule conn_reached.step)
  have "?reach (conn_start r [])"
    using assms(1-5) frames_Nil by (intro conn_reached.start) (auto simp: fresh_def)
  moreover have "begin_call (su_ord_ev su) (su_ord_cb su) (w_status (cn_world (conn_start r []))) (su_command su c)
      = Wants t"
    using assms(2,3,6) by (simp add: begin_call_def conn_start_def cn_world_def)
  ultimately have "?reach (set_call (conn_start r []) c (Wants t))"
    using go [OF _ conn_step.start_call [of "conn_start r []" c su]] by (simp add: conn_start_def)
  from go [OF this conn_step.acquire [of _ c t]]
  have "?reach ((set_call (conn_start r []) c (Holds t))\<lparr>cn_lock := Some c\<rparr>)"
    by (simp add: conn_start_def set_call_def)
  from go [OF this conn_step.arm [of _ c t]]
  have s3: "?reach (set_pending ((set_call (conn_start r []) c (Slotted t))\<lparr>cn_lock := Some c\<rparr>) (Some c))"
    by (simp add: conn_start_def set_call_def)
  define v where "v = w\<lparr>w_shared := (w_shared w)\<lparr>pending_reply := Some c\<rparr>\<rparr>"
  define q where "q rl inp ans = \<lparr>cn_lock = Some c, cn_reader = rl,
     cn_call = (\<lambda>_. Ready)(c := Awaits (command_timeout_ms (w_shared w))),
     cn_sent = [(c, t)], cn_stream = inp, cn_answers = ans, cn_wire = t\<rparr>"
    for rl :: "'q reader loop_ctl" and inp ans
  from go [OF s3 conn_step.put [of _ c t]] assms(2)
  have "?reach (q (Continue (r\<lparr>rd_world := v\<rparr>)) [] [])"
    by (simp add: conn_start_def conn_defs q_def v_def fun_upd_def cong: if_cong)
  moreover obtain p where p: "reader_parse (su_env su) (r\<lparr>rd_world := v\<rparr>) = ReadMore (r\<lparr>rd_world := v, rd_parser := p\<rparr>)"
    "represents (env_pdec (su_env su)) p []"
    using parse_idle [of "su_env su" "r\<lparr>rd_world := v\<rparr>"] assms(1) by auto
  ultimately have "?reach (q (ReadMore (r\<lparr>rd_world := v, rd_parser := p\<rparr>)) [] [])"
    using go [OF _ conn_step.parse [of _ "r\<lparr>rd_world := v\<rparr>" su]] by (fastforce simp: q_def)
  from go [OF this conn_step.answer [OF _ assms(7,8)]]
  have "?reach (q (ReadMore (r\<lparr>rd_world := v, rd_parser := p\<rparr>)) bs [m])"
    by (simp add: q_def)
  with p(2) show ?thesis by (auto simp: q_def v_def)
qed

lemma answered_call:
  fixes su :: "('q, 'v) party" and r :: "'q reader"
  assumes "represents (env_pdec (su_env su)) (rd_parser r) []" "rd_world r = w"
    and "w_status w = Connected" "pending_reply (w_shared w) = None" "w_replies w = []"
    and "to_wire_format (su_ord_ev su) (su_ord_cb su) (su_command su c) = Inr t"
    and "next_frame (env_pdec (su_env su)) bs = Frame m []" "is_reply m" "length bs \<le> SOCKET_BUF_SIZE"
  shows "\<exists>s. conn_reached su quiet s \<and> cn_call s c = Returned (Inr (into_response m)) \<and> cn_lock s = None
     \<and> cn_sent s = [(c, t)] \<and> cn_answers s = [m]"
proof -
  let ?reach = "conn_reached su quiet"
  have go: "?reach s \<Longrightarrow> conn_step su s x y \<Longrightarrow> quiet x \<Longrightarrow> ?reach y" for s x y
    by (rule conn_reached.step)
  define v where "v = w\<lparr>w_shared := (w_shared w)\<lparr>pending_reply := Some c\<rparr>\<rparr>"
  define ms where "ms = command_timeout_ms (w_shared w)"
  define q where "q rl inp = \<lparr>cn_lock = Some c, cn_reader = rl, cn_call = (\<lambda>_. Ready)(c := Awaits ms),
     cn_sent = [(c, t)], cn_stream = inp, cn_answers = [m], cn_wire = t\<rparr>"
    for rl :: "'q reader loop_ctl" and inp
  from waiting_call [OF assms(1-8)] obtain p where
    s6: "?reach (q (ReadMore (r\<lparr>rd_world := v, rd_parser := p\<rparr>)) bs)" "represents (env_pdec (su_env su)) p []"
    by (auto simp: q_def v_def ms_def)
  obtain r' where r': "reader_read 0 (ReadData bs) (r\<lparr>rd_world := v, rd_parser := p\<rparr>) = Continue r'"
    "rd_world r' = v" "represents (env_pdec (su_env su)) (rd_parser r') bs"
    using reader_read_data [of bs "env_pdec (su_env su)" "r\<lparr>rd_world := v, rd_parser := p\<rparr>" "[]" 0]
      frame_not_Nil [OF assms(7)] s6(2) assms(9) by (auto simp: SOCKET_BUF_SIZE_def MAX_BUFFER_SIZE_def)
  from go [OF s6(1) conn_step.read_data [of _ "r\<lparr>rd_world := v, rd_parser := p\<rparr>" bs "[]" su 0]]
    frame_not_Nil [OF assms(7)] assms(9) r'(1)
  have "?reach (q (Continue r') [])"
    by (simp add: q_def)
  moreover obtain p' where "reader_parse (su_env su) r' = Continue (r'\<lparr>rd_parser := p', rd_world := handle_reply v m\<rparr>)"
    using parse_reply [OF r'(3) assms(7,8)] r'(2) by auto
  ultimately have s8: "?reach (q (Continue (r'\<lparr>rd_parser := p', rd_world := handle_reply v m\<rparr>)) [])"
    using go [OF _ conn_step.parse [of _ r' su]] by (fastforce simp: q_def)
  have "w_replies (handle_reply v m) = [(c, m)]"
    using assms(5) by (simp add: handle_reply_def v_def)
  with go [OF s8 conn_step.receive [of _ c ms m]]
  have "?reach (release (q (Continue (r'\<lparr>rd_parser := p', rd_world := handle_reply v m\<rparr>)) []) c
      (Returned (Inr (into_response m))))" (is "conn_reached _ _ ?s")
    by (simp add: q_def cn_world_def)
  moreover have "cn_call ?s c = Returned (Inr (into_response m))" "cn_lock ?s = None" "cn_sent ?s = [(c, t)]"
    "cn_answers ?s = [m]"
    by (simp_all add: q_def conn_ops)
  ultimately show ?thesis
    by blast
qed

text \<open>The status command, its reply, and a reader that has been spawned.\<close>

definition sample_party :: "(event_item list_queue, sample_json) party" where
  "sample_party =
     \<lparr>su_env = sample_env, su_ord_ev = sorted_list_of_fmap, su_ord_cb = sorted_list_of_fmap, su_recv = lq_recv,
      su_command = (\<lambda>_. Api ''status'')\<rparr>"

lemma sample_call:
  obtains s m where "conn_reached sample_party quiet s" "cn_call s 0 = Returned (Inr (into_response m))"
    "cn_sent s = [(0, ''api status'' @ [NL, NL])]" "next_frame percent_decode_ref sample_accept = Frame m []"
proof -
  have "case next_frame percent_decode_ref sample_accept of Frame m R \<Rightarrow> R = [] \<and> is_reply m | _ \<Rightarrow> False"
    by code_simp
  then obtain m where m: "next_frame percent_decode_ref sample_accept = Frame m []" "is_reply m"
    by (auto split: frame.splits)
  let ?r = "reader_start parser_new 0 (world_new sample_queue)"
  have t: "to_wire_format (su_ord_ev sample_party) (su_ord_cb sample_party) (su_command sample_party 0)
      = Inr (''api status'' @ [NL, NL])"
    by (simp add: sample_party_def validate_no_newlines_def has_newline_def format_simple_command_def)
  have "\<exists>s. conn_reached sample_party quiet s \<and> cn_call s 0 = Returned (Inr (into_response m))
      \<and> cn_lock s = None \<and> cn_sent s = [(0, ''api status'' @ [NL, NL])] \<and> cn_answers s = [m]"
    by (rule answered_call [where r = ?r and bs = sample_accept, OF _ refl _ _ _ t])
      (use m in \<open>simp_all add: sample_party_def sample_env_def reader_start_def world_new_def shared_new_def
         sample_accept_def SOCKET_BUF_SIZE_def\<close>)
  then show thesis
    using that m(1) by blast
qed

lemma conn_reached_mono: "conn_reached su ok s \<Longrightarrow> conn_reached su (\<lambda>_. True) s"
  by (induction rule: conn_reached.induct) (blast intro: conn_reached.intros)+

theorem calls_refine_exchange_witness:
  "\<exists>(s :: event_item list_queue conn) a. cn_call s 0 \<noteq> Ready \<and> reached (\<lambda>_. True) a \<and> sim percent_decode_ref s a \<and> ex_sent a = [0]"
proof -
  obtain s m where s: "conn_reached sample_party quiet s" "cn_call s 0 = Returned (Inr (into_response m))"
    "cn_sent s = [(0, ''api status'' @ [NL, NL])]"
    using sample_call by blast
  have "env_pdec (su_env sample_party) = percent_decode_ref"
    by (simp add: sample_party_def sample_env_def)
  with calls_refine_exchange [OF conn_reached_mono, OF s(1)] obtain a where
    "reached (\<lambda>_. True) a" "sim percent_decode_ref s a"
    by auto
  with s(2,3) show ?thesis
    by (intro exI [of _ s] exI [of _ a]) (simp add: sim_def)
qed

theorem command_gets_own_reply_witness:
  "\<exists>s resp i. conn_reached sample_party quiet s \<and> cn_call s 0 = Returned (Inr resp)
     \<and> cn_sent s ! i = (0, ''api status'' @ [NL, NL]) \<and> resp = into_response (cn_answers s ! i)"
proof -
  obtain s m where s: "conn_reached sample_party quiet s" "cn_call s 0 = Returned (Inr (into_response m))"
    "cn_sent s = [(0, ''api status'' @ [NL, NL])]"
    using sample_call by blast
  from command_gets_own_reply [OF s(1,2)] obtain i where "i < length (cn_sent s)"
    "into_response m = into_response (cn_answers s ! i)"
    by blast
  with s show ?thesis
    by (intro exI [of _ s] exI [of _ "into_response m"] exI [of _ i]) simp
qed

text \<open>The server closes the socket while a call waits; its timeout then expires.\<close>

lemma sample_lost:
  obtains s r ms where "conn_reached sample_party (\<lambda>_. True) s" "cn_reader s = Return r" "cn_call s 0 = Awaits ms"
    "\<not> got_reply s 0"
proof -
  have "case next_frame percent_decode_ref sample_accept of Frame m R \<Rightarrow> R = [] \<and> is_reply m | _ \<Rightarrow> False"
    by code_simp
  then obtain m where m: "next_frame percent_decode_ref sample_accept = Frame m []" "is_reply m"
    by (auto split: frame.splits)
  let ?r = "reader_start parser_new 0 (world_new sample_queue)"
  have t: "to_wire_format (su_ord_ev sample_party) (su_ord_cb sample_party) (su_command sample_party 0)
      = Inr (''api status'' @ [NL, NL])"
    by (simp add: sample_party_def validate_no_newlines_def has_newline_def format_simple_command_def)
  have r: "represents (env_pdec (su_env sample_party)) (rd_parser ?r) []" "w_status (rd_world ?r) = Connected"
    "pending_reply (w_shared (rd_world ?r)) = None" "w_replies (rd_world ?r) = []"
    by (simp_all add: reader_start_def world_new_def shared_new_def)
  have "next_frame (env_pdec (su_env sample_party)) sample_accept = Frame m []"
    using m(1) by (simp add: sample_party_def sample_env_def)
  from waiting_call [OF r(1) refl r(2-4) t this m(2)] obtain s where
    s: "conn_reached sample_party quiet s" "cn_call s 0 = Awaits (command_timeout_ms (w_shared (rd_world ?r)))"
    "\<exists>x. cn_reader s = ReadMore x \<and> w_replies (rd_world x) = []"
    by (fastforce simp: world_new_def reader_start_def)
  then obtain x where x: "cn_reader s = ReadMore x" "w_replies (rd_world x) = []" by blast
  let ?s = "s\<lparr>cn_reader := reader_read 0 (ReadData []) x\<rparr>"
  have "conn_step sample_party s ReaderActs ?s"
    using conn_step.read_none [OF x(1), of "ReadData []" undefined sample_party 0] by simp
  then have "conn_reached sample_party (\<lambda>_. True) ?s"
    using conn_reached_mono [OF s(1)] by (blast intro: conn_reached.step)
  with s(2) x(2) show thesis
    by (intro that [of ?s]) (auto simp: reader_read_def set_status_def got_reply_def cn_world_def)
qed

theorem lost_connection_times_out_witness:
  "\<exists>s r ms t. conn_reached sample_party (\<lambda>_. True) s \<and> cn_reader s = Return r \<and> cn_call s 0 = Awaits ms
     \<and> \<not> got_reply s 0 \<and> conn_step sample_party s (Do (Expire 0)) t \<and> cn_call t 0 = Late ms"
proof -
  obtain s r ms where s: "conn_reached sample_party (\<lambda>_. True) s" "cn_reader s = Return r" "cn_call s 0 = Awaits ms"
    "\<not> got_reply s 0"
    using sample_lost by blast
  let ?t = "set_call s 0 (Late ms)"
  have t: "conn_step sample_party s (Do (Expire 0)) ?t" using s(3,4) by (rule conn_step.expire)
  moreover have "cn_call ?t 0 = Late ms \<or> cn_call ?t 0 = Dropped"
    using lost_connection_times_out [OF s(1), of 0 r ms "Do (Expire 0)" ?t] s(2-4) t by simp
  ultimately show ?thesis
    using s by (intro exI [of _ s] exI [of _ r] exI [of _ ms] exI [of _ ?t]) simp
qed

end
