(* ===== verification/Esl_Answered.thy ===== *)
theory Esl_Answered
  imports Esl_Own_Reply
begin

text \<open>
  A call of \<open>send_command\<close> whose reply the server has sent: however the socket hands out what is there, the
  reader comes to the reply after a bounded number of steps, and the call returns with it.
\<close>

section \<open>The reader on its own\<close>

text \<open>A step of the reader that is not an empty read: it parses, or it is handed bytes.\<close>

definition fed :: "('q, 'v) party \<Rightarrow> 'q conn \<Rightarrow> 'q conn \<Rightarrow> bool" where
  "fed su s t = (conn_step su s ReaderActs t \<and> (\<forall>r. cn_reader s = ReadMore r \<longrightarrow> cn_stream t \<noteq> cn_stream s))"

inductive fed_steps :: "('q, 'v) party \<Rightarrow> 'q conn \<Rightarrow> nat \<Rightarrow> 'q conn \<Rightarrow> bool" for su s where
  none: "fed_steps su s 0 s"
| more: "fed_steps su s n t \<Longrightarrow> fed su t u \<Longrightarrow> fed_steps su s (Suc n) u"

lemma fed_cases:
  assumes "fed su s t"
  obtains (parse) r where "cn_reader s = Continue r" "t = s\<lparr>cn_reader := reader_parse (su_env su) r\<rparr>"
  | (read) r d rest now where "cn_reader s = ReadMore r" "cn_stream s = d @ rest" "d \<noteq> []"
      "t = s\<lparr>cn_reader := reader_read now (ReadData d) r, cn_stream := rest\<rparr>"
  using assms by (auto simp: fed_def elim!: conn_stepE)

lemma fed_fields:
  "fed su s t \<Longrightarrow> cn_call t = cn_call s \<and> cn_answers t = cn_answers s \<and> cn_sent t = cn_sent s \<and> cn_lock t = cn_lock s"
  by (erule fed_cases) simp_all

lemma fed_steps_fields:
  "fed_steps su s n t
   \<Longrightarrow> cn_call t = cn_call s \<and> cn_answers t = cn_answers s \<and> cn_sent t = cn_sent s \<and> cn_lock t = cn_lock s"
  by (induction rule: fed_steps.induct) (auto dest: fed_fields)

lemma fed_steps_reached:
  "fed_steps su s n t \<Longrightarrow> conn_reached su quiet s \<Longrightarrow> conn_reached su quiet t"
  by (induction rule: fed_steps.induct) (auto simp: fed_def intro: conn_reached.step)

text \<open>The work that is left.\<close>

definition reader_work :: "'q conn \<Rightarrow> nat" where
  "reader_work s = 4 * length (cn_stream s)
     + (case cn_reader s of
          Continue r \<Rightarrow> Suc (parser_work (rd_parser r))
        | ReadMore r \<Rightarrow> parser_work (rd_parser r)
        | Return _ \<Rightarrow> 0)"

lemma reader_parse_work:
  "case reader_parse env r of
     Continue r' \<Rightarrow> parser_work (rd_parser r') < parser_work (rd_parser r)
   | ReadMore r' \<Rightarrow> parser_work (rd_parser r') \<le> parser_work (rd_parser r)
   | Return _ \<Rightarrow> True"
proof -
  obtain out p where pm: "parse_message (env_pdec env) (rd_parser r) = (out, p)"
    by (cases "parse_message (env_pdec env) (rd_parser r)")
  then show ?thesis
    using parse_message_none_work [of "env_pdec env" "rd_parser r" p] parse_message_work [of "env_pdec env" "rd_parser r" _ p]
    by (auto simp: reader_parse_def handle_message_no_read Let_def split: sum.splits option.splits loop_ctl.splits)
qed

lemma add_data_work: "parser_work (snd (add_data p d)) \<le> parser_work p + 2 * length d"
  by (simp add: parser_work_def add_data_def buf_len_def extend_from_slice_def Let_def)

lemma fed_work:
  assumes "fed su s t"
  shows "reader_work t < reader_work s"
  using assms
proof (cases rule: fed_cases)
  case (parse r)
  with reader_parse_work [where env = "su_env su" and r = r] show ?thesis
    by (cases "reader_parse (su_env su) r") (simp_all add: reader_work_def)
next
  case (read r d rest now)
  from read(3) obtain b d' where "d = b # d'" by (cases d) auto
  with read add_data_work [of "rd_parser r" d] show ?thesis
    by (auto simp: reader_work_def reader_read_def Let_def split: prod.splits sum.splits)
qed

lemma fed_steps_work: "fed_steps su s n t \<Longrightarrow> n + reader_work t \<le> reader_work s"
  by (induction rule: fed_steps.induct) (auto dest!: fed_work)

section \<open>Nothing ends the reader\<close>

text \<open>What has arrived fits the buffer, no message of it ends the session, and the event stream is there.\<close>

definition calm :: "(string \<Rightarrow> bytes) \<Rightarrow> ('q \<Rightarrow> bool) \<Rightarrow> 'q conn \<Rightarrow> bool" where
  "calm pdec fine s =
     (\<exists>r bs ms. (cn_reader s = Continue r \<or> cn_reader s = ReadMore r)
        \<and> fine (w_queue (rd_world r))
        \<and> length (buffer (pbuffer (rd_parser r))) + length (cn_stream s) \<le> MAX_BUFFER_SIZE
        \<and> represents pdec (rd_parser r) bs \<and> frames pdec (bs @ cn_stream s) = (ms, None, [])
        \<and> (\<forall>m \<in> set ms. \<not> ends_session m))"

lemma handle_message_fine:
  assumes "event_channel items is_open capacity (env_send env) recv"
    and "event_channel.fits items is_open capacity (w_queue w)" "\<not> ends_session m"
  shows "\<exists>w'. handle_message env w m = Continue w' \<and> event_channel.fits items is_open capacity (w_queue w')"
proof (cases "message_type m")
  case EventMsg
  let ?x = "parse_event (env_pdec env) (env_json env) (env_xml env) m (message_format m)"
  from dispatch_open [OF assms(1,2) refl, of "w_shared w" ?x] obtain q sh where
    "dispatch_event (env_send env) (w_queue w) (w_shared w) ?x = (True, q, sh)"
    "event_channel.fits items is_open capacity q"
    by blast
  with EventMsg show ?thesis
    by (simp add: handle_message_def handle_event_def)
qed (use assms(2,3) in \<open>auto simp: handle_message_def handle_reply_def ends_session_def split: option.splits\<close>)

lemma represents_buffer: "represents pdec p bs \<Longrightarrow> buf_len (pbuffer p) = length (buffer (pbuffer p))"
  by (simp add: represents_def buf_len_def)

lemma frames_not_bad: "next_frame pdec bs = Bad e \<Longrightarrow> frames pdec (bs @ d) \<noteq> (ms, None, [])"
  using frames_append [of pdec bs d] by (simp add: frames.simps [of pdec bs])

lemma calm_fed:
  assumes ch: "event_channel items is_open capacity (env_send (su_env su)) recv"
    and "fed su s t" "calm (env_pdec (su_env su)) (event_channel.fits items is_open capacity) s"
  shows "calm (env_pdec (su_env su)) (event_channel.fits items is_open capacity) t"
proof -
  let ?pdec = "env_pdec (su_env su)" and ?fine = "event_channel.fits items is_open capacity"
  from assms(3) obtain r bs ms where r: "cn_reader s = Continue r \<or> cn_reader s = ReadMore r"
    and fine: "?fine (w_queue (rd_world r))"
    and fit: "length (buffer (pbuffer (rd_parser r))) + length (cn_stream s) \<le> MAX_BUFFER_SIZE"
    and rep: "represents ?pdec (rd_parser r) bs" and fr: "frames ?pdec (bs @ cn_stream s) = (ms, None, [])"
    and ms: "\<forall>m \<in> set ms. \<not> ends_session m"
    unfolding calm_def by blast
  from assms(2) show ?thesis
  proof (cases rule: fed_cases)
    case (parse r')
    with r have r': "r' = r" by simp
    note sim = parse_message_simulates [OF rep]
    obtain out p where pm: "parse_message ?pdec (rd_parser r) = (out, p)"
      by (cases "parse_message ?pdec (rd_parser r)")
    show ?thesis
    proof (cases "next_frame ?pdec bs")
      case NeedMore
      with sim pm have p: "out = Inr None" "represents ?pdec p bs" by (simp_all add: simulates_def)
      with pm parse_message_none_work [of ?pdec "rd_parser r" p]
      have "length (buffer (pbuffer p)) \<le> length (buffer (pbuffer (rd_parser r)))"
        using represents_buffer [OF rep] represents_buffer [OF p(2)] by simp
      with fit have "length (buffer (pbuffer p)) + length (cn_stream s) \<le> MAX_BUFFER_SIZE" by simp
      with parse r' pm p fine fr ms show ?thesis
        by (auto simp: calm_def reader_parse_def)
    next
      case (Bad e)
      with frames_not_bad fr show ?thesis by metis
    next
      case (Frame m rest)
      with sim pm have o: "out = Inr (Some m)" and p: "represents ?pdec p rest" by (simp_all add: simulates_def)
      from unread_frame [OF fr Frame] obtain ms' where
        ms': "ms = m # ms'" "frames ?pdec (rest @ cn_stream s) = (ms', None, [])" .
      from handle_message_fine [OF ch fine] ms ms'(1) obtain w' where
        w': "handle_message (su_env su) (rd_world r) m = Continue w'" "?fine (w_queue w')" by auto
      have "length (buffer (pbuffer p)) \<le> length (buffer (pbuffer (rd_parser r)))"
        using pm o parse_message_shrinks [of ?pdec "rd_parser r" m p] represents_buffer [OF rep] represents_buffer [OF p]
        by (auto split: if_splits)
      with fit have "length (buffer (pbuffer p)) + length (cn_stream s) \<le> MAX_BUFFER_SIZE" by simp
      with parse r' pm o w' p ms ms' show ?thesis
        by (auto simp: calm_def reader_parse_def)
    qed
  next
    case (read r' d rest now)
    with r have r': "r' = r" by simp
    have len: "length (buffer (pbuffer (snd (add_data (rd_parser r) d)))) = length (buffer (pbuffer (rd_parser r))) + length d"
      by (simp add: add_data_def extend_from_slice_def Let_def)
    with fit read have "fst (add_data (rd_parser r) d) = Inr ()"
      by (simp add: add_data_def check_size_limits_def extend_from_slice_def Let_def)
    then obtain p where p: "add_data (rd_parser r) d = (Inr (), p)"
      by (cases "add_data (rd_parser r) d") auto
    with represents_add_data [OF rep, of d] have "represents ?pdec p (bs @ d)" by simp
    with read r' p len fine fit fr ms show ?thesis
      by (auto simp: calm_def reader_read_def)
  qed
qed

lemma calm_fed_steps:
  assumes "event_channel items is_open capacity (env_send (su_env su)) recv"
  shows "fed_steps su s n t \<Longrightarrow> calm (env_pdec (su_env su)) (event_channel.fits items is_open capacity) s
     \<Longrightarrow> calm (env_pdec (su_env su)) (event_channel.fits items is_open capacity) t"
  by (induction rule: fed_steps.induct) (auto intro: calm_fed [OF assms])

section \<open>A reader that waits has nothing left\<close>

definition idle_inv :: "(string \<Rightarrow> bytes) \<Rightarrow> 'q conn \<Rightarrow> bool" where
  "idle_inv pdec s = (\<forall>r. cn_reader s = ReadMore r \<longrightarrow> fst (parse_message pdec (rd_parser r)) = Inr None)"

lemma represented_idle:
  "represents pdec p bs \<Longrightarrow> fst (parse_message pdec p) = Inr None \<longleftrightarrow> next_frame pdec bs = NeedMore"
  using parse_message_simulates [of pdec p bs] by (auto simp: simulates_def split: frame.splits)

lemma reader_parse_idle:
  assumes "represents (env_pdec env) (rd_parser r) bs" "reader_parse env r = ReadMore r'"
  shows "fst (parse_message (env_pdec env) (rd_parser r')) = Inr None"
proof -
  obtain out p where pm: "parse_message (env_pdec env) (rd_parser r) = (out, p)"
    by (cases "parse_message (env_pdec env) (rd_parser r)")
  with assms(2) have "out = Inr None" "r' = r\<lparr>rd_parser := p\<rparr>"
    by (auto simp: reader_parse_def handle_message_no_read Let_def split: sum.splits option.splits loop_ctl.splits)
  moreover from this pm have "next_frame (env_pdec env) bs = NeedMore"
    using represented_idle [OF assms(1)] by simp
  ultimately show ?thesis
    using parse_message_simulates [OF assms(1)] pm represented_idle [of "env_pdec env" p bs] by (simp add: simulates_def)
qed

lemma reader_read_waits: "reader_read now rr r \<noteq> ReadMore r'"
  by (auto simp: reader_read_def Let_def split: read_result.splits prod.splits sum.splits)

lemma idle_inv_step:
  assumes "conn_step su s x t" "conn_reached su ok s" "idle_inv (env_pdec (su_env su)) s"
  shows "idle_inv (env_pdec (su_env su)) t"
proof -
  have same: ?thesis if "cn_reader t = cn_reader s" using assms(3) that by (simp add: idle_inv_def)
  have world: ?thesis if "cn_reader t = map_loop_ctl (\<lambda>r. r\<lparr>rd_world := f r\<rparr>) (cn_reader s)" for f
    using assms(3) that by (cases "cn_reader s") (auto simp: idle_inv_def)
  from assms(1) show ?thesis
  proof (cases rule: conn_step.cases)
    case (parse r)
    obtain a where "sim (env_pdec (su_env su)) s a"
      using conn_refines [OF assms(2), of "\<lambda>_. True"] by auto
    with parse obtain bs where "represents (env_pdec (su_env su)) (rd_parser r) bs"
      by (auto simp: sim_def stream_sim_def unread_def)
    from reader_parse_idle [OF this] parse show ?thesis by (simp add: idle_inv_def)
  next
    case (read_data r d rest now)
    then show ?thesis by (simp add: idle_inv_def reader_read_waits)
  next
    case (read_none r rr e now)
    then show ?thesis by (simp add: idle_inv_def reader_read_waits)
  qed (rule same; simp add: conn_ops; fail | rule world; simp add: conn_defs set_world_def)+
qed

lemma idle_inv_reached: "conn_reached su ok s \<Longrightarrow> idle_inv (env_pdec (su_env su)) s"
proof (induction rule: conn_reached.induct)
  case (start r stream)
  then show ?case by (simp add: idle_inv_def conn_start_def)
qed (blast intro: idle_inv_step)

text \<open>A reader that can go no further without more bytes waits on an empty socket.\<close>

lemma stuck_reader:
  assumes "\<not> (\<exists>u. fed su t u)" "cn_reader t = Continue r \<or> cn_reader t = ReadMore r"
  shows "cn_reader t = ReadMore r \<and> cn_stream t = []"
proof (cases "cn_reader t")
  case (Continue r')
  from conn_step.parse [OF this] have "fed su t (t\<lparr>cn_reader := reader_parse (su_env su) r'\<rparr>)"
    by (simp add: fed_def Continue)
  with assms(1) show ?thesis by blast
next
  case (ReadMore r')
  have "cn_stream t = []"
  proof (rule ccontr)
    assume ne: "cn_stream t \<noteq> []"
    then obtain b rest where b: "cn_stream t = [b] @ rest" by (cases "cn_stream t") auto
    have "fed su t (t\<lparr>cn_reader := reader_read 0 (ReadData [b]) r', cn_stream := rest\<rparr>)"
      using conn_step.read_data [OF ReadMore b, of su 0] b by (simp add: fed_def SOCKET_BUF_SIZE_def)
    with assms(1) show False by blast
  qed
  with ReadMore assms(2) show ?thesis by auto
next
  case (Return r')
  with assms(2) show ?thesis by simp
qed

text \<open>Then every reply has been handled.\<close>

lemma waiting_all_read:
  assumes "conn_reached su ok t" "cn_reader t = ReadMore r" "cn_stream t = []" "sim (env_pdec (su_env su)) t a"
  shows "ex_replied a = length (cn_answers t)"
proof -
  let ?pdec = "env_pdec (su_env su)"
  from assms(2-4) obtain bs ms where bs: "represents ?pdec (rd_parser r) bs" "frames ?pdec bs = (ms, None, [])"
    "filter is_reply ms = drop (ex_replied a) (cn_answers t)" "ex_replied a \<le> length (cn_answers t)"
    by (auto simp: sim_def stream_sim_def unread_def)
  have "next_frame ?pdec bs = NeedMore"
    using idle_inv_reached [OF assms(1)] assms(2) represented_idle [OF bs(1)] by (simp add: idle_inv_def)
  with bs(2) have "ms = []" by (simp add: frames.simps [of ?pdec bs])
  with bs(3,4) show ?thesis by simp
qed

section \<open>The call returns\<close>

lemma stuck_has_reply:
  assumes "conn_reached su quiet t" "cn_call t c = Awaits ms" "length (cn_answers t) = length (cn_sent t)"
    and "cn_reader t = ReadMore r" "cn_stream t = []"
  shows "\<exists>i < length (cn_sent t). fst (cn_sent t ! i) = c
    \<and> (\<forall>m. (c, m) \<in> set (w_replies (cn_world t)) \<longleftrightarrow> m = cn_answers t ! i)"
proof -
  obtain a where a: "reached undisturbed a" "sim (env_pdec (su_env su)) t a"
    using conn_refines [OF assms(1), of undisturbed] by auto
  have inv: "lock_inv a" "inbox_inv a" "holder_ok a" "owner_ok a"
    using corr_inv_reached [OF a(1)] by (simp_all add: corr_inv_def)
  have sent: "ex_sent a = map fst (cn_sent t)" and ph: "ex_phase a c = Waiting"
    using a(2) sim_phase [OF a(2), of c] assms(2) by (simp_all add: sim_def)
  have "ex_replied a = length (ex_sent a)"
    using waiting_all_read [OF assms(1,4,5) a(2)] assms(3) sent by simp
  moreover have "ex_lock a = Some c" using holder [OF inv(1), of c] ph by simp
  ultimately obtain i where i: "ex_inbox a c = Some i"
    using inv(3) ph by (auto simp: holder_ok_def split: option.splits)
  then have "i < length (ex_sent a)" "ex_sent a ! i = c"
    using inv(4) by (auto simp: owner_ok_def)
  with i a(2) ph assms(3) sent show ?thesis
    by (intro exI [of _ i]) (auto simp: sim_def replies_sim_def)
qed

lemma only_receive:
  assumes "cn_call t c = Awaits ms" "\<forall>m. (c, m) \<in> set (w_replies (cn_world t)) \<longleftrightarrow> m = m'"
  shows "conn_step su t (Do (ReceiveReply c)) u \<longleftrightarrow> u = release t c (Returned (Inr (into_response m')))"
proof
  have "got_reply t c" using assms(2) by (force simp: got_reply_def)
  then show "u = release t c (Returned (Inr (into_response m')))" if "conn_step su t (Do (ReceiveReply c)) u"
    using that assms by (auto elim: conn_stepE)
  show "conn_step su t (Do (ReceiveReply c)) u" if "u = release t c (Returned (Inr (into_response m')))"
    using conn_step.receive [OF assms(1)] assms(2) that by blast
qed

text \<open>C14. An answered command returns. Take a call that waits for its reply, on any connection where no call has
  timed out or been dropped and no write failed, and let the server have answered everything: then, in whatever pieces
  the socket hands the bytes to the reader, behind whatever events and earlier replies, the reader needs at most
  \<open>reader_work\<close> steps, and when there is nothing left for it to do the call's own reply is there: the call can
  return, only with the response made of the reply with its own number, and frees the lock. This supposes that nothing
  ends the reader first (\<open>calm\<close>: the bytes fit its buffer, none of the messages ends the session, and the
  application still has the event stream), and that the timeout of the call does not expire meanwhile.\<close>

theorem answered_command_returns:
  assumes "conn_reached su quiet s" "cn_call s c = Awaits ms" "length (cn_answers s) = length (cn_sent s)"
    and "event_channel items is_open capacity (env_send (su_env su)) recv"
    and "calm (env_pdec (su_env su)) (event_channel.fits items is_open capacity) s" "fed_steps su s n t"
  shows "n \<le> reader_work s
    \<and> ((\<exists>u. fed su t u)
       \<or> (\<exists>i < length (cn_sent s). fst (cn_sent s ! i) = c
            \<and> (\<forall>u. conn_step su t (Do (ReceiveReply c)) u
                 \<longleftrightarrow> u = release t c (Returned (Inr (into_response (cn_answers s ! i)))))))"
proof (cases "\<exists>u. fed su t u")
  case True
  with fed_steps_work [OF assms(6)] show ?thesis by simp
next
  case False
  note same = fed_steps_fields [OF assms(6)]
  from calm_fed_steps [OF assms(4,6,5)] stuck_reader [OF False]
  obtain r where "cn_reader t = ReadMore r" "cn_stream t = []"
    unfolding calm_def by blast
  from stuck_has_reply [OF fed_steps_reached [OF assms(6,1)] _ _ this, of c ms] same assms(2,3)
  obtain i where i: "i < length (cn_sent s)" "fst (cn_sent s ! i) = c"
    "\<forall>m. (c, m) \<in> set (w_replies (cn_world t)) \<longleftrightarrow> m = cn_answers s ! i"
    by auto
  from only_receive [OF _ i(3), of ms su] same assms(2)
  have "\<forall>u. conn_step su t (Do (ReceiveReply c)) u
      \<longleftrightarrow> u = release t c (Returned (Inr (into_response (cn_answers s ! i))))"
    by simp
  with i(1,2) fed_steps_work [OF assms(6)] show ?thesis by (metis add_leD1)
qed

text \<open>The reader does run out of work.\<close>

lemma fed_runs_out: "\<exists>n t. fed_steps su s n t \<and> \<not> (\<exists>u. fed su t u)"
proof -
  have "\<exists>n t. fed_steps su s n t \<and> \<not> (\<exists>u. fed su t u)" if "fed_steps su s n t" for n t
    using that
  proof (induction "reader_work t" arbitrary: n t rule: less_induct)
    case less
    then show ?case using fed_work [of su t] fed_steps.more [OF less.prems] by blast
  qed
  then show ?thesis using fed_steps.none by blast
qed

theorem answered_command_returns_witness:
  "\<exists>s n t ms m. conn_reached sample_party quiet s \<and> cn_call s 0 = Awaits ms \<and> cn_stream s = sample_accept
     \<and> fed_steps sample_party s n t \<and> n \<le> reader_work s
     \<and> conn_step sample_party t (Do (ReceiveReply 0)) (release t 0 (Returned (Inr (into_response m))))"
proof -
  let ?pdec = "env_pdec (su_env sample_party)" and ?r = "reader_start parser_new 0 (world_new sample_queue)"
  have "case next_frame percent_decode_ref sample_accept of Frame m R \<Rightarrow> R = [] \<and> is_reply m | _ \<Rightarrow> False"
    by code_simp
  then obtain m where m: "next_frame ?pdec sample_accept = Frame m []" "is_reply m"
    by (auto simp: sample_party_def sample_env_def split: frame.splits)
  have t: "to_wire_format (su_ord_ev sample_party) (su_ord_cb sample_party) (su_command sample_party 0)
      = Inr (''api status'' @ [NL, NL])"
    by (simp add: sample_party_def validate_no_newlines_def has_newline_def format_simple_command_def)
  have r: "represents ?pdec (rd_parser ?r) []" "w_status (rd_world ?r) = Connected"
    "pending_reply (w_shared (rd_world ?r)) = None" "w_replies (rd_world ?r) = []"
    "event_channel.fits lq_items lq_open lq_cap (w_queue (rd_world ?r))"
    by (simp_all add: reader_start_def world_new_def shared_new_def sample_queue_def
        event_channel.fits_def [OF list_chan.event_channel_axioms])
  from waiting_call [OF r(1) refl r(2-4) t m] obtain s ms where
    s: "conn_reached sample_party quiet s" "cn_call s 0 = Awaits ms" "length (cn_answers s) = length (cn_sent s)"
    "cn_stream s = sample_accept" "length (cn_sent s) = 1"
    "\<exists>x. cn_reader s = ReadMore x \<and> w_queue (rd_world x) = w_queue (rd_world ?r) \<and> represents ?pdec (rd_parser x) []"
    by fastforce
  then obtain x where x: "cn_reader s = ReadMore x" "w_queue (rd_world x) = w_queue (rd_world ?r)"
    "represents ?pdec (rd_parser x) []" by blast
  have "frames ?pdec ([] @ cn_stream s) = ([m], None, [])"
    using frames_Frame [OF m(1)] by (simp add: s(4) frames_Nil)
  moreover have "length (buffer (pbuffer (rd_parser x))) + length (cn_stream s) \<le> MAX_BUFFER_SIZE"
    using represents_length [OF x(3)] by (simp add: s(4) sample_accept_def MAX_BUFFER_SIZE_def)
  moreover have "\<not> ends_session m" using m(2) by (auto simp: ends_session_def is_reply_def)
  ultimately have calm: "calm ?pdec (event_channel.fits lq_items lq_open lq_cap) s"
    using x r(5) unfolding calm_def by (intro exI [of _ x] exI [of _ "[]"] exI [of _ "[m]"]) simp
  have ch: "event_channel lq_items lq_open lq_cap (env_send (su_env sample_party)) lq_recv"
    by (simp add: sample_party_def sample_env_def list_chan.event_channel_axioms)
  obtain n t where t: "fed_steps sample_party s n t" "\<not> (\<exists>u. fed sample_party t u)"
    using fed_runs_out by blast
  from answered_command_returns [OF s(1-3) ch calm t(1)] t(2) obtain i where "n \<le> reader_work s"
    "conn_step sample_party t (Do (ReceiveReply 0)) (release t 0 (Returned (Inr (into_response (cn_answers s ! i)))))"
    by blast
  with s(1,2,4) t(1) show ?thesis by blast
qed

end
