(* ===== verification/Esl_Server.thy ===== *)
theory Esl_Server
  imports Esl_Command
begin

text \<open>
  The reader of commands at the other end of the socket, FreeSWITCH, which is not part of the repository: what the
  protocol says of it is the locale \<open>esl_server\<close>. The text of every command of \<open>src/src/command.rs\<close> is
  given line by line, and read by such a server as that one command.
\<close>

section \<open>The server\<close>

text \<open>A line that announces the length of a body; header names do not depend on case.\<close>

definition length_line :: "string \<Rightarrow> bool" where
  "length_line l = starts_with ''content-length:'' (map ascii_lower l)"

text \<open>
  A command is a command line and header lines up to the blank line. Without a length line it has no body; with
  one length line it has as many bytes of body as that says. Nothing is assumed of several length lines.
\<close>

locale esl_server =
  fixes read_one :: "bytes \<Rightarrow> ((string list \<times> string) \<times> bytes) option"
  assumes read_none: "read_one [] = None"
    and read_lines: "ls \<noteq> [] \<Longrightarrow> \<forall>l \<in> set ls. clean_line l \<Longrightarrow> \<forall>l \<in> set (tl ls). \<not> length_line l \<Longrightarrow>
      read_one (block ls @ NL # rest) = Some ((ls, []), rest)"
    and read_body: "ls = c # hs @ [''Content-Length: '' @ nat_to_string (length body)] \<Longrightarrow>
      \<forall>l \<in> set ls. clean_line l \<Longrightarrow> \<forall>l \<in> set hs. \<not> length_line l \<Longrightarrow> length body < 2 ^ 64 \<Longrightarrow>
      read_one (block ls @ NL # body @ rest) = Some ((ls, body), rest)"

text \<open>The commands in the bytes that have arrived.\<close>

fun reads_as :: "(bytes \<Rightarrow> ((string list \<times> string) \<times> bytes) option) \<Rightarrow> bytes \<Rightarrow> (string list \<times> string) list \<Rightarrow> bool" where
  "reads_as read_one bs [] = (read_one bs = None)"
| "reads_as read_one bs (x # xs) =
     (case read_one bs of Some (y, rest) \<Rightarrow> y = x \<and> reads_as read_one rest xs | None \<Rightarrow> False)"

context esl_server
begin

lemma reads_texts:
  "list_all2 (\<lambda>t x. \<forall>rest. read_one (t @ rest) = Some (x, rest)) ts xs \<Longrightarrow> reads_as read_one (concat ts) xs"
  by (induction ts xs rule: list_all2_induct) (simp_all add: read_none)

end

text \<open>A server that takes the first length line.\<close>

definition first_length :: "string list \<Rightarrow> nat" where
  "first_length ls =
     (case filter length_line (tl ls) of
        [] \<Rightarrow> 0
      | l # _ \<Rightarrow> (case parse_usize (trim (drop 15 l)) of Inl _ \<Rightarrow> 0 | Inr n \<Rightarrow> n))"

definition ref_read :: "bytes \<Rightarrow> ((string list \<times> string) \<times> bytes) option" where
  "ref_read bs =
     (case find_sub [NL, NL] bs of
        None \<Rightarrow> None
      | Some i \<Rightarrow>
          (let ls = split_str [NL] (take i bs); n = first_length ls; rest = drop (i + 2) bs in
           if length rest < n then None else Some ((ls, take n rest), drop n rest)))"

lemma ref_read_block:
  assumes "ls \<noteq> []" "\<forall>l \<in> set ls. clean_line l" "first_length ls = length body"
  shows "ref_read (block ls @ NL # body @ rest) = Some ((ls, body), rest)"
proof -
  have ls: "\<forall>l \<in> set ls. wire_line l" "\<forall>l \<in> set ls. NL \<notin> set l"
    using assms(2) by (auto simp: clean_line_def has_newline_def wire_line_def)
  have "split_str [NL] (join [NL] ls) = ls"
    using assms(1) ls(2) by (rule split_str_join_char)
  then show ?thesis
    unfolding ref_read_def find_blank_block [OF assms(1) ls(1)] option.case take_block [OF assms(1)] drop_block [OF assms(1)]
    using assms(3) by (simp add: Let_def)
qed

lemma length_line_own: "length_line (''Content-Length: '' @ t)"
proof -
  have "map ascii_lower ''Content-Length: '' = ''content-length: ''" by code_simp
  then have "map ascii_lower (''Content-Length: '' @ t) = ''content-length:'' @ SP # map ascii_lower t"
    by (simp only: map_append) simp
  then show ?thesis
    by (simp only: length_line_def starts_with_def strip_prefix_append) simp
qed

interpretation ref_server: esl_server ref_read
proof
  show "ref_read [] = None" by (simp add: ref_read_def)
  show "ref_read (block ls @ NL # rest) = Some ((ls, []), rest)"
    if "ls \<noteq> []" "\<forall>l \<in> set ls. clean_line l" "\<forall>l \<in> set (tl ls). \<not> length_line l" for ls rest
  proof -
    have "first_length ls = length []" using that(3) by (simp add: first_length_def filter_empty_conv)
    from ref_read_block [OF that(1,2) this] show ?thesis by simp
  qed
  show "ref_read (block ls @ NL # body @ rest) = Some ((ls, body), rest)"
    if "ls = c # hs @ [''Content-Length: '' @ nat_to_string (length body)]" "\<forall>l \<in> set ls. clean_line l"
      "\<forall>l \<in> set hs. \<not> length_line l" "length body < 2 ^ 64" for ls c hs body rest
  proof -
    let ?l = "''Content-Length: '' @ nat_to_string (length body)"
    have "filter length_line hs = []" using that(3) by (simp add: filter_empty_conv)
    then have "filter length_line (tl ls) = [?l]"
      using length_line_own [of "nat_to_string (length body)"] by (simp add: that(1))
    moreover have "drop 15 ?l = SP # nat_to_string (length body)" by simp
    moreover have "trim (SP # nat_to_string (length body)) = nat_to_string (length body)"
      using trim_drop_SP [of "nat_to_string (length body)"] by simp
    ultimately have "first_length ls = length body"
      using that(4) by (simp add: first_length_def parse_usize_nat_to_string)
    with that(1,2) show ?thesis by (intro ref_read_block) simp_all
  qed
qed

section \<open>The lines of a command\<close>

text \<open>The words of the command line after the first.\<close>

fun command_args :: "EslCommand \<Rightarrow> string list" where
  "command_args (Auth p) = [p]"
| "command_args (UserAuth u p) = [u @ '':'' @ p]"
| "command_args (Api c) = [c]"
| "command_args (BgApi c) = [c]"
| "command_args (Events f e) = [f, e]"
| "command_args (Filter h v) = [h, v]"
| "command_args (SendMsg u ev) = opt_texts u"
| "command_args (Execute a args u) = opt_texts u"
| "command_args (LogLevel l) = [l]"
| "command_args (SendEvent ev) = [sendevent_name ev]"
| "command_args (MyEvents f u) = opt_texts u @ [f]"
| "command_args (Linger t) = (case t of Some n \<Rightarrow> [nat_to_string (unat n)] | None \<Rightarrow> [])"
| "command_args (NixEvent e) = [e]"
| "command_args (FilterDelete h v) = [''delete'', h] @ (if h = ''all'' then [] else opt_texts v)"
| "command_args (DivertEvents on) = [if on then ''on'' else ''off'']"
| "command_args (GetVar n) = [n]"
| "command_args _ = []"

text \<open>The event a command carries, if any.\<close>

fun command_event :: "EslCommand \<Rightarrow> EslEvent option" where
  "command_event (SendMsg _ ev) = Some ev"
| "command_event (SendEvent ev) = Some ev"
| "command_event (Execute app args _) =
     Some \<lparr>event_type = None,
           ev_headers = fmap_of_list ([(''call-command'', ''execute''), (''execute-app-name'', app)]
             @ (case args of Some a \<Rightarrow> [(''execute-app-arg'', a)] | None \<Rightarrow> [])),
           ev_body = None\<rparr>"
| "command_event _ = None"

definition command_body :: "EslCommand \<Rightarrow> string" where
  "command_body c = (case Option.bind (command_event c) ev_body of Some b \<Rightarrow> b | None \<Rightarrow> [])"

definition command_headers :: "header_order \<Rightarrow> EslCommand \<Rightarrow> string list" where
  "command_headers ord c =
     (case command_event c of
        Some ev \<Rightarrow> map (\<lambda>(k, v). k @ '': '' @ v) (ord (ev_headers ev))
      | None \<Rightarrow> [])"

definition command_lines :: "header_order \<Rightarrow> EslCommand \<Rightarrow> string list" where
  "command_lines ord c =
     join [SP] (command_word c # command_args c) # command_headers ord c
     @ (if Option.bind (command_event c) ev_body = None then []
        else [''Content-Length: '' @ nat_to_string (length (command_body c))])"

text \<open>A command is framed by its length when its event has no length header of its own.\<close>

definition length_ok :: "EslCommand \<Rightarrow> bool" where
  "length_ok c =
     (length (command_body c) < 2 ^ 64
      \<and> (case command_event c of
           Some ev \<Rightarrow> \<forall>(k, v) \<in> set (sorted_list_of_fmap (ev_headers ev)). \<not> length_line (k @ '': '' @ v)
         | None \<Rightarrow> True))"

lemma words_join: "words w args = join [SP] (w # args)"
  by (induction args arbitrary: w) (simp_all add: words_def join_Cons)

lemma execute_event_is:
  "execute_event app args =
     \<lparr>event_type = None,
      ev_headers = fmap_of_list ([(''call-command'', ''execute''), (''execute-app-name'', app)]
        @ (case args of Some a \<Rightarrow> [(''execute-app-arg'', a)] | None \<Rightarrow> [])),
      ev_body = None\<rparr>"
proof (rule EslEvent.equality)
  show "ev_headers (execute_event app args) = ev_headers
     \<lparr>event_type = None,
      ev_headers = fmap_of_list ([(''call-command'', ''execute''), (''execute-app-name'', app)]
        @ (case args of Some a \<Rightarrow> [(''execute-app-arg'', a)] | None \<Rightarrow> [])),
      ev_body = None\<rparr>"
    by (rule fmap_eqI) (cases args; auto simp: execute_event_lookup fmlookup_of_list)
qed (simp_all add: execute_event_def event_new_def set_header_def Let_def split: option.splits)

lemma to_wire_built:
  assumes "map_order ord_ev" "map_order ord_cb" "to_wire_format ord_ev ord_cb c = Inr s" "command_event c = Some ev"
  shows "one_command (command_word c) (built_lines ord_cb (words (command_word c) (command_args c)) ev)
      (case ev_body ev of Some b \<Rightarrow> b | None \<Rightarrow> []) s"
proof -
  have opt: "words w (opt_texts u) = w @ (case u of Some u \<Rightarrow> SP # u | None \<Rightarrow> [])" for w u
    by (simp add: words_def opt_texts_def split: option.splits)
  consider (msg) u where "c = SendMsg u ev" | (exec) app args u where "c = Execute app args u" "ev = execute_event app args"
    | (event) "c = SendEvent ev"
    using assms(4) by (cases c) (auto simp: execute_event_is)
  then show ?thesis
  proof cases
    case msg
    with assms(3) have "sendmsg_wire ord_ev ord_cb u ev = Inr s" by simp
    from sendmsg_one_command [OF assms(1,2) this] msg show ?thesis by (simp add: opt)
  next
    case exec
    with assms(3) have "sendmsg_wire ord_ev ord_cb u ev = Inr s" by (auto simp: res_bind_eq_Inr simp del: checked.simps)
    from sendmsg_one_command [OF assms(1,2) this] exec(1) show ?thesis by (simp add: opt)
  next
    case event
    with assms(3) have "build_event ord_ev ord_cb (''sendevent '' @ sendevent_name ev) ev = Inr s" by simp
    from sendevent_one_command [OF assms(1,2) this] event show ?thesis by (simp add: words_def)
  qed
qed

lemma to_wire_line:
  assumes "to_wire_format ord_ev ord_cb c = Inr s" "command_event c = None"
  shows "s = words (command_word c) (command_args c) @ [NL, NL]" "clean_line (words (command_word c) (command_args c))"
proof -
  have e: "\<not> event_command c" using assms(2) by (cases c) simp_all
  from to_wire_simple [OF e, of ord_ev ord_cb] obtain fs args where
    w: "to_wire_format ord_ev ord_cb c = checked fs (format_simple_command (command_word c) args)"
      "map fst fs = command_texts c"
      "(\<forall>t \<in> set (command_texts c). \<not> has_newline t) \<longrightarrow> (\<forall>a \<in> set args. \<not> has_newline a)"
    unfolding simple_wire_def by blast
  with assms(1) have s: "s = format_simple_command (command_word c) args" "\<forall>a \<in> set args. \<not> has_newline a"
    by (simp_all add: checked_Inr_iff fst_checks [OF w(2)])
  have "s = format_simple_command (command_word c) (command_args c)"
    using assms
    by (cases c) (auto simp: checked_Inr_iff opt_field_def opt_texts_def simp del: checked.simps split: option.splits if_splits)
  then show "s = words (command_word c) (command_args c) @ [NL, NL]"
    by (simp add: format_simple_command_def words_def)
  moreover have "s = words (command_word c) args @ [NL, NL]"
    using s(1) by (simp add: format_simple_command_def words_def)
  ultimately have "words (command_word c) (command_args c) = words (command_word c) args" by simp
  with words_clean [OF command_word_clean s(2), of c] show "clean_line (words (command_word c) (command_args c))"
    by simp
qed

lemma to_wire_lines:
  assumes "map_order ord_ev" "map_order ord_cb" "to_wire_format ord_ev ord_cb c = Inr s"
  shows "s = block (command_lines ord_cb c) @ NL # command_body c" "\<forall>l \<in> set (command_lines ord_cb c). clean_line l"
proof -
  have "s = block (command_lines ord_cb c) @ NL # command_body c \<and> (\<forall>l \<in> set (command_lines ord_cb c). clean_line l)"
  proof (cases "command_event c")
    case None
    with to_wire_line [OF assms(3)] show ?thesis
      by (simp add: command_lines_def command_headers_def command_body_def words_join)
  next
    case (Some ev)
    have "command_lines ord_cb c = built_lines ord_cb (words (command_word c) (command_args c)) ev"
      by (simp add: command_lines_def command_headers_def command_body_def built_lines_def words_join Some raw_line_def [abs_def]
          split_beta split: option.splits)
    with to_wire_built [OF assms Some] show ?thesis
      by (simp add: one_command_def command_body_def Some)
  qed
  then show "s = block (command_lines ord_cb c) @ NL # command_body c" "\<forall>l \<in> set (command_lines ord_cb c). clean_line l"
    by simp_all
qed

text \<open>A server reads the lines and the body of a command, whatever its command line.\<close>

lemma server_reads_after:
  assumes "esl_server read_one" "map_order ord" "length_ok c"
    and "clean_line l" "\<forall>x \<in> set (tl (command_lines ord c)). clean_line x"
  shows "read_one (block (l # tl (command_lines ord c)) @ NL # command_body c @ rest)
      = Some ((l # tl (command_lines ord c), command_body c), rest)"
proof -
  let ?h = "command_headers ord c" and ?ls = "l # tl (command_lines ord c)"
  have clean: "\<forall>x \<in> set ?ls. clean_line x" using assms(4,5) by simp
  have h: "\<forall>l \<in> set ?h. \<not> length_line l"
  proof (cases "command_event c")
    case (Some ev)
    have "\<not> length_line (k @ '': '' @ v)" if "(k, v) \<in> set (ord (ev_headers ev))" for k v
    proof -
      have "(k, v) \<in> set (sorted_list_of_fmap (ev_headers ev))"
        using that by (simp add: map_order.entries_iff [OF assms(2)] set_sorted_list_of_fmap)
      with assms(3) Some show ?thesis by (auto simp: length_ok_def)
    qed
    with Some show ?thesis by (auto simp: command_headers_def)
  qed (simp add: command_headers_def)
  show ?thesis
  proof (cases "Option.bind (command_event c) ev_body")
    case None
    with h have "\<forall>l \<in> set (tl ?ls). \<not> length_line l" "command_body c = []"
      by (simp_all add: command_lines_def command_body_def)
    with esl_server.read_lines [OF assms(1) _ clean] show ?thesis by simp
  next
    case (Some b)
    then have "?ls = l # ?h @ [''Content-Length: '' @ nat_to_string (length (command_body c))]"
      by (simp add: command_lines_def)
    from esl_server.read_body [OF assms(1) this clean h] assms(3) show ?thesis
      by (simp add: length_ok_def)
  qed
qed

lemma server_reads_one:
  assumes "esl_server read_one" "map_order ord_ev" "map_order ord_cb"
    and "to_wire_format ord_ev ord_cb c = Inr s" "length_ok c"
  shows "read_one (s @ rest) = Some ((command_lines ord_cb c, command_body c), rest)"
proof -
  note lines = to_wire_lines [OF assms(2-4)]
  obtain l where l: "command_lines ord_cb c = l # tl (command_lines ord_cb c)"
    by (simp add: command_lines_def)
  with lines(2) have "clean_line l" "\<forall>x \<in> set (tl (command_lines ord_cb c)). clean_line x"
    by (metis list.set_intros(1), metis list.set_intros(2))
  from server_reads_after [OF assms(1,3,5) this] show ?thesis
    by (simp add: lines(1) flip: l)
qed

text \<open>C5. No command injection. Whatever texts a caller passes, an accepted command is exactly these lines,
  none of them empty and none with a line feed or carriage return in it: the word of the command and its
  arguments separated by spaces; for the commands that carry an event, one line \<open>name: value\<close> for each of its headers
  in the order of the map; and, if the event has a body, its length. The first blank line of the text ends them,
  and what follows is the event's body. A server therefore reads it, whatever follows, as this one command with
  this body, provided that the event has no header of its own that is read as a length (\<open>length_ok\<close>;
  \<open>sendevent_stale_length\<close> is about the events that do).\<close>

theorem wire_single_command:
  assumes "esl_server read_one" "map_order ord_ev" "map_order ord_cb" "to_wire_format ord_ev ord_cb c = Inr s"
  shows "s = join [NL] (command_lines ord_cb c) @ [NL, NL] @ command_body c
       \<and> (\<forall>l \<in> set (command_lines ord_cb c). l \<noteq> [] \<and> NL \<notin> set l \<and> CR \<notin> set l)
       \<and> find_sub [NL, NL] s = Some (length (join [NL] (command_lines ord_cb c)))
       \<and> (length_ok c \<longrightarrow> read_one (s @ rest) = Some ((command_lines ord_cb c, command_body c), rest))"
proof (intro conjI impI)
  note lines = to_wire_lines [OF assms(2-4)]
  have ne: "command_lines ord_cb c \<noteq> []" by (simp add: command_lines_def)
  then show "s = join [NL] (command_lines ord_cb c) @ [NL, NL] @ command_body c"
    by (simp add: lines(1) block_join)
  show "\<forall>l \<in> set (command_lines ord_cb c). l \<noteq> [] \<and> NL \<notin> set l \<and> CR \<notin> set l"
    using lines(2) by (auto simp: clean_line_def has_newline_def)
  have "\<forall>l \<in> set (command_lines ord_cb c). wire_line l"
    using lines(2) by (auto simp: clean_line_def has_newline_def wire_line_def)
  with find_blank_block [OF ne] show "find_sub [NL, NL] s = Some (length (join [NL] (command_lines ord_cb c)))"
    by (simp add: lines(1))
  show "read_one (s @ rest) = Some ((command_lines ord_cb c, command_body c), rest)" if "length_ok c"
    using assms that by (rule server_reads_one)
qed

definition sample_send :: EslCommand where
  "sample_send = SendMsg (Some ''a-1'')
     \<lparr>event_type = None, ev_headers = fmap_of_list [(''call-command'', ''execute'')], ev_body = Some ''exit''\<rparr>"

theorem wire_single_command_witness:
  "\<exists>s. to_wire_format sorted_list_of_fmap sorted_list_of_fmap sample_send = Inr s
     \<and> ref_read (s @ ''noop'')
         = Some (([''sendmsg a-1'', ''call-command: execute'', ''Content-Length: 4''], ''exit''), ''noop'')"
proof -
  have "list_all (\<lambda>t. \<not> has_newline t) (command_texts sample_send)" by code_simp
  then obtain s where s: "to_wire_format sorted_list_of_fmap sorted_list_of_fmap sample_send = Inr s"
    using to_wire_cases [OF sorted_order.map_order_axioms, of sample_send sorted_list_of_fmap]
    by (auto simp: list_all_iff)
  have lines: "command_lines sorted_list_of_fmap sample_send = [''sendmsg a-1'', ''call-command: execute'', ''Content-Length: 4'']"
    and body: "command_body sample_send = ''exit''"
    by code_simp+
  obtain ev where ev: "command_event sample_send = Some ev" "ev = the (command_event sample_send)"
    by (simp add: sample_send_def)
  have "list_all (\<lambda>(k, v). \<not> length_line (k @ '': '' @ v)) (sorted_list_of_fmap (ev_headers ev))"
    unfolding ev(2) by code_simp
  then have "length_ok sample_send"
    unfolding length_ok_def body ev(1) option.case list_all_iff by (intro conjI) simp
  with wire_single_command [OF ref_server.esl_server_axioms sorted_order.map_order_axioms sorted_order.map_order_axioms s]
  have "ref_read (s @ ''noop'') = Some ((command_lines sorted_list_of_fmap sample_send, command_body sample_send), ''noop'')"
    by blast
  with s show ?thesis
    unfolding lines body by blast
qed

end
