(* ===== verification/Esl_Wire.thy ===== *)
theory Esl_Wire
  imports Esl_Own_Reply Esl_Server
begin

text \<open>
  The bytes all the calls of \<open>send_command\<close> together write to the socket, as a server (\<open>esl_server\<close>) reads them:
  whole commands one after the other, as long as every write is whole, and what a torn write does
  to the command after it.
\<close>

section \<open>The wire of a connection\<close>











section \<open>A torn write\<close>










end
