(* ===== verification/Esl_Overflow.thy ===== *)
theory Esl_Overflow
  imports Esl_Connection
begin

text \<open>
  The reader of \<open>src/src/connection.rs\<close> on a stream of any length, the limit of the receive buffer
  (\<open>EslParser::add_data\<close>, \<open>check_size_limits\<close>) included: which read overflows the buffer, what
  has been handled by then, and when this can happen.
\<close>

section \<open>What the buffer holds\<close>

text \<open>Between two reads the buffer holds the bytes of the incomplete message, or only those of its body once
  the header block is complete: the header has been taken out.\<close>

definition held :: "bytes \<Rightarrow> nat" where
  "held bs =
     (case find_sub HEADER_TERMINATOR bs of None \<Rightarrow> length bs | Some i \<Rightarrow> length bs - (i + 2))"

lemma parse_body_waits: "parse_body p mt h n = (Inr None, p') \<Longrightarrow> p' = p"
  by (auto simp: parse_body_def extract_bytes_def Let_def split: if_splits prod.splits option.splits)

lemma parse_message_waits:
  assumes "represents pdec p bs" "parse_message pdec p = (Inr None, p')"
  shows "pstate p' = WaitingForHeaders \<longrightarrow> find_sub HEADER_TERMINATOR bs = None"
proof (cases "pstate p")
  case (WaitingForBody mt h n)
  with assms(2) show ?thesis by (auto simp: parse_message_def dest!: parse_body_waits)
next
  case WaitingForHeaders
  from assms(1) have wf: "wf_buffer (pbuffer p)" by (simp add: represents_def)
  show ?thesis
  proof (cases "find_sub [NL, NL] bs")
    case None
    then show ?thesis by simp
  next
    case (Some i)
    then obtain d b where "extract_until_pattern (pbuffer p) [NL, NL] = (Some d, b)"
      using wf represents_headers[OF assms(1) WaitingForHeaders] buf.until_hit[of "pbuffer p" "[NL, NL]" i] by auto
    from parse_message_head[OF WaitingForHeaders, unfolded HEADER_TERMINATOR_def, OF this] assms(2)
    show ?thesis by (auto simp: Let_def dest!: parse_body_waits split: sum.splits prod.splits if_splits)
  qed
qed

lemma reader_drain_waits:
  assumes "represents (env_pdec env) (rd_parser r) bs" "reader_drain env r = ReadMore r'"
  shows "length (buffer (pbuffer (rd_parser r'))) = held (left_over (env_pdec env) bs)"
proof -
  have "\<exists>p bs. represents (env_pdec env) p bs \<and> parse_message (env_pdec env) p = (Inr None, rd_parser r')"
    using assms
  proof (induction env r arbitrary: bs rule: reader_drain.induct)
    case (1 env r)
    obtain out p where pm: "parse_message (env_pdec env) (rd_parser r) = (out, p)"
      by (cases "parse_message (env_pdec env) (rd_parser r)")
    note sim = parse_message_simulates[OF "1.prems"(1), unfolded pm]
    show ?case
    proof (cases "reader_parse env r")
      case (Continue r1)
      moreover obtain m R where "next_frame (env_pdec env) bs = Frame m R" "represents (env_pdec env) p R"
        "rd_parser r1 = p"
        using Continue pm sim
        by (auto simp: reader_parse_def simulates_def Let_def split: sum.splits option.splits loop_ctl.splits frame.splits)
      ultimately show ?thesis
        using "1.IH"[OF Continue] "1.prems"(2) by (auto simp: reader_drain.simps[of env r])
    next
      case (ReadMore r1)
      then have "out = Inr None" "rd_parser r1 = p" "r' = r1"
        using pm "1.prems"(2) handle_message_no_read[of env]
        by (auto simp: reader_parse_def reader_drain.simps[of env r] Let_def
            split: sum.splits option.splits loop_ctl.splits)
      with pm "1.prems"(1) show ?thesis by blast
    qed (use "1.prems"(2) in \<open>simp add: reader_drain.simps[of env r]\<close>)
  qed
  then obtain p cs where p: "represents (env_pdec env) p cs" "parse_message (env_pdec env) p = (Inr None, rd_parser r')"
    by blast
  have "represents (env_pdec env) (rd_parser r') (left_over (env_pdec env) bs)"
    using reader_drain_frames[OF assms(1)] assms(2) by blast
  moreover have "represents (env_pdec env) (rd_parser r') cs"
    using parse_message_simulates[OF p(1)] p(2) by (auto simp: simulates_def split: frame.splits)
  ultimately show ?thesis
    using parse_message_waits[OF p]
    by (auto simp: represents_def held_def buf_data_def split: ParseState.splits)
qed

section \<open>The first read that overflows\<close>

text \<open>The data read after \<open>bs\<close> up to the read that overflows the buffer, and the size it would have.\<close>

fun overflow :: "(string \<Rightarrow> bytes) \<Rightarrow> bytes \<Rightarrow> bytes list \<Rightarrow> (bytes \<times> nat) option" where
  "overflow pdec bs [] = None"
| "overflow pdec bs (c # cs) =
     (let n = held (left_over pdec bs) + length c in
      if n > MAX_BUFFER_SIZE then Some ([], n)
      else map_option (\<lambda>(d, m). (c @ d, m)) (overflow pdec (bs @ c) cs))"

definition reader_outcome :: "('q, 'v) reader_env \<Rightarrow> 'q world \<Rightarrow> bytes \<Rightarrow> bytes list \<Rightarrow> 'q world loop_ctl" where
  "reader_outcome env w bs cs =
     (case overflow (env_pdec env) bs cs of
        None \<Rightarrow> stream_outcome env w (frames (env_pdec env) (bs @ concat cs))
      | Some (d, n) \<Rightarrow>
          (case stream_outcome env w (frames (env_pdec env) (bs @ d)) of
             ReadMore w' \<Rightarrow> Return (world_fail w' (BufferOverflow n MAX_BUFFER_SIZE))
           | x \<Rightarrow> x))"

lemma overflow_left_over: "overflow pdec (left_over pdec bs @ x) cs = overflow pdec (bs @ x) cs"
  by (induction cs arbitrary: x) (simp_all add: left_over_append Let_def)

text \<open>Messages that have been handled can be cut off.\<close>

lemma reader_outcome_handled:
  assumes "frames (env_pdec env) bs = (ms, e, rest)"
  shows "reader_outcome env w (bs @ d) cs =
     (case handle_all env w ms of
        Continue w' \<Rightarrow>
          (case e of Some x \<Rightarrow> Return (world_fail w' x) | None \<Rightarrow> reader_outcome env w' (rest @ d) cs)
      | x \<Rightarrow> x)"
proof -
  have "overflow (env_pdec env) (rest @ d) cs = overflow (env_pdec env) (bs @ d) cs"
    using overflow_left_over[of "env_pdec env" bs d cs] assms by simp
  then show ?thesis
    unfolding reader_outcome_def
    by (auto simp: stream_outcome_append[OF assms] handle_all_no_read split: option.splits loop_ctl.splits)
qed

lemma reader_read_overflow:
  assumes "d \<noteq> []" "represents pdec (rd_parser r) bs" "length (buffer (pbuffer (rd_parser r))) = k"
  shows "\<exists>r'. reader_read now (ReadData d) r =
              (if k + length d > MAX_BUFFER_SIZE then Return r' else Continue r')
     \<and> rd_world r' = (if k + length d > MAX_BUFFER_SIZE
                       then world_fail (rd_world r) (BufferOverflow (k + length d) MAX_BUFFER_SIZE) else rd_world r)
     \<and> represents pdec (rd_parser r') (bs @ d)"
proof -
  have "fst (add_data (rd_parser r) d)
      = (if k + length d > MAX_BUFFER_SIZE then Inl (BufferOverflow (k + length d) MAX_BUFFER_SIZE) else Inr ())"
    using assms(3) by (simp add: add_data_def check_size_limits_def extend_from_slice_def Let_def)
  with represents_add_data[OF assms(2), of d] assms(1) show ?thesis
    by (cases "add_data (rd_parser r) d") (simp add: reader_read_def set_status_def world_fail_def)
qed

lemma reader_loop_outcome:
  assumes "represents (env_pdec env) (rd_parser r) bs" "\<forall>tc \<in> set tcs. snd tc \<noteq> []"
  shows "observed (reader_loop_inner env r (map data_input tcs)) = reader_outcome env (rd_world r) bs (map snd tcs)"
  using assms
proof (induction tcs arbitrary: r bs)
  case Nil
  with reader_drain_frames[OF Nil.prems(1)] show ?case by (simp add: reader_outcome_def)
next
  case (Cons tc tcs)
  obtain ms e rest where fr: "frames (env_pdec env) bs = (ms, e, rest)"
    by (cases "frames (env_pdec env) bs")
  note dr = reader_drain_frames[OF Cons.prems(1), unfolded fr]
  note cut = reader_outcome_handled[OF fr, of _ "[]", simplified]
  show ?case
  proof (cases "observed (reader_drain env r)")
    case (Continue w')
    with dr show ?thesis
      by (auto simp: stream_outcome_def handle_all_no_read split: loop_ctl.splits option.splits)
  next
    case (Return w')
    then obtain r1 where "reader_drain env r = Return r1" "rd_world r1 = w'"
      using observed_cases(2) by blast
    with Return dr show ?thesis
      by (auto simp: cut stream_outcome_def split: loop_ctl.splits option.splits)
  next
    case (ReadMore w')
    then obtain r1 where r1: "reader_drain env r = ReadMore r1" "rd_world r1 = w'"
      using observed_cases(1) by blast
    have h: "handle_all env (rd_world r) ms = Continue w'" "e = None"
      using ReadMore dr by (auto simp: stream_outcome_def handle_all_no_read split: loop_ctl.splits option.splits)
    have rep: "represents (env_pdec env) (rd_parser r1) rest" using dr r1 by simp
    let ?n = "held rest + length (snd tc)"
    have "length (buffer (pbuffer (rd_parser r1))) = held rest"
      using reader_drain_waits[OF Cons.prems(1) r1(1)] fr by simp
    from reader_read_overflow[OF _ rep this, of "snd tc" "fst tc"] Cons.prems(2) obtain r2 where
      r2: "reader_read (fst tc) (ReadData (snd tc)) r1
             = (if ?n > MAX_BUFFER_SIZE then Return r2 else Continue r2)"
        "rd_world r2 = (if ?n > MAX_BUFFER_SIZE then world_fail w' (BufferOverflow ?n MAX_BUFFER_SIZE) else w')"
        "represents (env_pdec env) (rd_parser r2) (rest @ snd tc)"
      using r1(2) by auto
    have "r1\<lparr>rd_world := w'\<rparr> = r1" using r1(2) by auto
    with r2(1) have read: "reader_read (fst tc) (ReadData (snd tc)) (r1\<lparr>rd_world := w'\<rparr>)
        = (if ?n > MAX_BUFFER_SIZE then Return r2 else Continue r2)" by simp
    have rest: "left_over (env_pdec env) rest = rest" "frames (env_pdec env) rest = ([], None, rest)"
      using fr frames_blocked[of "env_pdec env" bs ms rest] h(2) by simp_all
    have "reader_outcome env (rd_world r) bs (map snd (tc # tcs)) = reader_outcome env w' rest (map snd (tc # tcs))"
      using h by (simp add: cut)
    also have "\<dots> = (if ?n > MAX_BUFFER_SIZE then Return (world_fail w' (BufferOverflow ?n MAX_BUFFER_SIZE))
        else reader_outcome env w' (rest @ snd tc) (map snd tcs))"
      using rest by (auto simp: reader_outcome_def stream_outcome_def split: option.splits)
    finally show ?thesis
      using Cons.IH[OF r2(3)] Cons.prems(2) r1 r2(2) read by (simp split: if_splits)
  qed
qed

section \<open>When it overflows\<close>

text \<open>The bytes of a body whose header is complete are fewer than a maximal message.\<close>

lemma held_body:
  assumes "frames pdec bs = (ms, None, rest)" "find_sub HEADER_TERMINATOR rest \<noteq> None"
  shows "held rest < MAX_MESSAGE_SIZE"
proof -
  have "next_frame pdec rest = NeedMore"
    using frames_blocked[OF assms(1)]
    by (auto simp: frames.simps[of pdec rest] split: frame.splits prod.splits)
  with assms(2) obtain i mt h n where "find_sub HEADER_TERMINATOR rest = Some i"
    "envelope pdec (take i rest) = Inr (mt, h, n)" "length (drop (i + 2) rest) < n"
    by (auto simp: next_frame_def frame_body_def split: option.splits sum.splits if_splits)
  with envelope_too_large show ?thesis
    by (fastforce simp: held_def)
qed

lemma overflow_size:
  "overflow pdec bs cs = Some (d, n) \<Longrightarrow>
     MAX_BUFFER_SIZE < n \<and> (\<exists>c \<in> set cs. n = held (left_over pdec (bs @ d)) + length c)"
proof (induction cs arbitrary: bs d)
  case (Cons c cs)
  show ?case
  proof (cases "held (left_over pdec bs) + length c > MAX_BUFFER_SIZE")
    case False
    with Cons.prems obtain d' where "overflow pdec (bs @ c) cs = Some (d', n)" "d = c @ d'"
      by (auto simp: Let_def)
    with Cons.IH[of "bs @ c" d'] show ?thesis by auto
  qed (use Cons.prems in auto)
qed simp

lemma overflow_header:
  assumes "\<forall>c \<in> set cs. length c \<le> SOCKET_BUF_SIZE" "overflow pdec bs cs = Some (d, n)"
    and "frames pdec (bs @ d) = (ms, None, rest)"
  shows "find_sub HEADER_TERMINATOR rest = None \<and> MAX_BUFFER_SIZE < length rest + SOCKET_BUF_SIZE"
proof -
  obtain c where "c \<in> set cs" "n = held rest + length c" "MAX_BUFFER_SIZE < n"
    using overflow_size[OF assms(2)] unfolding assms(3) by auto
  with assms(1) have c: "MAX_BUFFER_SIZE < held rest + length c" "length c \<le> SOCKET_BUF_SIZE"
    by auto
  have none: "find_sub HEADER_TERMINATOR rest = None"
  proof (rule ccontr)
    assume "find_sub HEADER_TERMINATOR rest \<noteq> None"
    from held_body[OF assms(3) this] c show False
      by (simp add: MAX_MESSAGE_SIZE_def MAX_BUFFER_SIZE_def SOCKET_BUF_SIZE_def)
  qed
  with c show ?thesis by (simp add: held_def)
qed

text \<open>C4. What the reader does is a function of the byte stream and of where the buffer overflows. For a reader
  on a fresh parser and any sequence of non-empty reads: as long as what the buffer holds and the next read
  fit in it, the events queued, the replies delivered, the shared state and the status are those of
  handling the messages of the whole stream one after the other, wherever it was cut; the first read
  that does not fit ends the session with the error that names the size and the limit, after everything
  before it has been handled. With reads of the socket buffer's size this happens only when the server sends
  almost \<open>MAX_BUFFER_SIZE\<close> bytes of a header block without its end: no sequence of messages
  within the limits overflows the buffer.\<close>

theorem reader_overflow_exact:
  assumes "\<forall>tc \<in> set tcs. snd tc \<noteq> [] \<and> length (snd tc) \<le> SOCKET_BUF_SIZE"
  shows "observed (reader_loop_inner env (reader_start parser_new now w) (map data_input tcs))
           = reader_outcome env w [] (map snd tcs)
     \<and> (\<forall>d n ms rest. overflow (env_pdec env) [] (map snd tcs) = Some (d, n)
           \<and> frames (env_pdec env) d = (ms, None, rest)
         \<longrightarrow> find_sub HEADER_TERMINATOR rest = None \<and> MAX_BUFFER_SIZE < length rest + SOCKET_BUF_SIZE)"
proof
  show "observed (reader_loop_inner env (reader_start parser_new now w) (map data_input tcs))
      = reader_outcome env w [] (map snd tcs)"
    using reader_loop_outcome[of env "reader_start parser_new now w" "[]" tcs] assms
    by (simp add: reader_start_def)
  show "\<forall>d n ms rest. overflow (env_pdec env) [] (map snd tcs) = Some (d, n)
           \<and> frames (env_pdec env) d = (ms, None, rest)
         \<longrightarrow> find_sub HEADER_TERMINATOR rest = None \<and> MAX_BUFFER_SIZE < length rest + SOCKET_BUF_SIZE"
    using overflow_header[of "map snd tcs" "env_pdec env" "[]"] assms by auto
qed

text \<open>A header that never ends.\<close>

lemma endless_header:
  assumes "NL \<notin> set bs"
  shows "frames pdec bs = ([], None, bs)" "held bs = length bs"
proof -
  have f: "find_sub [NL, NL] bs = None"
  proof (rule ccontr)
    assume "find_sub [NL, NL] bs \<noteq> None"
    then obtain i where "find_sub [NL, NL] bs = Some i" by blast
    from find_sub_sound[OF this] have "NL \<in> set bs"
      by (metis Un_iff list.set_intros(1) set_append)
    with assms show False by simp
  qed
  then show "frames pdec bs = ([], None, bs)"
    by (simp add: frames.simps[of pdec bs] next_frame_def)
  show "held bs = length bs" using f by (simp add: held_def)
qed

lemma endless_overflow:
  assumes "NL \<notin> set (bs @ concat cs)" "MAX_BUFFER_SIZE < length bs + length (concat cs)" "length bs \<le> MAX_BUFFER_SIZE"
  shows "\<exists>d n. overflow pdec bs cs = Some (d, n) \<and> NL \<notin> set (bs @ d)"
  using assms
proof (induction cs arbitrary: bs)
  case (Cons c cs)
  show ?case
  proof (cases "length bs + length c > MAX_BUFFER_SIZE")
    case False
    with Cons.IH[of "bs @ c"] Cons.prems obtain d n where "overflow pdec (bs @ c) cs = Some (d, n)"
      "NL \<notin> set (bs @ c @ d)" by (auto simp: add.assoc)
    with False Cons.prems(1) endless_header[of bs] show ?thesis by auto
  qed (use Cons.prems(1) endless_header[of bs] in \<open>auto simp: Let_def\<close>)
qed simp

theorem reader_overflow_exact_witness:
  "\<exists>n. observed (reader_loop_inner sample_env (reader_start parser_new 0 (world_new sample_queue))
          (map data_input (replicate 257 (1, replicate 65536 CHR ''a''))))
        = Return (world_fail (world_new sample_queue) (BufferOverflow n MAX_BUFFER_SIZE))"
proof -
  let ?tcs = "replicate 257 (1 :: nat, replicate 65536 CHR ''a'')"
  have chars: "NL \<notin> set ([] @ concat (map snd ?tcs))"
    unfolding map_replicate by simp
  have "length (concat (map snd ?tcs)) = 257 * 65536"
    unfolding map_replicate snd_conv length_concat sum_list_replicate length_replicate by simp
  then obtain d n where d: "overflow (env_pdec sample_env) [] (map snd ?tcs) = Some (d, n)" "NL \<notin> set d"
    using endless_overflow[OF chars, of "env_pdec sample_env"] by (auto simp: MAX_BUFFER_SIZE_def)
  have "observed (reader_loop_inner sample_env (reader_start parser_new 0 (world_new sample_queue)) (map data_input ?tcs))
      = reader_outcome sample_env (world_new sample_queue) [] (map snd ?tcs)"
    using reader_overflow_exact[of ?tcs sample_env 0 "world_new sample_queue"] by (simp add: SOCKET_BUF_SIZE_def)
  also have "\<dots> = Return (world_fail (world_new sample_queue) (BufferOverflow n MAX_BUFFER_SIZE))"
    using d(1) endless_header(1)[OF d(2), of "env_pdec sample_env"] by (simp add: reader_outcome_def stream_outcome_def)
  finally show ?thesis by blast
qed

end
