(* ===== verification/Esl_Handles.thy ===== *)
theory Esl_Handles
  imports Esl_Connection
begin

text \<open>
  The rest of \<open>src/src/connection.rs\<close>: the task around the reader loop, which turns a panic into a
  status, and what the two halves of a connection, the client handle and the event stream, tell of it.
\<close>

section \<open>The reader task\<close>

datatype ConnectionMode = InboundMode | OutboundMode

text \<open>A task that polls a future ends with its result or with a panic, caught by \<open>catch_unwind\<close>; the
  world is the one at that moment.\<close>

datatype 'q task_end = TaskDone "'q world" | TaskPanic "'q world"

definition reader_loop :: "'q task_end \<Rightarrow> 'q world" where
  "reader_loop result =
     (case result of
        TaskDone w \<Rightarrow> w
      | TaskPanic w \<Rightarrow> w\<lparr>w_status := Disconnected (IoError ''reader task panicked'')\<rparr>)"

text \<open>A panic of the reader is visible as a lost connection, whatever the status was.\<close>

lemma reader_panic_visible: "w_status (reader_loop (TaskPanic w)) \<noteq> Connected"
  by (simp add: reader_loop_def)

section \<open>The handles\<close>

record 'q event_stream =
  es_rx :: 'q
  es_status :: ConnectionStatus

definition stream_is_connected :: "'q event_stream \<Rightarrow> bool" where
  "stream_is_connected es = (es_status es = Connected)"

definition stream_status :: "'q event_stream \<Rightarrow> ConnectionStatus" where
  "stream_status es = es_status es"

text \<open>\<open>Stream::poll_next\<close> is the \<open>poll_recv\<close> of the channel: \<open>None\<close> is pending.\<close>

definition poll_next :: "('q \<Rightarrow> event_item option option \<times> 'q) \<Rightarrow> 'q event_stream
    \<Rightarrow> event_item option option \<times> 'q event_stream" where
  "poll_next poll_recv es = (case poll_recv (es_rx es) of (x, q) \<Rightarrow> (x, es\<lparr>es_rx := q\<rparr>))"

definition bool_debug :: "bool \<Rightarrow> string" where
  "bool_debug b = (if b then ''true'' else ''false'')"

definition client_debug :: "client_ctx \<Rightarrow> string" where
  "client_debug cx = ''EslClient { connected: '' @ bool_debug (is_connected cx) @ '' }''"

definition stream_debug :: "'q event_stream \<Rightarrow> string" where
  "stream_debug es = ''EslEventStream { connected: '' @ bool_debug (stream_is_connected es) @ '' }''"

text \<open>The stream half of a connection whose reader has the world \<open>w\<close>; both halves agree on the
  connection.\<close>

definition stream_of :: "'q world \<Rightarrow> 'q event_stream" where
  "stream_of w = \<lparr>es_rx = w_queue w, es_status = w_status w\<rparr>"

lemma halves_agree:
  "cx_status cx = w_status w \<Longrightarrow> is_connected cx = stream_is_connected (stream_of w)"
  by (simp add: is_connected_def stream_is_connected_def stream_of_def split: ConnectionStatus.splits)

end
