(* ===== verification/Esl_Utf8.thy ===== *)
theory Esl_Utf8
  imports Esl_Event_Formats
begin

text \<open>
  The type invariant of the text in messages and events: what the parser stores in a \<open>String\<close> is
  well-formed UTF-8. The model uses byte lists for both \<open>String\<close> and \<open>[u8]\<close>; this theory shows
  that the code never puts other bytes into a \<open>String\<close>, for all the ways it cuts text
  (at the blank line, at line ends, at the colon, by trimming, by percent-decoding).
\<close>

section \<open>Cutting well-formed text\<close>

definition boundary :: "string \<Rightarrow> bool" where
  "boundary s = (s = [] \<or> \<not> utf8_cont (hd s))"

lemma ascii_not_cont: "is_ascii c \<Longrightarrow> \<not> utf8_cont c"
  by (auto simp: is_ascii_def utf8_cont_def)

lemma lead_cont: "utf8_lead3 a b \<Longrightarrow> utf8_cont b" "utf8_lead4 a b \<Longrightarrow> utf8_cont b"
  by (auto simp: utf8_lead3_def utf8_lead4_def Let_def)

lemma utf8_width_prefix:
  assumes "a \<noteq> []" "boundary b" "utf8_width (a @ b) \<noteq> 0"
  shows "utf8_width a = utf8_width (a @ b)"
proof -
  obtain w ws where a: "a = w # ws"
    using assms(1) by (cases a) auto
  show ?thesis
  proof (cases b)
    case Nil
    then show ?thesis by simp
  next
    case (Cons x xs)
    then have "\<not> utf8_cont x" using assms(2) by (simp add: boundary_def)
    with a Cons assms(3) show ?thesis
      by (cases ws; cases "tl ws"; cases "tl (tl ws)"; cases xs; cases "tl xs")
        (auto dest: lead_cont split: if_splits)
  qed
qed

lemma utf8_valid_cut:
  assumes "utf8_valid (a @ b)" "boundary b"
  shows "utf8_valid a \<and> utf8_valid b"
  using assms
proof (induction "length a" arbitrary: a rule: less_induct)
  case less
  show ?case
  proof (cases "a = []")
    case True
    with less.prems show ?thesis by simp
  next
    case False
    let ?w = "utf8_width (a @ b)"
    have w: "?w \<noteq> 0" "utf8_valid (drop ?w (a @ b))"
      using less.prems(1) False by (auto simp: utf8_valid.simps[of "a @ b"] split: if_splits)
    have wa: "utf8_width a = ?w"
      using utf8_width_prefix[OF False less.prems(2) w(1)] .
    then have "?w \<le> length a"
      using utf8_width_le[of a] by simp
    then have "utf8_valid (drop ?w a) \<and> utf8_valid b"
      using less.hyps[of "drop ?w a"] w less.prems(2) False by simp
    then show ?thesis
      using wa w(1) False by (simp add: utf8_valid.simps[of a])
  qed
qed

lemma utf8_valid_at_ascii:
  assumes "utf8_valid (a @ c # b)" "is_ascii c"
  shows "utf8_valid a \<and> utf8_valid b"
  using utf8_valid_cut[of a "c # b"] assms ascii_not_cont by (simp add: boundary_def)

section \<open>Trimming\<close>

lemma ws_ascii: "ascii_ws c \<Longrightarrow> is_ascii c"
  by (auto simp: ascii_ws_def is_ascii_def)

lemma utf8_valid_ws:
  "ascii_ws x \<Longrightarrow> utf8_valid (x # r) = utf8_valid r"
  "ws2 x y \<Longrightarrow> utf8_valid (x # y # r) = utf8_valid r"
  "ws3 x y z \<Longrightarrow> utf8_valid (x # y # z # r) = utf8_valid r"
proof -
  show "ascii_ws x \<Longrightarrow> utf8_valid (x # r) = utf8_valid r"
    by (simp add: ws_ascii)
  have "utf8_valid [x, y]" if "ws2 x y"
    using that by (auto simp: utf8_valid.simps[of "[x, y]"] ws2_def is_ascii_def utf8_lead2_def utf8_cont_def)
  then show "ws2 x y \<Longrightarrow> utf8_valid (x # y # r) = utf8_valid r"
    using utf8_valid_append[of "[x, y]" r] by simp
  have "utf8_valid [x, y, z]" if "ws3 x y z"
    using that by (auto simp: utf8_valid.simps[of "[x, y, z]"] ws3_def is_ascii_def utf8_lead2_def
        utf8_lead3_def utf8_cont_def Let_def)
  then show "ws3 x y z \<Longrightarrow> utf8_valid (x # y # z # r) = utf8_valid r"
    using utf8_valid_append[of "[x, y, z]" r] by simp
qed

lemma ws_head_utf8: "utf8_valid s \<Longrightarrow> utf8_valid (drop (ws_head s) s)"
  by (cases s rule: ws_head.cases) (auto simp: utf8_valid_ws)

lemma utf8_strip_head: "utf8_valid s \<Longrightarrow> utf8_valid (strip_ws ws_head s)"
proof (induction ws_head s rule: strip_ws.induct)
  case (1 s)
  show ?case
  proof (cases "ws_head s = 0 \<or> s = []")
    case True
    with 1 show ?thesis by (simp add: strip_ws.simps[of ws_head s])
  next
    case False
    with 1 ws_head_utf8[of s] show ?thesis by (simp add: strip_ws.simps[of ws_head s])
  qed
qed

text \<open>Backwards, on the reversed text: what is dropped starts a character.\<close>

lemma ws_tail_boundary: "boundary (rev (take (ws_tail s) s))"
  by (cases s rule: ws_tail.cases)
    (auto simp: boundary_def ws2_def ws3_def ascii_ws_def utf8_cont_def)

lemma ws_tail_utf8: "utf8_valid (rev s) \<Longrightarrow> utf8_valid (rev (drop (ws_tail s) s))"
  using utf8_valid_cut[OF _ ws_tail_boundary, of "rev (drop (ws_tail s) s)" s]
  by (simp flip: rev_append)

lemma utf8_strip_tail: "utf8_valid (rev s) \<Longrightarrow> utf8_valid (rev (strip_ws ws_tail s))"
proof (induction ws_tail s rule: strip_ws.induct)
  case (1 s)
  show ?case
  proof (cases "ws_tail s = 0 \<or> s = []")
    case True
    with 1 show ?thesis by (simp add: strip_ws.simps[of ws_tail s])
  next
    case False
    with 1 ws_tail_utf8[of s] show ?thesis by (simp add: strip_ws.simps[of ws_tail s])
  qed
qed

lemma utf8_trim: "utf8_valid s \<Longrightarrow> utf8_valid (trim s)"
  using utf8_strip_head[of s] utf8_strip_tail[of "rev (strip_ws ws_head s)"]
  by (simp add: trim_def trim_start_def trim_end_def)

section \<open>Lines\<close>

lemma utf8_strip_cr: "utf8_valid l \<Longrightarrow> utf8_valid (strip_cr l)"
proof (cases "strip_suffix [CR] l")
  case (Some l')
  assume "utf8_valid l"
  with Some have "utf8_valid (l' @ CR # [])"
    by (simp add: strip_suffix_Some)
  moreover have "is_ascii CR"
    by code_simp
  ultimately show ?thesis
    using Some utf8_valid_at_ascii[of l' CR "[]"] by (simp add: strip_cr_def)
qed (simp add: strip_cr_def)

lemma ascii_NL: "is_ascii NL" and ascii_COLON: "is_ascii COLON"
  by code_simp+

lemma utf8_lines: "utf8_valid s \<Longrightarrow> l \<in> set (lines s) \<Longrightarrow> utf8_valid l"
proof (induction "length s" arbitrary: s rule: less_induct)
  case less
  show ?case
  proof (cases "NL \<in> set s")
    case False
    with less.prems show ?thesis
      by (cases "s = []") (auto simp: lines_single)
  next
    case True
    then obtain a b where s: "s = a @ NL # b" "NL \<notin> set a"
      by (meson split_list_first)
    have v: "utf8_valid a" "utf8_valid b"
      using utf8_valid_at_ascii[of a NL b] less.prems(1) s ascii_NL by simp_all
    have "l = strip_cr a \<or> l \<in> set (lines b)"
      using less.prems(2) s by (simp add: lines_append_NL)
    then show ?thesis
      using v utf8_strip_cr less.hyps[of b] s by auto
  qed
qed

section \<open>Headers and messages\<close>

definition utf8_headers :: "headers \<Rightarrow> bool" where
  "utf8_headers h = (\<forall>k v. fmlookup h k = Some v \<longrightarrow> utf8_valid k \<and> utf8_valid v)"

lemma utf8_headers_empty [simp]: "utf8_headers fmempty"
  by (simp add: utf8_headers_def)

lemma utf8_headers_upd: "utf8_headers h \<Longrightarrow> utf8_valid k \<Longrightarrow> utf8_valid v \<Longrightarrow> utf8_headers (fmupd k v h)"
  by (simp add: utf8_headers_def)

lemma utf8_split_header:
  assumes "utf8_valid line" "split_header pdec line = Some (k, v)"
  shows "utf8_valid k \<and> utf8_valid v"
proof -
  obtain i where i: "find_char COLON line = Some i"
    using assms(2) by (auto simp: split_header_def split: option.splits)
  then have "line = take i line @ COLON # drop (i + 1) line"
    using id_take_nth_drop[of i line] by (simp add: find_char_Some)
  then have "utf8_valid (take i line) \<and> utf8_valid (drop (i + 1) line)"
    using assms(1) utf8_valid_at_ascii[OF _ ascii_COLON] by metis
  then show ?thesis
    using assms(2) i utf8_trim by (auto simp: split_header_def header_value_def Let_def)
qed

lemma utf8_parse_header_lines:
  "\<forall>l \<in> set ls. utf8_valid l \<Longrightarrow> utf8_headers h \<Longrightarrow> parse_header_lines pdec ls h = Inr h' \<Longrightarrow> utf8_headers h'"
proof (induction ls arbitrary: h)
  case (Cons l ls)
  have t: "utf8_valid (trim l)"
    using Cons.prems(1) utf8_trim by simp
  show ?case
  proof (cases "trim l = []")
    case True
    with Cons show ?thesis by (simp add: Let_def)
  next
    case False
    then obtain k v where kv: "split_header pdec (trim l) = Some (k, v)"
      "parse_header_lines pdec ls (fmupd k v h) = Inr h'"
      using Cons.prems(3) by (auto simp: Let_def split: option.splits)
    have "utf8_headers (fmupd k v h)"
      using utf8_split_header[OF t kv(1)] Cons.prems(2) by (simp add: utf8_headers_upd)
    then show ?thesis
      using Cons.IH[OF _ _ kv(2)] Cons.prems(1) by simp
  qed
qed simp

lemma utf8_parse_headers: "utf8_valid s \<Longrightarrow> parse_headers pdec s = Inr h \<Longrightarrow> utf8_headers h"
  unfolding parse_headers_def by (rule utf8_parse_header_lines) (use utf8_lines in auto)

definition utf8_type :: "MessageType \<Rightarrow> bool" where
  "utf8_type mt = (case mt of Unknown s \<Rightarrow> utf8_valid s | _ \<Rightarrow> True)"

definition utf8_message :: "EslMessage \<Rightarrow> bool" where
  "utf8_message m =
     (utf8_type (message_type m) \<and> utf8_headers (msg_headers m)
      \<and> (\<forall>b. msg_body m = Some b \<longrightarrow> utf8_valid b))"

definition utf8_parser :: "EslParser \<Rightarrow> bool" where
  "utf8_parser p =
     (case pstate p of WaitingForHeaders \<Rightarrow> True | WaitingForBody mt h n \<Rightarrow> utf8_type mt \<and> utf8_headers h)"

lemma utf8_type_from_content_type: "utf8_valid ct \<Longrightarrow> utf8_type (type_from_content_type ct)"
  by (simp add: type_from_content_type_def utf8_type_def)

lemma utf8_message_new:
  "utf8_type mt \<Longrightarrow> utf8_headers h \<Longrightarrow> \<forall>b. body = Some b \<longrightarrow> utf8_valid b \<Longrightarrow>
     utf8_message (message_new mt h body)"
  by (simp add: utf8_message_def message_new_def)

lemma utf8_parse_body:
  assumes "utf8_type mt" "utf8_headers h" "parse_body p mt h n = (r, p')" "utf8_parser p"
  shows "utf8_parser p' \<and> (\<forall>m. r = Inr (Some m) \<longrightarrow> utf8_message m)"
  using assms
  by (auto simp: parse_body_def Let_def utf8_parser_def utf8_message_new split: prod.splits option.splits if_splits)

lemma utf8_parse_message:
  assumes "utf8_parser p" "parse_message pdec p = (r, p')"
  shows "utf8_parser p' \<and> (\<forall>m. r = Inr (Some m) \<longrightarrow> utf8_message m)"
proof (cases "pstate p")
  case (WaitingForBody mt h n)
  with assms show ?thesis
    using utf8_parse_body[of mt h p n r p'] by (simp add: parse_message_def utf8_parser_def)
next
  case WaitingForHeaders
  obtain o1 b where e: "extract_until_pattern (pbuffer p) HEADER_TERMINATOR = (o1, b)"
    by fastforce
  show ?thesis
  proof (cases o1)
    case None
    with assms WaitingForHeaders e show ?thesis
      by (auto simp: parse_message_def utf8_parser_def)
  next
    case (Some d)
    let ?p = "p\<lparr>pbuffer := compact b\<rparr>"
    have keep: "utf8_parser ?p"
      using WaitingForHeaders by (simp add: utf8_parser_def)
    show ?thesis
    proof (cases "utf8_valid d \<and> (\<exists>h ct. parse_headers pdec d = Inr h \<and> fmlookup h HEADER_CONTENT_TYPE = Some ct)")
      case False
      then show ?thesis
        using assms WaitingForHeaders e Some keep
        by (auto simp: parse_message_def Let_def split: sum.splits option.splits if_splits)
    next
      case True
      then obtain h ct where h: "utf8_valid d" "parse_headers pdec d = Inr h"
        "fmlookup h HEADER_CONTENT_TYPE = Some ct"
        by blast
      have uh: "utf8_headers h"
        using utf8_parse_headers[OF h(1,2)] .
      have ut: "utf8_type (type_from_content_type ct)"
        using uh h(3) utf8_type_from_content_type by (auto simp: utf8_headers_def)
      show ?thesis
        using assms(2) WaitingForHeaders e Some h uh ut keep
          utf8_parse_body[OF ut uh]
        by (fastforce simp: parse_message_def Let_def utf8_parser_def utf8_message_new
            split: sum.splits option.splits if_splits)
    qed
  qed
qed

section \<open>Events\<close>

definition utf8_event :: "EslEvent \<Rightarrow> bool" where
  "utf8_event ev = (utf8_headers (ev_headers ev) \<and> (\<forall>b. ev_body ev = Some b \<longrightarrow> utf8_valid b))"

lemma utf8_event_new [simp]: "utf8_event event_new"
  by (simp add: utf8_event_def event_new_def)

lemma utf8_event_set_header:
  "utf8_event ev \<Longrightarrow> utf8_valid k \<Longrightarrow> utf8_valid v \<Longrightarrow> utf8_event (set_header ev k v)"
  by (simp add: utf8_event_def set_header_def utf8_headers_upd)

lemma utf8_event_set_body: "utf8_event ev \<Longrightarrow> utf8_valid b \<Longrightarrow> utf8_event (set_body ev b)"
  by (simp add: utf8_event_def set_body_def)

lemma utf8_name_event: "utf8_event (name_event ev) = utf8_event ev"
  by (simp add: utf8_event_def)

lemma utf8_parse_event_lines:
  "\<forall>l \<in> set ls. utf8_valid l \<Longrightarrow> utf8_event ev \<Longrightarrow> utf8_event (parse_event_lines pdec ls ev)"
proof (induction ls arbitrary: ev)
  case (Cons l ls)
  have t: "utf8_valid (trim l)"
    using Cons.prems(1) utf8_trim by simp
  show ?case
  proof (cases "trim l = [] \<or> split_header pdec (trim l) = None")
    case True
    with Cons show ?thesis by (auto simp: Let_def)
  next
    case False
    then obtain k v where kv: "split_header pdec (trim l) = Some (k, v)" "trim l \<noteq> []"
      by auto
    then show ?thesis
      using Cons.IH[of "set_header ev k v"] Cons.prems utf8_split_header[OF t kv(1)] utf8_event_set_header
      by (simp add: Let_def)
  qed
qed simp

lemma utf8_at_blank_line:
  assumes "utf8_valid body" "find_sub [NL, NL] body = Some pos"
  shows "utf8_valid (take pos body) \<and> utf8_valid (drop (pos + 2) body)"
proof -
  obtain a b where ab: "body = a @ NL # NL # b" "length a = pos"
    using find_sub_sound[OF assms(2)] by auto
  then show ?thesis
    using utf8_valid_at_ascii[of a NL "NL # b"] assms(1) ascii_NL by simp
qed

lemma utf8_parse_plain_event:
  assumes "utf8_message m" "parse_plain_event pdec m = Inr ev"
  shows "utf8_event ev"
proof -
  obtain body where b: "msg_body m = Some body"
    using assms(2) by (auto simp: parse_plain_event_def split: if_splits option.splits)
  then have v: "utf8_valid body"
    using assms(1) by (simp add: utf8_message_def)
  have l: "utf8_event (parse_event_lines pdec (lines t) event_new)" if "utf8_valid t" for t
    by (rule utf8_parse_event_lines) (use that utf8_lines in auto)
  show ?thesis
    using assms(2) b v l utf8_at_blank_line[OF v]
    by (auto simp: parse_plain_event_def Let_def utf8_name_event intro!: utf8_event_set_body
        split: if_splits option.splits)
qed

text \<open>C23. Every string the parser makes is well-formed UTF-8. Whatever bytes arrive and whatever the
  percent-decoder returns, a parser whose waiting headers are well-formed stays so, every message it
  returns has well-formed type, header names, header values and body, and every plain
  event read from such a message has well-formed headers and body. (These are the
  values the code holds as \<open>String\<close>.)\<close>

theorem parsed_text_is_utf8:
  assumes "utf8_parser p" "parse_message pdec p = (r, p')"
  shows "utf8_parser p'
    \<and> (\<forall>m. r = Inr (Some m) \<longrightarrow> utf8_message m
          \<and> (\<forall>ev. parse_plain_event pdec m = Inr ev \<longrightarrow> utf8_event ev))"
  using utf8_parse_message[OF assms] utf8_parse_plain_event by blast

lemma utf8_parser_new: "utf8_parser parser_new"
  by (simp add: utf8_parser_def parser_new_def)

text \<open>A value whose decoded bytes are no UTF-8 is kept as it was sent.\<close>

definition sample_utf8_parser :: EslParser where
  "sample_utf8_parser =
     snd (add_data parser_new (''Content-Type: x'' @ [NL] @ ''N: %FF'' @ [NL, NL]))"

theorem parsed_text_is_utf8_witness:
  "\<exists>m p'. parse_message percent_decode_ref sample_utf8_parser = (Inr (Some m), p')
     \<and> fmlookup (msg_headers m) ''N'' = Some ''%FF'' \<and> utf8_message m"
proof -
  have "(case parse_message percent_decode_ref sample_utf8_parser of
      (Inr (Some m), p') \<Rightarrow> fmlookup (msg_headers m) ''N'' = Some ''%FF'' | _ \<Rightarrow> False)"
    by code_simp
  then obtain m p' where m: "parse_message percent_decode_ref sample_utf8_parser = (Inr (Some m), p')"
    "fmlookup (msg_headers m) ''N'' = Some ''%FF''"
    by (auto split: prod.splits sum.splits option.splits)
  moreover have "utf8_parser sample_utf8_parser"
    by (simp add: sample_utf8_parser_def add_data_def Let_def utf8_parser_def parser_new_def)
  ultimately show ?thesis
    using parsed_text_is_utf8[of sample_utf8_parser percent_decode_ref] by blast
qed

end
