(* ===== verification/Esl_Session.thy ===== *)
theory Esl_Session
  imports Esl_Client
begin

text \<open>
  Programs that use one client handle in sequence. The state is a \<open>session\<close>: the context every request
  finds (the connection changes between two requests, and the server answers each in its own way),
  and the requests made so far. A plan is a list of requests that stops at the first error.
\<close>

section \<open>Sessions\<close>

datatype request = AskConnect | AskEvents EventFormat "EslEventType list" | AskCommand EslCommand

record session =
  ss_ctx :: "nat \<Rightarrow> client_ctx"
  ss_asked :: "request list"

definition ask :: "request \<Rightarrow> (client_ctx \<Rightarrow> 'a EslResult) \<Rightarrow> session \<Rightarrow> 'a EslResult \<times> session" where
  "ask r f s = (f (ss_ctx s (length (ss_asked s))), s\<lparr>ss_asked := ss_asked s @ [r]\<rparr>)"

definition do_connect :: "session \<Rightarrow> EslResponse EslResult \<times> session" where
  "do_connect s = ask AskConnect connect_session s"

definition do_subscribe :: "EventFormat \<Rightarrow> EslEventType list \<Rightarrow> session \<Rightarrow> unit EslResult \<times> session" where
  "do_subscribe fmt types s = ask (AskEvents fmt types) (\<lambda>cx. subscribe_events cx fmt types) s"

definition do_command :: "EslCommand \<Rightarrow> session \<Rightarrow> EslResponse EslResult \<times> session" where
  "do_command cmd s = ask (AskCommand cmd) (\<lambda>cx. send_command cx cmd) s"

text \<open>The \<open>?\<close> operator on a request, threading the session.\<close>

definition and_then ::
    "'a EslResult \<times> session \<Rightarrow> ('a \<Rightarrow> session \<Rightarrow> 'b EslResult \<times> session) \<Rightarrow> 'b EslResult \<times> session" where
  "and_then rs k = (case rs of (Inl e, s) \<Rightarrow> (Inl e, s) | (Inr x, s) \<Rightarrow> k x s)"

section \<open>Plans\<close>

text \<open>A request without its result, and a list of requests that stops at the first error.\<close>

definition perform :: "request \<Rightarrow> session \<Rightarrow> unit EslResult \<times> session" where
  "perform r s =
     (case r of
        AskConnect \<Rightarrow> and_then (do_connect s) (\<lambda>_ s'. (Inr (), s'))
      | AskEvents fmt types \<Rightarrow> do_subscribe fmt types s
      | AskCommand cmd \<Rightarrow> and_then (do_command cmd s) (\<lambda>_ s'. (Inr (), s')))"

fun run_plan :: "request list \<Rightarrow> session \<Rightarrow> unit EslResult \<times> session" where
  "run_plan [] s = (Inr (), s)"
| "run_plan (r # rs) s = and_then (perform r s) (\<lambda>_. run_plan rs)"

text \<open>The result of one request.\<close>

definition request_result :: "request \<Rightarrow> client_ctx \<Rightarrow> unit EslResult" where
  "request_result r cx =
     (case r of
        AskConnect \<Rightarrow> res_bind (connect_session cx) (\<lambda>_. Inr ())
      | AskEvents fmt types \<Rightarrow> subscribe_events cx fmt types
      | AskCommand cmd \<Rightarrow> res_bind (send_command cx cmd) (\<lambda>_. Inr ()))"

lemma and_then_simps [simp]:
  "and_then (Inl e, s) k = (Inl e, s)"
  "and_then (Inr x, s) k = k x s"
  by (simp_all add: and_then_def)

lemma and_then_assoc: "and_then (and_then m k) l = and_then m (\<lambda>x s. and_then (k x s) l)"
  by (cases m; cases "fst m") auto

lemma and_then_unit [simp]: "and_then m (\<lambda>_. Pair (Inr ())) = m"
  by (cases m; cases "fst m") auto

text \<open>The plan's equations on functions, so that they rewrite under \<open>and_then\<close>.\<close>

lemma run_plan_fun:
  "run_plan [] = Pair (Inr ())"
  "run_plan (r # rs) = (\<lambda>s. and_then (perform r s) (\<lambda>_. run_plan rs))"
  by auto

lemma run_plan_append: "run_plan (rs @ rs') = (\<lambda>s. and_then (run_plan rs s) (\<lambda>_. run_plan rs'))"
  by (induction rs) (simp_all add: run_plan_fun and_then_assoc del: run_plan.simps)

lemma run_commands_simps:
  "run_plan (AskCommand cmd # rs) = (\<lambda>s. and_then (do_command cmd s) (\<lambda>_. run_plan rs))"
  "run_plan (AskConnect # rs) = (\<lambda>s. and_then (do_connect s) (\<lambda>_. run_plan rs))"
  "run_plan (AskEvents fmt types # rs) = (\<lambda>s. and_then (do_subscribe fmt types s) (\<lambda>_. run_plan rs))"
  by (simp_all add: run_plan_fun perform_def and_then_assoc del: run_plan.simps)

lemmas plan_simps = run_plan_append run_commands_simps run_plan_fun(1)

lemma perform_ask: "perform r s = ask r (request_result r) s"
  by (cases r)
    (auto simp: perform_def do_connect_def do_subscribe_def do_command_def ask_def request_result_def
      and_then_def res_bind_def split: sum.splits)

text \<open>A plan that is run does its first \<open>n\<close> requests.\<close>

definition ran :: "request list \<Rightarrow> session \<Rightarrow> nat \<Rightarrow> unit EslResult \<Rightarrow> bool" where
  "ran rs s n r =
     (let result = (\<lambda>k. request_result (rs ! k) (ss_ctx s (length (ss_asked s) + k))) in
      case r of
        Inr _ \<Rightarrow> n = length rs \<and> (\<forall>k < n. result k = Inr ())
      | Inl e \<Rightarrow> 0 < n \<and> n \<le> length rs \<and> (\<forall>k < n - 1. result k = Inr ()) \<and> result (n - 1) = Inl e)"

lemma run_plan_ran:
  "\<exists>n. snd (run_plan rs s) = s\<lparr>ss_asked := ss_asked s @ take n rs\<rparr> \<and> ran rs s n (fst (run_plan rs s))"
proof (induction rs arbitrary: s)
  case Nil
  then show ?case by (simp add: ran_def)
next
  case (Cons q rs)
  let ?res = "request_result q (ss_ctx s (length (ss_asked s)))"
  let ?s1 = "s\<lparr>ss_asked := ss_asked s @ [q]\<rparr>"
  show ?case
  proof (cases ?res)
    case (Inl e)
    then show ?thesis
      by (intro exI[of _ 1]) (simp add: perform_ask ask_def ran_def)
  next
    case (Inr x)
    obtain n where n: "snd (run_plan rs ?s1) = ?s1\<lparr>ss_asked := ss_asked ?s1 @ take n rs\<rparr>"
      "ran rs ?s1 n (fst (run_plan rs ?s1))"
      using Cons.IH[of ?s1] by blast
    have "ran (q # rs) s (Suc n) (fst (run_plan rs ?s1))"
      using n(2) Inr by (auto simp: ran_def Let_def less_Suc_eq_0_disj nth_Cons' gr0_conv_Suc split: sum.splits)
    then show ?thesis
      using n(1) Inr by (intro exI[of _ "Suc n"]) (simp add: perform_ask ask_def)
  qed
qed

section \<open>A server that accepts everything\<close>

definition sample_session :: session where
  "sample_session = \<lparr>ss_ctx = \<lambda>n. sample_ctx ''+OK'', ss_asked = []\<rparr>"

lemma sample_send_ok:
  assumes "\<forall>t \<in> set (command_texts c). \<not> has_newline t"
  shows "send_command (sample_ctx ''+OK'') c = Inr (into_response (sample_reply ''+OK''))"
  using to_wire_cases[OF sorted_order.map_order_axioms, of c sorted_list_of_fmap] assms
  by (auto simp: send_command_def sample_ctx_def is_connected_def)

lemma sample_into_result: "into_result (into_response (sample_reply ''+OK'')) = Inr (into_response (sample_reply ''+OK''))"
  by (simp add: into_result_def into_response_def response_new_def sample_reply_def message_new_def
      fmlookup_of_list starts_with_def Let_def)

end
