(* ===== verification/Esl_Filter_Tool.thy ===== *)
theory Esl_Filter_Tool
  imports Esl_Session
begin

text \<open>
  The event filter of \<open>src/examples/event_filter.rs\<close>: its command line, the three ways it prints
  an event, and its run. Printing the usage text ends the program and is the outcome \<open>ArgsHelp\<close>;
  the lines it prints for its user on the standard error are left out.
\<close>

section \<open>Arguments\<close>

record Args =
  arg_host :: string
  arg_port :: "16 word"
  arg_user :: "string option"
  arg_password :: string
  arg_events :: "string list"
  arg_filter_header :: "string option"
  arg_filter_value :: "string option"
  arg_json :: bool
  arg_raw :: bool
  arg_quiet :: bool

definition args_default :: Args where
  "args_default =
     \<lparr>arg_host = ''localhost'', arg_port = 8021, arg_user = None, arg_password = ''ClueCon'',
      arg_events = [''CHANNEL_CREATE''], arg_filter_header = None, arg_filter_value = None,
      arg_json = False, arg_raw = False, arg_quiet = False\<rparr>"

datatype args_outcome = ArgsOk Args | ArgsErr string | ArgsHelp

text \<open>An option that takes a value: its two names, the complaint when the value is missing, and what
  the value does.\<close>

definition set_port :: "string \<Rightarrow> Args \<Rightarrow> (string, Args) result" where
  "set_port v a =
     (case parse_uint (2 ^ 16 - 1) v of
        Inl _ \<Rightarrow> Inl ''Invalid port number''
      | Inr n \<Rightarrow> Inr (a\<lparr>arg_port := of_nat n\<rparr>))"

definition set_user :: "string \<Rightarrow> Args \<Rightarrow> (string, Args) result" where
  "set_user v a =
     (if CHR ''@'' \<notin> set v then
        Inl (''Invalid user format '' @ [QUOTE] @ v @ [QUOTE]
             @ '': must be user@domain (e.g., admin@default)'')
      else Inr (a\<lparr>arg_user := Some v\<rparr>))"

definition value_options :: "(string \<times> string \<times> (string \<Rightarrow> Args \<Rightarrow> (string, Args) result)) list" where
  "value_options =
     [(''-H'', ''Missing host value'', \<lambda>v a. Inr (a\<lparr>arg_host := v\<rparr>)),
      (''--host'', ''Missing host value'', \<lambda>v a. Inr (a\<lparr>arg_host := v\<rparr>)),
      (''-P'', ''Missing port value'', set_port),
      (''--port'', ''Missing port value'', set_port),
      (''-p'', ''Missing password value'', \<lambda>v a. Inr (a\<lparr>arg_password := v\<rparr>)),
      (''--password'', ''Missing password value'', \<lambda>v a. Inr (a\<lparr>arg_password := v\<rparr>)),
      (''-u'', ''Missing user value'', set_user),
      (''--user'', ''Missing user value'', set_user),
      (''-e'', ''Missing event value'', \<lambda>v a. Inr (a\<lparr>arg_events := arg_events a @ [v]\<rparr>)),
      (''--event'', ''Missing event value'', \<lambda>v a. Inr (a\<lparr>arg_events := arg_events a @ [v]\<rparr>)),
      (''-f'', ''Missing filter header'', \<lambda>v a. Inr (a\<lparr>arg_filter_header := Some v\<rparr>)),
      (''--filter'', ''Missing filter header'', \<lambda>v a. Inr (a\<lparr>arg_filter_header := Some v\<rparr>)),
      (''-v'', ''Missing filter value'', \<lambda>v a. Inr (a\<lparr>arg_filter_value := Some v\<rparr>)),
      (''--value'', ''Missing filter value'', \<lambda>v a. Inr (a\<lparr>arg_filter_value := Some v\<rparr>))]"

definition flag_options :: "(string \<times> (Args \<Rightarrow> Args)) list" where
  "flag_options =
     [(''-j'', \<lambda>a. a\<lparr>arg_json := True\<rparr>), (''--json'', \<lambda>a. a\<lparr>arg_json := True\<rparr>),
      (''-r'', \<lambda>a. a\<lparr>arg_raw := True\<rparr>), (''--raw'', \<lambda>a. a\<lparr>arg_raw := True\<rparr>),
      (''-q'', \<lambda>a. a\<lparr>arg_quiet := True\<rparr>), (''--quiet'', \<lambda>a. a\<lparr>arg_quiet := True\<rparr>)]"

text \<open>The checks after the loop.\<close>

definition finish_args :: "Args \<Rightarrow> args_outcome" where
  "finish_args a0 =
     (let a = (if arg_events a0 = [] then a0\<lparr>arg_events := [''CHANNEL_CREATE'']\<rparr> else a0) in
      if (arg_filter_header a \<noteq> None) \<noteq> (arg_filter_value a \<noteq> None) then
        ArgsErr ''Both --filter and --value must be specified together''
      else ArgsOk a)"

fun parse_args_from :: "string list \<Rightarrow> Args \<Rightarrow> args_outcome" where
  "parse_args_from [] a = finish_args a"
| "parse_args_from (opt # args) a =
     (if opt = ''-h'' \<or> opt = ''--help'' then ArgsHelp
      else
        (case map_of value_options opt of
           Some (missing, use_value) \<Rightarrow>
             (case args of
                [] \<Rightarrow> ArgsErr missing
              | v # args' \<Rightarrow>
                  (case use_value v a of
                     Inl e \<Rightarrow> ArgsErr e
                   | Inr a' \<Rightarrow> parse_args_from args' a'))
         | None \<Rightarrow>
             (case map_of flag_options opt of
                Some f \<Rightarrow> parse_args_from args (f a)
              | None \<Rightarrow> ArgsErr (''Unknown argument: '' @ opt))))"

definition parse_args :: "string list \<Rightarrow> args_outcome" where
  "parse_args args = parse_args_from args (args_default\<lparr>arg_events := []\<rparr>)"

definition parse_event_name :: "string \<Rightarrow> (string, EslEventType) result" where
  "parse_event_name name =
     (case parse_event_type name of
        Some t \<Rightarrow> Inr t
      | None \<Rightarrow> Inl (''Unknown event type: '' @ name))"

text \<open>\<open>args.events.iter().map(parse_event_type).collect()\<close>: the first error, or all the types.\<close>

fun parse_event_names :: "string list \<Rightarrow> (string, EslEventType list) result" where
  "parse_event_names [] = Inr []"
| "parse_event_names (n # ns) =
     res_bind (parse_event_name n) (\<lambda>t. res_bind (parse_event_names ns) (\<lambda>ts. Inr (t # ts)))"

section \<open>Output\<close>

text \<open>The slice of the identifier in the summary panics inside a character.\<close>

definition format_event_summary :: "EslEvent \<Rightarrow> string option" where
  "format_event_summary ev =
     (let event_name = (case event_type ev of Some t \<Rightarrow> event_type_display t | None \<Rightarrow> ''UNKNOWN'');
          caller_id = (case caller_id_number ev of Some c \<Rightarrow> c | None \<Rightarrow> ''-'');
          dest = (case header ev ''Caller-Destination-Number'' of Some d \<Rightarrow> d | None \<Rightarrow> ''-'');
          direction = (case call_direction ev of Some d \<Rightarrow> call_direction_display d | None \<Rightarrow> ''-'')
      in map_option (\<lambda>uuid. ''['' @ event_name @ ''] '' @ caller_id @ '' -> '' @ dest @ '' (''
              @ direction @ '') uuid:'' @ uuid @ ''...'')
           (case unique_id ev of
              None \<Rightarrow> Some ''-''
            | Some s \<Rightarrow> cut 8 s))"

definition format_event_full :: "header_order \<Rightarrow> EslEvent \<Rightarrow> string" where
  "format_event_full ord_ev ev =
     ''---EVENT---'' @ [NL]
     @ concat (map (\<lambda>(k, v). k @ '': '' @ v @ [NL]) (ord_ev (ev_headers ev)))
     @ (case ev_body ev of Some body \<Rightarrow> [NL] @ body @ [NL] | None \<Rightarrow> [])
     @ ''-----------'' @ [NL]"

definition format_event_json :: "(headers \<Rightarrow> (string, string) result) \<Rightarrow> EslEvent \<Rightarrow> string" where
  "format_event_json json_write ev =
     (case json_write (ev_headers ev) of Inr s \<Rightarrow> s | Inl _ \<Rightarrow> ''{}'')"

text \<open>The choice in \<open>main\<close>, and the format and filter it asks the server for.\<close>

definition format_output ::
    "(headers \<Rightarrow> (string, string) result) \<Rightarrow> header_order \<Rightarrow> Args \<Rightarrow> EslEvent \<Rightarrow> string option" where
  "format_output json_write ord_ev a ev =
     (if arg_json a then Some (format_event_json json_write ev)
      else if arg_raw a then Some (format_event_full ord_ev ev)
      else if arg_quiet a then format_event_summary ev
      else Some (format_event_full ord_ev ev))"

definition filter_format :: "Args \<Rightarrow> EventFormat" where
  "filter_format a = (if arg_json a then Json else Plain)"

section \<open>The run\<close>

text \<open>Host and port of the arguments are the network's; they reach only the TCP connect.\<close>

definition filter_connect :: "'q network \<Rightarrow> Args \<Rightarrow> 'q reader EslResult" where
  "filter_connect net a =
     (case arg_user a of
        Some user \<Rightarrow> connect_with_user net user (arg_password a)
      | None \<Rightarrow> connect net (arg_password a))"

text \<open>The loop: what it prints, and whether a panic ended it. The items are what \<open>recv\<close> returns.\<close>

fun filter_outputs ::
    "(headers \<Rightarrow> (string, string) result) \<Rightarrow> header_order \<Rightarrow> Args \<Rightarrow> event_item list \<Rightarrow> string list \<times> bool" where
  "filter_outputs json_write ord_ev a [] = ([], False)"
| "filter_outputs json_write ord_ev a (Inl _ # is) = filter_outputs json_write ord_ev a is"
| "filter_outputs json_write ord_ev a (Inr ev # is) =
     (case format_output json_write ord_ev a ev of
        None \<Rightarrow> ([], True)
      | Some out \<Rightarrow>
          (case filter_outputs json_write ord_ev a is of (outs, panicked) \<Rightarrow> (out # outs, panicked)))"

datatype filter_end = FilterExit | FilterError EslError | FilterPanic | FilterDone

definition filter_setup :: "Args \<Rightarrow> EslEventType list \<Rightarrow> session \<Rightarrow> unit EslResult \<times> session" where
  "filter_setup a types s =
     and_then (do_subscribe (filter_format a) types s) (\<lambda>_ s1.
       case (arg_filter_header a, arg_filter_value a) of
         (Some h, Some v) \<Rightarrow> ask (AskCommand (Filter h v)) (\<lambda>cx. filter_events cx h v) s1
       | _ \<Rightarrow> (Inr (), s1))"

definition filter_run ::
    "(headers \<Rightarrow> (string, string) result) \<Rightarrow> header_order \<Rightarrow> Args \<Rightarrow> event_item list \<Rightarrow> string option
     \<Rightarrow> session \<Rightarrow> (filter_end \<times> string list) \<times> session" where
  "filter_run json_write ord_ev a items shutdown_error s =
     (case parse_event_names (arg_events a) of
        Inl _ \<Rightarrow> ((FilterExit, []), s)
      | Inr types \<Rightarrow>
          (case filter_setup a types s of
             (Inl e, s1) \<Rightarrow> ((FilterError e, []), s1)
           | (Inr _, s1) \<Rightarrow>
               (case filter_outputs json_write ord_ev a items of (outs, panicked) \<Rightarrow>
                  ((if panicked then FilterPanic
                    else (case disconnect shutdown_error of Inl e \<Rightarrow> FilterError e | Inr _ \<Rightarrow> FilterDone),
                    outs), s1))))"

section \<open>The command line round-trips\<close>

definition args_ok :: "Args \<Rightarrow> bool" where
  "args_ok a =
     (arg_events a \<noteq> [] \<and> (arg_filter_header a = None \<longleftrightarrow> arg_filter_value a = None)
      \<and> (\<forall>u. arg_user a = Some u \<longrightarrow> CHR ''@'' \<in> set u))"

definition opt_args :: "string \<Rightarrow> string option \<Rightarrow> string list" where
  "opt_args opt v = (case v of Some x \<Rightarrow> [opt, x] | None \<Rightarrow> [])"

definition render_args :: "Args \<Rightarrow> string list" where
  "render_args a =
     [''-H'', arg_host a, ''-P'', nat_to_string (unat (arg_port a)), ''-p'', arg_password a]
     @ opt_args ''-u'' (arg_user a)
     @ concat (map (\<lambda>e. [''-e'', e]) (arg_events a))
     @ opt_args ''-f'' (arg_filter_header a) @ opt_args ''-v'' (arg_filter_value a)
     @ (if arg_json a then [''-j''] else []) @ (if arg_raw a then [''-r''] else [])
     @ (if arg_quiet a then [''-q''] else [])"

text \<open>One option at the front, in the form the proofs use.\<close>

lemma parse_value_step:
  "parse_args_from (''-H'' # v # args) a = parse_args_from args (a\<lparr>arg_host := v\<rparr>)"
  "parse_args_from (''-p'' # v # args) a = parse_args_from args (a\<lparr>arg_password := v\<rparr>)"
  "parse_args_from (''-e'' # v # args) a = parse_args_from args (a\<lparr>arg_events := arg_events a @ [v]\<rparr>)"
  "parse_args_from (''-f'' # v # args) a = parse_args_from args (a\<lparr>arg_filter_header := Some v\<rparr>)"
  "parse_args_from (''-v'' # v # args) a = parse_args_from args (a\<lparr>arg_filter_value := Some v\<rparr>)"
  "CHR ''@'' \<in> set v \<Longrightarrow> parse_args_from (''-u'' # v # args) a = parse_args_from args (a\<lparr>arg_user := Some v\<rparr>)"
  by (simp_all add: value_options_def set_user_def)

lemma parse_flag_step:
  "parse_args_from (''-j'' # args) a = parse_args_from args (a\<lparr>arg_json := True\<rparr>)"
  "parse_args_from (''-r'' # args) a = parse_args_from args (a\<lparr>arg_raw := True\<rparr>)"
  "parse_args_from (''-q'' # args) a = parse_args_from args (a\<lparr>arg_quiet := True\<rparr>)"
  by (simp_all add: value_options_def flag_options_def)

lemma parse_port_step:
  "parse_args_from (''-P'' # nat_to_string (unat (w :: 16 word)) # args) a
     = parse_args_from args (a\<lparr>arg_port := w\<rparr>)"
proof -
  have "unat w \<le> 2 ^ 16 - 1"
    using unsigned_less[of w, where 'a = nat] by simp
  then have "parse_uint (2 ^ 16 - 1) (nat_to_string (unat w)) = Inr (unat w)"
    by (rule parse_uint_nat_to_string)
  then show ?thesis
    by (simp add: value_options_def set_port_def del: nat_to_string.simps)
qed

lemma parse_events_step:
  "parse_args_from (concat (map (\<lambda>e. [''-e'', e]) es) @ args) a
     = parse_args_from args (a\<lparr>arg_events := arg_events a @ es\<rparr>)"
  by (induction es arbitrary: a) (simp_all add: parse_value_step del: parse_args_from.simps)

lemma parse_render: "args_ok a \<Longrightarrow> parse_args (render_args a) = ArgsOk a"
  by (cases "arg_user a"; cases "arg_filter_header a"; cases "arg_filter_value a")
    (simp_all add: parse_args_def render_args_def opt_args_def args_ok_def parse_value_step parse_flag_step
      parse_port_step parse_events_step args_default_def finish_args_def Let_def
      del: parse_args_from.simps(2) nat_to_string.simps)

lemma value_options_user:
  assumes "map_of value_options opt = Some (e, use_value)" "use_value v a = Inr a'"
    and "\<forall>u. arg_user a = Some u \<longrightarrow> CHR ''@'' \<in> set u"
  shows "\<forall>u. arg_user a' = Some u \<longrightarrow> CHR ''@'' \<in> set u"
proof -
  have "(e, use_value) \<in> snd ` set value_options"
    using map_of_SomeD[OF assms(1)] by force
  then have "use_value v a = set_user v a \<or> arg_user a' = arg_user a"
    using assms(2) by (auto simp: value_options_def set_port_def split: sum.splits)
  then show ?thesis
    using assms(2,3) by (auto simp: set_user_def split: if_splits)
qed

lemma flag_options_user: "map_of flag_options opt = Some f \<Longrightarrow> arg_user (f a) = arg_user a"
  by (drule map_of_SomeD) (auto simp: flag_options_def)

lemma parse_args_ok:
  "parse_args_from args a = ArgsOk a' \<Longrightarrow> \<forall>u. arg_user a = Some u \<longrightarrow> CHR ''@'' \<in> set u \<Longrightarrow> args_ok a'"
proof (induction args a rule: parse_args_from.induct)
  case (1 a)
  then show ?case
    by (auto simp: finish_args_def args_ok_def Let_def split: if_splits)
next
  case (2 opt args a)
  have h: "\<not> (opt = ''-h'' \<or> opt = ''--help'')"
    using "2.prems"(1) by (auto split: if_splits)
  show ?case
  proof (cases "map_of value_options opt")
    case None
    then obtain f where f: "map_of flag_options opt = Some f" "parse_args_from args (f a) = ArgsOk a'"
      using "2.prems"(1) h by (auto split: option.splits)
    then show ?thesis
      using "2.IH"(1)[OF h None f] "2.prems"(2) flag_options_user[OF f(1)] by simp
  next
    case (Some mu)
    obtain e use_value where mu: "mu = (e, use_value)" by (cases mu)
    obtain v args' a1 where v: "args = v # args'" "use_value v a = Inr a1" "parse_args_from args' a1 = ArgsOk a'"
      using "2.prems"(1) Some mu h by (auto split: list.splits sum.splits)
    have "\<forall>u. arg_user a1 = Some u \<longrightarrow> CHR ''@'' \<in> set u"
      using value_options_user[OF Some[unfolded mu] v(2) "2.prems"(2)] .
    then show ?thesis
      using "2.IH"(2)[OF h Some mu[symmetric] v(1) v(2) v(3)] by simp
  qed
qed

text \<open>The command line of the event filter. Whatever the parser accepts is usable: at
  least one event, a filter header exactly when there is a filter value, a user with a domain. Every such
  setting can be written as a command line, in short options, that is parsed to exactly
  this setting; values may look like options.\<close>

theorem filter_args_exact:
  "(parse_args args = ArgsOk a \<longrightarrow> args_ok a) \<and> (args_ok a \<longrightarrow> parse_args (render_args a) = ArgsOk a)"
  using parse_args_ok[of args "args_default\<lparr>arg_events := []\<rparr>" a] parse_render[of a]
  by (auto simp: parse_args_def args_default_def)

theorem filter_args_exact_witness:
  "parse_args (render_args (args_default\<lparr>arg_filter_header := Some ''-e'', arg_filter_value := Some ''x''\<rparr>))
     = ArgsOk (args_default\<lparr>arg_filter_header := Some ''-e'', arg_filter_value := Some ''x''\<rparr>)"
  using filter_args_exact[of "[]" "args_default\<lparr>arg_filter_header := Some ''-e'', arg_filter_value := Some ''x''\<rparr>"]
  by (simp add: args_ok_def args_default_def)

end
