(* ===== verification/Esl_Listener.thy ===== *)
theory Esl_Listener
  imports Esl_Session
begin

text \<open>
  The event listener of \<open>src/examples/event_listener.rs\<close>: the calls it keeps, what it logs for an
  event, and its loop. An \<open>Instant\<close> is a number of nanoseconds of the monotonic clock; every event
  comes with the two readings the code may take for it, the first by \<open>Instant::now()\<close>, the second
  by \<open>elapsed()\<close>. A log line is the values it prints; the lines of level \<open>debug\<close> are left out, except
  the result of a background job.
\<close>

section \<open>State\<close>

record CallInfo =
  ci_caller_id :: string
  start_time :: nat
  answered_time :: "nat option"

datatype log_line =
    NewCall string string string
  | CallAnswered string nat
  | CallEnded string string "nat option"
  | DtmfPressed string string
  | HeartbeatSessions string
  | JobCompleted string
  | JobResult string

type_synonym call_table = "(string, CallInfo) fmap"

text \<open>\<open>elapsed\<close> of an instant: the difference, zero if the clock is behind it.\<close>

definition elapsed :: "nat \<Rightarrow> nat \<Rightarrow> nat" where
  "elapsed clock t = clock - t"

section \<open>Operations\<close>

definition listener_create :: "nat \<Rightarrow> EslEvent \<Rightarrow> call_table \<Rightarrow> call_table \<times> log_line list" where
  "listener_create now ev calls =
     (case unique_id ev of
        None \<Rightarrow> (calls, [])
      | Some uuid \<Rightarrow>
          (let caller_id = (case caller_id_number ev of Some c \<Rightarrow> c | None \<Rightarrow> ''Unknown'');
               destination = (case header ev ''Caller-Destination-Number'' of Some d \<Rightarrow> d | None \<Rightarrow> ''Unknown'');
               direction = (case call_direction ev of Some d \<Rightarrow> call_direction_display d | None \<Rightarrow> ''Unknown'')
           in (fmupd uuid \<lparr>ci_caller_id = caller_id, start_time = now, answered_time = None\<rparr> calls,
               [NewCall caller_id destination direction])))"

definition listener_answer :: "nat \<Rightarrow> nat \<Rightarrow> EslEvent \<Rightarrow> call_table \<Rightarrow> call_table \<times> log_line list" where
  "listener_answer now later ev calls =
     (case unique_id ev of
        None \<Rightarrow> (calls, [])
      | Some uuid \<Rightarrow>
          (case fmlookup calls uuid of
             None \<Rightarrow> (calls, [])
           | Some ci \<Rightarrow>
               (fmupd uuid (ci\<lparr>answered_time := Some now\<rparr>) calls,
                [CallAnswered (ci_caller_id ci) (elapsed later (start_time ci))])))"

definition listener_hangup :: "nat \<Rightarrow> EslEvent \<Rightarrow> call_table \<Rightarrow> log_line list" where
  "listener_hangup later ev calls =
     (case unique_id ev of
        None \<Rightarrow> []
      | Some uuid \<Rightarrow>
          (case fmlookup calls uuid of
             None \<Rightarrow> []
           | Some ci \<Rightarrow>
               [CallEnded (ci_caller_id ci)
                  (case hangup_cause ev of Some c \<Rightarrow> c | None \<Rightarrow> ''UNKNOWN'')
                  (map_option (elapsed later) (answered_time ci))]))"

definition listener_event :: "nat \<Rightarrow> nat \<Rightarrow> EslEvent \<Rightarrow> call_table \<Rightarrow> call_table \<times> log_line list" where
  "listener_event now later ev calls =
     (if event_type ev = Some ChannelCreate then listener_create now ev calls
      else if event_type ev = Some ChannelAnswer then listener_answer now later ev calls
      else if event_type ev = Some ChannelHangup then (calls, listener_hangup later ev calls)
      else if event_type ev = Some ChannelHangupComplete then
        (case unique_id ev of Some uuid \<Rightarrow> fmdrop uuid calls | None \<Rightarrow> calls, [])
      else if event_type ev = Some Dtmf then
        (calls,
         case (unique_id ev, header ev ''DTMF-Digit'') of
           (Some uuid, Some digit) \<Rightarrow> [DtmfPressed uuid digit]
         | _ \<Rightarrow> [])
      else if event_type ev = Some HeartbeatEvent then
        (calls, case header ev ''Session-Count'' of Some n \<Rightarrow> [HeartbeatSessions n] | None \<Rightarrow> [])
      else if event_type ev = Some BackgroundJob then
        (calls,
         case job_uuid ev of
           Some j \<Rightarrow> JobCompleted j # (case ev_body ev of Some b \<Rightarrow> [JobResult (trim b)] | None \<Rightarrow> [])
         | None \<Rightarrow> [])
      else (calls, []))"

text \<open>The loop of \<open>main\<close> over the items of the stream; the counter is a \<open>u64\<close> that wraps.\<close>

record listener =
  active_calls :: call_table
  event_count :: u64

definition listener_init :: listener where
  "listener_init = \<lparr>active_calls = fmempty, event_count = 0\<rparr>"

type_synonym timed_item = "event_item \<times> nat \<times> nat"

fun listener_step :: "timed_item \<Rightarrow> listener \<Rightarrow> listener \<times> log_line list" where
  "listener_step (Inl _, _, _) l = (l, [])"
| "listener_step (Inr ev, now, later) l =
     (case listener_event now later ev (active_calls l) of
        (calls, logged) \<Rightarrow> (l\<lparr>active_calls := calls, event_count := event_count l + 1\<rparr>, logged))"

fun listener_loop :: "timed_item list \<Rightarrow> listener \<Rightarrow> listener \<times> log_line list" where
  "listener_loop [] l = (l, [])"
| "listener_loop (i # is) l =
     (case listener_step i l of (l1, logged) \<Rightarrow>
        case listener_loop is l1 of (l2, logged') \<Rightarrow> (l2, logged @ logged'))"

text \<open>After a successful connect: the subscription, the loop, and the result of \<open>disconnect\<close>.\<close>

definition listener_events :: "EslEventType list" where
  "listener_events =
     [ChannelCreate, ChannelAnswer, ChannelHangup, ChannelHangupComplete, Dtmf, HeartbeatEvent, BackgroundJob]"

definition listener_run :: "timed_item list \<Rightarrow> string option \<Rightarrow> session
    \<Rightarrow> (unit EslResult \<times> log_line list) \<times> session" where
  "listener_run items shutdown_error s =
     (case do_subscribe Plain listener_events s of
        (Inl e, s1) \<Rightarrow> ((Inl e, []), s1)
      | (Inr _, s1) \<Rightarrow> ((disconnect shutdown_error, snd (listener_loop items listener_init)), s1))"

section \<open>What the calls say\<close>

text \<open>An item that is an event of the given type for the given channel.\<close>

definition item_for :: "EslEventType \<Rightarrow> string \<Rightarrow> timed_item \<Rightarrow> bool" where
  "item_for t u i =
     (case fst i of Inl _ \<Rightarrow> False | Inr ev \<Rightarrow> event_type ev = Some t \<and> unique_id ev = Some u)"

definition begins_or_ends :: "string \<Rightarrow> timed_item \<Rightarrow> bool" where
  "begins_or_ends u i = (item_for ChannelCreate u i \<or> item_for ChannelHangupComplete u i)"

definition caller_of :: "timed_item \<Rightarrow> string" where
  "caller_of i =
     (case fst i of
        Inl _ \<Rightarrow> ''Unknown''
      | Inr ev \<Rightarrow> (case caller_id_number ev of Some c \<Rightarrow> c | None \<Rightarrow> ''Unknown''))"

text \<open>The call of a channel according to the items seen: of the last item that begins or ends it and,
  for the answer, of the last one after that. The items are given latest first.\<close>

definition call_of :: "string \<Rightarrow> timed_item list \<Rightarrow> CallInfo option" where
  "call_of u latest_first =
     (case dropWhile (\<lambda>i. \<not> begins_or_ends u i) latest_first of
        [] \<Rightarrow> None
      | i # _ \<Rightarrow>
          if item_for ChannelCreate u i then
            Some \<lparr>ci_caller_id = caller_of i, start_time = fst (snd i),
                  answered_time =
                    map_option (\<lambda>a. fst (snd a))
                      (find (item_for ChannelAnswer u) (takeWhile (\<lambda>i. \<not> begins_or_ends u i) latest_first))\<rparr>
          else None)"

lemma listener_step_parts:
  "fst (listener_step (Inl e, now, later) l) = l"
  "fst (listener_step (Inr ev, now, later) l) =
     l\<lparr>active_calls := fst (listener_event now later ev (active_calls l)), event_count := event_count l + 1\<rparr>"
  "snd (listener_step (Inr ev, now, later) l) = snd (listener_event now later ev (active_calls l))"
  by (simp_all split: prod.splits)

lemma listener_loop_fst:
  "fst (listener_loop [] l) = l"
  "fst (listener_loop (i # is) l) = fst (listener_loop is (fst (listener_step i l)))"
  by (simp_all split: prod.splits)

lemma listener_loop_snoc:
  "fst (listener_loop (is @ [i]) l) = fst (listener_step i (fst (listener_loop is l)))"
  by (induction "is" arbitrary: l) (simp_all add: listener_loop_fst del: listener_loop.simps)

lemma item_for_simps [simp]:
  "\<not> item_for t u (Inl e, now, later)"
  "item_for t u (Inr ev, now, later) \<longleftrightarrow> event_type ev = Some t \<and> unique_id ev = Some u"
  by (simp_all add: item_for_def)

lemma call_of_Cons:
  "call_of u (i # is) =
     (if begins_or_ends u i then
        (if item_for ChannelCreate u i then
           Some \<lparr>ci_caller_id = caller_of i, start_time = fst (snd i), answered_time = None\<rparr> else None)
      else if item_for ChannelAnswer u i then
        map_option (\<lambda>ci. ci\<lparr>answered_time := Some (fst (snd i))\<rparr>) (call_of u is)
      else call_of u is)"
  by (cases "dropWhile (\<lambda>i. \<not> begins_or_ends u i) is")
    (auto simp: call_of_def simp del: dropWhile_eq_Nil_conv)

text \<open>One event changes the entry of a channel as one more item changes \<open>call_of\<close>.\<close>

lemma listener_event_lookup:
  assumes "fmlookup calls u = call_of u is"
  shows "fmlookup (fst (listener_event now later ev calls)) u = call_of u ((Inr ev, now, later) # is)"
  using assms
  by (auto simp: listener_event_def listener_create_def listener_answer_def call_of_Cons begins_or_ends_def
      caller_of_def Let_def split: option.splits)

lemma listener_calls: "fmlookup (active_calls (fst (listener_loop is listener_init))) u = call_of u (rev is)"
proof (induction "is" rule: rev_induct)
  case Nil
  then show ?case by (simp add: listener_init_def call_of_def)
next
  case (snoc i "is")
  obtain x now later where i: "i = (x, now, later)" by (cases i)
  show ?case
  proof (cases x)
    case (Inl e)
    then show ?thesis
      using snoc i by (simp add: listener_loop_snoc call_of_Cons begins_or_ends_def)
  next
    case (Inr ev)
    show ?thesis
      using listener_event_lookup[OF snoc, of now later ev] i Inr
      by (simp add: listener_loop_snoc listener_step_parts del: listener_step.simps)
  qed
qed

lemma listener_count:
  "event_count (fst (listener_loop is l))
     = event_count l + of_nat (length (filter (\<lambda>i. is_ok (fst i)) is))"
proof (induction "is" arbitrary: l)
  case (Cons i "is")
  obtain x now later where "i = (x, now, later)" by (cases i)
  with Cons show ?case
    by (cases x) (simp_all add: listener_loop_fst listener_step_parts del: listener_step.simps listener_loop.simps)
qed simp

text \<open>C31. The listener's calls are exactly the calls of the stream. After any items, in any order, the
  entry of a channel is the one of its last creation that no completed hangup followed: the caller
  and the time of that creation, answered at the time of the last answer after it; events of other
  channels, of channels never created, and failed items change nothing. The line of a hangup
  reports this caller and the time since this answer.\<close>

theorem listener_calls_exact:
  "fmlookup (active_calls (fst (listener_loop is listener_init))) u = call_of u (rev is)
   \<and> event_count (fst (listener_loop is listener_init)) = of_nat (length (filter (\<lambda>i. is_ok (fst i)) is))
   \<and> (item_for ChannelHangup u (Inr ev, now, later) \<longrightarrow>
        snd (listener_step (Inr ev, now, later) (fst (listener_loop is listener_init)))
          = (case call_of u (rev is) of
               None \<Rightarrow> []
             | Some ci \<Rightarrow>
                 [CallEnded (ci_caller_id ci)
                    (case hangup_cause ev of Some c \<Rightarrow> c | None \<Rightarrow> ''UNKNOWN'')
                    (map_option (\<lambda>t. later - t) (answered_time ci))]))"
proof -
  have "map_option (elapsed later) x = map_option (\<lambda>t. later - t) x" for x
    by (cases x) (simp_all add: elapsed_def)
  then show ?thesis
    using listener_calls[of "is" u] listener_count[of "is" listener_init]
    by (auto simp: listener_event_def listener_hangup_def listener_init_def listener_step_parts
        simp del: listener_step.simps split: option.splits)
qed

definition sample_item :: "EslEventType \<Rightarrow> nat \<Rightarrow> timed_item" where
  "sample_item t now = (Inr (set_header (with_type t) ''Unique-ID'' ''a''), now, now + 1)"

theorem listener_calls_exact_witness:
  "snd (listener_step (sample_item ChannelHangup 90)
      (fst (listener_loop [sample_item ChannelCreate 10, sample_item ChannelAnswer 30] listener_init)))
    = [CallEnded ''Unknown'' ''UNKNOWN'' (Some 61)]"
proof -
  have id: "unique_id (set_header (with_type t) ''Unique-ID'' ''a'') = Some ''a''" for t
    by (simp add: unique_id_def HEADER_UNIQUE_ID_def)
  then show ?thesis
    using listener_calls_exact[of "[sample_item ChannelCreate 10, sample_item ChannelAnswer 30]" "''a''"
        "set_header (with_type ChannelHangup) ''Unique-ID'' ''a''" 90 91]
    by (simp add: sample_item_def call_of_Cons begins_or_ends_def caller_of_def with_type_def set_header_def
        caller_id_number_def hangup_cause_def header_def call_of_def
        del: listener_step.simps listener_loop.simps)
qed

end
