(* ===== verification/Esl_Api_Commands.thy ===== *)
theory Esl_Api_Commands
  imports Esl_Command
begin

text \<open>
  The builders of \<open>api\<close> command texts (\<open>src/src/commands/channel.rs\<close>,
  \<open>src/src/commands/conference.rs\<close>) and the constructors of application commands
  (\<open>src/src/app/dptools.rs\<close>). Each builder is a record with its \<open>Display\<close> text.
\<close>

section \<open>Channel commands\<close>

record UuidAnswer = ua_uuid :: string

definition uuid_answer_display :: "UuidAnswer \<Rightarrow> string" where
  "uuid_answer_display x = ''uuid_answer '' @ ua_uuid x"

record UuidBridge = ub_uuid :: string ub_other :: string

definition uuid_bridge_display :: "UuidBridge \<Rightarrow> string" where
  "uuid_bridge_display x = ''uuid_bridge '' @ ub_uuid x @ '' '' @ ub_other x"

record UuidDeflect = ud_uuid :: string ud_uri :: string

definition uuid_deflect_display :: "UuidDeflect \<Rightarrow> string" where
  "uuid_deflect_display x = ''uuid_deflect '' @ ud_uuid x @ '' '' @ ud_uri x"

record UuidHold = uh_uuid :: string uh_off :: bool

definition uuid_hold_display :: "UuidHold \<Rightarrow> string" where
  "uuid_hold_display x =
     (if uh_off x then ''uuid_hold off '' @ uh_uuid x else ''uuid_hold '' @ uh_uuid x)"

record UuidKill = uk_uuid :: string uk_cause :: "string option"

definition uuid_kill_display :: "UuidKill \<Rightarrow> string" where
  "uuid_kill_display x =
     ''uuid_kill '' @ uk_uuid x @ (case uk_cause x of Some c \<Rightarrow> '' '' @ c | None \<Rightarrow> [])"

record UuidGetVar = ug_uuid :: string ug_key :: string

definition uuid_getvar_display :: "UuidGetVar \<Rightarrow> string" where
  "uuid_getvar_display x = ''uuid_getvar '' @ ug_uuid x @ '' '' @ ug_key x"

record UuidSetVar = us_uuid :: string us_key :: string us_value :: string

definition uuid_setvar_display :: "UuidSetVar \<Rightarrow> string" where
  "uuid_setvar_display x = ''uuid_setvar '' @ us_uuid x @ '' '' @ us_key x @ '' '' @ us_value x"

record UuidTransfer = ut_uuid :: string ut_destination :: string ut_dialplan :: "string option"

definition uuid_transfer_display :: "UuidTransfer \<Rightarrow> string" where
  "uuid_transfer_display x =
     ''uuid_transfer '' @ ut_uuid x @ '' '' @ ut_destination x
       @ (case ut_dialplan x of Some d \<Rightarrow> '' '' @ d | None \<Rightarrow> [])"

record UuidSendDtmf = uf_uuid :: string uf_dtmf :: string

definition uuid_send_dtmf_display :: "UuidSendDtmf \<Rightarrow> string" where
  "uuid_send_dtmf_display x = ''uuid_send_dtmf '' @ uf_uuid x @ '' '' @ uf_dtmf x"

section \<open>Conference commands\<close>

datatype MuteAction = Mute | Unmute

fun mute_action_display :: "MuteAction \<Rightarrow> string" where
  "mute_action_display Mute = ''mute''"
| "mute_action_display Unmute = ''unmute''"

record ConferenceMute = cm_name :: string cm_action :: MuteAction cm_member_id :: string

definition conference_mute_display :: "ConferenceMute \<Rightarrow> string" where
  "conference_mute_display x =
     ''conference '' @ cm_name x @ '' '' @ mute_action_display (cm_action x) @ '' '' @ cm_member_id x"

datatype HoldAction = Hold | Unhold

fun hold_action_display :: "HoldAction \<Rightarrow> string" where
  "hold_action_display Hold = ''hold''"
| "hold_action_display Unhold = ''unhold''"

record ConferenceHold =
  ch_name :: string
  ch_action :: HoldAction
  ch_member :: string
  ch_stream :: "string option"

definition conference_hold_display :: "ConferenceHold \<Rightarrow> string" where
  "conference_hold_display x =
     ''conference '' @ ch_name x @ '' '' @ hold_action_display (ch_action x) @ '' '' @ ch_member x
       @ (case ch_stream x of Some s \<Rightarrow> '' '' @ s | None \<Rightarrow> [])"

record ConferenceDtmf = cd_name :: string cd_member :: string cd_dtmf :: string

definition conference_dtmf_display :: "ConferenceDtmf \<Rightarrow> string" where
  "conference_dtmf_display x =
     ''conference '' @ cd_name x @ '' dtmf '' @ cd_member x @ '' '' @ cd_dtmf x"

section \<open>Application commands\<close>

definition app_answer :: EslCommand where
  "app_answer = Execute ''answer'' None None"

definition app_hangup :: "string option \<Rightarrow> EslCommand" where
  "app_hangup cause = Execute ''hangup'' cause None"

definition app_playback :: "string \<Rightarrow> EslCommand" where
  "app_playback file = Execute ''playback'' (Some file) None"

definition app_bridge :: "string \<Rightarrow> EslCommand" where
  "app_bridge destination = Execute ''bridge'' (Some destination) None"

definition app_set_var :: "string \<Rightarrow> string \<Rightarrow> EslCommand" where
  "app_set_var name v = Execute ''set'' (Some (name @ ''='' @ v)) None"

definition app_park :: EslCommand where
  "app_park = Execute ''park'' None None"

definition app_transfer :: "string \<Rightarrow> string option \<Rightarrow> string option \<Rightarrow> EslCommand" where
  "app_transfer extension dp ctx =
     (let args = extension
        @ (case dp of Some d \<Rightarrow> '' '' @ d | None \<Rightarrow> [])
        @ (case ctx of Some c \<Rightarrow> '' '' @ c | None \<Rightarrow> [])
      in Execute ''transfer'' (Some args) None)"

section \<open>Commands are not confused\<close>

text \<open>All the builders, their texts, and the condition on their words: every argument that is not the
  last is without spaces. The last may be any text.\<close>

datatype api_builder =
    BAnswer UuidAnswer
  | BBridge UuidBridge
  | BDeflect UuidDeflect
  | BHold UuidHold
  | BKill UuidKill
  | BGetVar UuidGetVar
  | BSetVar UuidSetVar
  | BTransfer UuidTransfer
  | BSendDtmf UuidSendDtmf
  | BConfMute ConferenceMute
  | BConfHold ConferenceHold
  | BConfDtmf ConferenceDtmf

text \<open>The words of a command: those before the last argument, and the last one.\<close>

definition opt_last :: "string list \<Rightarrow> string \<Rightarrow> string option \<Rightarrow> string list \<times> string" where
  "opt_last ws w o1 = (case o1 of Some x \<Rightarrow> (ws @ [w], x) | None \<Rightarrow> (ws, w))"

fun builder_words :: "api_builder \<Rightarrow> string list \<times> string" where
  "builder_words (BAnswer x) = ([''uuid_answer''], ua_uuid x)"
| "builder_words (BBridge x) = ([''uuid_bridge'', ub_uuid x], ub_other x)"
| "builder_words (BDeflect x) = ([''uuid_deflect'', ud_uuid x], ud_uri x)"
| "builder_words (BHold x) = ([''uuid_hold''] @ (if uh_off x then [''off''] else []), uh_uuid x)"
| "builder_words (BKill x) = opt_last [''uuid_kill''] (uk_uuid x) (uk_cause x)"
| "builder_words (BGetVar x) = ([''uuid_getvar'', ug_uuid x], ug_key x)"
| "builder_words (BSetVar x) = ([''uuid_setvar'', us_uuid x, us_key x], us_value x)"
| "builder_words (BTransfer x) = opt_last [''uuid_transfer'', ut_uuid x] (ut_destination x) (ut_dialplan x)"
| "builder_words (BSendDtmf x) = ([''uuid_send_dtmf'', uf_uuid x], uf_dtmf x)"
| "builder_words (BConfMute x) =
     ([''conference'', cm_name x, mute_action_display (cm_action x)], cm_member_id x)"
| "builder_words (BConfHold x) =
     opt_last [''conference'', ch_name x, hold_action_display (ch_action x)] (ch_member x) (ch_stream x)"
| "builder_words (BConfDtmf x) = ([''conference'', cd_name x, ''dtmf'', cd_member x], cd_dtmf x)"

fun builder_text :: "api_builder \<Rightarrow> string" where
  "builder_text (BAnswer x) = uuid_answer_display x"
| "builder_text (BBridge x) = uuid_bridge_display x"
| "builder_text (BDeflect x) = uuid_deflect_display x"
| "builder_text (BHold x) = uuid_hold_display x"
| "builder_text (BKill x) = uuid_kill_display x"
| "builder_text (BGetVar x) = uuid_getvar_display x"
| "builder_text (BSetVar x) = uuid_setvar_display x"
| "builder_text (BTransfer x) = uuid_transfer_display x"
| "builder_text (BSendDtmf x) = uuid_send_dtmf_display x"
| "builder_text (BConfMute x) = conference_mute_display x"
| "builder_text (BConfHold x) = conference_hold_display x"
| "builder_text (BConfDtmf x) = conference_dtmf_display x"

text \<open>An argument before an optional last one must be a word even when the last is missing.\<close>

fun builder_ok :: "api_builder \<Rightarrow> bool" where
  "builder_ok (BHold x) = (SP \<notin> set (uh_uuid x))"
| "builder_ok (BKill x) = (SP \<notin> set (uk_uuid x))"
| "builder_ok (BTransfer x) = (SP \<notin> set (ut_uuid x) \<and> SP \<notin> set (ut_destination x))"
| "builder_ok (BConfHold x) = (SP \<notin> set (ch_name x) \<and> SP \<notin> set (ch_member x))"
| "builder_ok b = (\<forall>w \<in> set (fst (builder_words b)). SP \<notin> set w)"

definition text_of :: "string list \<times> string \<Rightarrow> string" where
  "text_of wl = concat (map (\<lambda>w. w @ [SP]) (fst wl)) @ snd wl"

lemma builder_text_words: "builder_text b = text_of (builder_words b)"
  by (cases b)
    (simp_all add: text_of_def opt_last_def uuid_answer_display_def uuid_bridge_display_def
      uuid_deflect_display_def uuid_hold_display_def uuid_kill_display_def uuid_getvar_display_def
      uuid_setvar_display_def uuid_transfer_display_def uuid_send_dtmf_display_def
      conference_mute_display_def conference_hold_display_def conference_dtmf_display_def
      split: option.split)

lemma text_of_inj:
  assumes "text_of (ws, l) = text_of (vs, m)" "length ws = length vs"
    "\<forall>w \<in> set ws \<union> set vs. SP \<notin> set w"
  shows "ws = vs \<and> l = m"
  using assms
proof (induction ws arbitrary: vs)
  case (Cons w ws)
  then obtain v us where vs: "vs = v # us" by (cases vs) auto
  with Cons.prems have "w @ SP # text_of (ws, l) = v @ SP # text_of (us, m)"
    by (simp add: text_of_def)
  then have "w = v \<and> text_of (ws, l) = text_of (us, m)"
    using Cons.prems vs by (intro append_eq_append_notin) auto
  with Cons vs show ?case by simp
qed (simp add: text_of_def)

lemma text_of_shorter:
  assumes "text_of (ws, l) = text_of (vs, m)" "length ws < length vs"
    "\<forall>w \<in> set ws \<union> set vs. SP \<notin> set w"
  shows "SP \<in> set l \<and> ws = take (length ws) vs"
  using assms
proof (induction ws arbitrary: vs)
  case Nil
  then show ?case by (cases vs) (auto simp: text_of_def)
next
  case (Cons w ws)
  then obtain v us where vs: "vs = v # us" by (cases vs) auto
  with Cons.prems have "w @ SP # text_of (ws, l) = v @ SP # text_of (us, m)"
    by (simp add: text_of_def)
  then have "w = v \<and> text_of (ws, l) = text_of (us, m)"
    using Cons.prems vs by (intro append_eq_append_notin) auto
  with Cons vs show ?case by simp
qed

lemma action_words [simp]:
  "SP \<notin> set (mute_action_display a)"
  "SP \<notin> set (hold_action_display h)"
  by (cases a; simp) (cases h; simp)

lemma action_display_inj [simp]:
  "mute_action_display a = mute_action_display a' \<longleftrightarrow> a = a'"
  "hold_action_display h = hold_action_display h' \<longleftrightarrow> h = h'"
  by (cases a; cases a'; simp) (cases h; cases h'; simp)

lemma action_display_differ [simp]:
  "mute_action_display a \<noteq> hold_action_display h"
  "mute_action_display a \<noteq> ''dtmf''"
  "hold_action_display h \<noteq> ''dtmf''"
  by (cases a; cases h; simp)+

lemmas action_display_differ_sym [simp] = action_display_differ [symmetric]

lemma builder_ok_words: "builder_ok b \<Longrightarrow> \<forall>w \<in> set (fst (builder_words b)). SP \<notin> set w"
  by (cases b) (auto simp: opt_last_def split: option.splits)

text \<open>The words before the last argument of one command are an initial part of those of
  another only where the last argument of the first is a word.\<close>

lemma builder_words_not_prefix:
  assumes "builder_ok a" "builder_words a = (ws, l)" "builder_words b = (vs, m)"
    "length ws < length vs" "ws = take (length ws) vs"
  shows "SP \<notin> set l"
  using assms
  by (cases a; cases b) (auto simp: opt_last_def split: option.splits if_splits)

lemma builder_words_inj: "builder_words a = builder_words b \<Longrightarrow> a = b"
  by (cases a; cases b) (auto simp: opt_last_def split: option.splits if_splits)

text \<open>API commands are not confused. Two commands built from arguments that are words (the last
  argument, where it is not one that may be left out, can be any text) have the same text
  only if they are the same command with the same arguments: the optional parts
  (hangup cause, dialplan, stream, \<open>off\<close>) and the sub-commands of \<open>conference\<close> never make
  one command read as another.\<close>

theorem api_commands_not_confused:
  assumes "builder_ok a" "builder_ok b"
  shows "builder_text a = builder_text b \<longleftrightarrow> a = b"
proof
  assume "builder_text a = builder_text b"
  then have t: "text_of (builder_words a) = text_of (builder_words b)"
    by (simp add: builder_text_words)
  obtain ws l vs m where w: "builder_words a = (ws, l)" "builder_words b = (vs, m)"
    by (cases "builder_words a"; cases "builder_words b") blast
  have sp: "\<forall>w \<in> set ws \<union> set vs. SP \<notin> set w" "\<forall>w \<in> set vs \<union> set ws. SP \<notin> set w"
    using builder_ok_words[OF assms(1)] builder_ok_words[OF assms(2)] w by auto
  have "\<not> length ws < length vs" "\<not> length vs < length ws"
    using text_of_shorter[of ws l vs m] text_of_shorter[of vs m ws l] t sp w
      builder_words_not_prefix[OF assms(1) w] builder_words_not_prefix[OF assms(2) w(2,1)] by auto
  then have "ws = vs \<and> l = m"
    using text_of_inj[of ws l vs m] t sp w by simp
  then show "a = b"
    using builder_words_inj[of a b] w by simp
qed simp

theorem api_commands_not_confused_witness:
  "builder_text (BHold \<lparr>uh_uuid = ''off'', uh_off = False\<rparr>)
     \<noteq> builder_text (BHold \<lparr>uh_uuid = [], uh_off = True\<rparr>)
   \<and> builder_text (BSetVar \<lparr>us_uuid = ''u1'', us_key = ''k'', us_value = ''a b''\<rparr>)
     = builder_text (BSetVar \<lparr>us_uuid = ''u1'', us_key = ''k'', us_value = ''a b''\<rparr>)"
  using api_commands_not_confused[of "BHold \<lparr>uh_uuid = ''off'', uh_off = False\<rparr>"
      "BHold \<lparr>uh_uuid = [], uh_off = True\<rparr>"]
    api_commands_not_confused[of "BSetVar \<lparr>us_uuid = ''u1'', us_key = ''k'', us_value = ''a b''\<rparr>"
      "BSetVar \<lparr>us_uuid = ''u1'', us_key = ''k'', us_value = ''a b''\<rparr>"]
  by simp

end
