(* ===== verification/Esl_Outbound.thy ===== *)
theory Esl_Outbound
  imports Esl_Api_Commands Esl_Session
begin

text \<open>
  The call handler of \<open>src/examples/outbound_server.rs\<close>: the session it runs on one outbound
  connection. The event stream is the list of the items \<open>recv\<close> returns before it returns \<open>None\<close>;
  log lines are left out.
\<close>

section \<open>The call\<close>

definition hold_sound :: string where "hold_sound = ''ivr/ivr-hold_connect_call.wav''"
definition prompt_sound :: string where
  "prompt_sound = ''ivr/ivr-please_enter_extension_followed_by_pound.wav''"

definition play_then :: "string \<Rightarrow> EslCommand \<Rightarrow> session \<Rightarrow> unit EslResult \<times> session" where
  "play_then file cmd s =
     and_then (do_command (app_playback file) s) (\<lambda>_ s1.
       and_then (do_command cmd s1) (\<lambda>_ s2. (Inr (), s2)))"

definition handle_dtmf_input :: "string \<Rightarrow> session \<Rightarrow> unit EslResult \<times> session" where
  "handle_dtmf_input input s =
     (if input \<in> {''1000'', ''1001'', ''1002'', ''1003''} then
        play_then hold_sound (app_transfer input None None) s
      else if input = ''0'' then play_then hold_sound (app_transfer ''operator'' None None) s
      else if input = ''9'' then
        play_then ''voicemail/vm-goodbye.wav'' (app_hangup (Some ''NORMAL_CLEARING'')) s
      else if input = '''' then
        and_then (do_command (app_playback prompt_sound) s) (\<lambda>_ s1. (Inr (), s1))
      else play_then ''ivr/ivr-that_was_an_invalid_entry.wav'' (app_playback prompt_sound) s)"

text \<open>The first loop: \<open>None\<close> when the call is hung up, otherwise the items left to the second loop
  (none when the stream ended).\<close>

fun wait_answer :: "event_item list \<Rightarrow> event_item list option" where
  "wait_answer [] = Some []"
| "wait_answer (Inl _ # is) = wait_answer is"
| "wait_answer (Inr ev # is) =
     (if event_type ev = Some ChannelAnswer then Some is
      else if event_type ev = Some ChannelHangup then None
      else wait_answer is)"

fun menu_loop :: "string \<Rightarrow> event_item list \<Rightarrow> session \<Rightarrow> unit EslResult \<times> session" where
  "menu_loop buf [] s = (Inr (), s)"
| "menu_loop buf (Inl _ # is) s = menu_loop buf is s"
| "menu_loop buf (Inr ev # is) s =
     (if event_type ev = Some ChannelHangup then (Inr (), s)
      else if event_type ev = Some PlaybackStop then
        and_then (do_command (app_playback prompt_sound) s) (\<lambda>_. menu_loop buf is)
      else if event_type ev = Some Dtmf then
        (case header ev ''DTMF-Digit'' of
           None \<Rightarrow> menu_loop buf is s
         | Some d \<Rightarrow>
             if d = ''#'' then and_then (handle_dtmf_input buf s) (\<lambda>_. menu_loop [] is)
             else menu_loop (buf @ d) is s)
      else menu_loop buf is s)"

definition call_events :: "EslEventType list" where
  "call_events = [ChannelAnswer, ChannelHangup, Dtmf, PlaybackStart, PlaybackStop]"

definition handle_call :: "event_item list \<Rightarrow> session \<Rightarrow> unit EslResult \<times> session" where
  "handle_call items s =
     and_then (do_connect s) (\<lambda>_ s1.
     and_then (do_subscribe Plain call_events s1) (\<lambda>_ s2.
     and_then (do_command app_answer s2) (\<lambda>_ s3.
       (case wait_answer items of
          None \<Rightarrow> (Inr (), s3)
        | Some rest \<Rightarrow>
            and_then (do_command (app_playback ''ivr/ivr-welcome.wav'') s3) (\<lambda>_. menu_loop [] rest)))))"

section \<open>What the call asks for\<close>

text \<open>The digits in a list of items, and what has been typed since the last \<open>#\<close>.\<close>

definition of_event :: "(EslEvent \<Rightarrow> 'a option) \<Rightarrow> event_item \<Rightarrow> 'a option" where
  "of_event f i = (case i of Inl _ \<Rightarrow> None | Inr ev \<Rightarrow> f ev)"

definition has_type :: "EslEventType \<Rightarrow> event_item \<Rightarrow> bool" where
  "has_type t i = (of_event event_type i = Some t)"

definition digit_of :: "event_item \<Rightarrow> string option" where
  "digit_of i = (if has_type Dtmf i then of_event (\<lambda>ev. header ev ''DTMF-Digit'') i else None)"

definition typed :: "event_item list \<Rightarrow> string" where
  "typed before = concat (rev (takeWhile (\<lambda>d. d \<noteq> ''#'') (rev (List.map_filter digit_of before))))"

definition menu_table :: "string \<Rightarrow> EslCommand list" where
  "menu_table entry =
     (case map_of
        ([(''0'', [app_playback hold_sound, app_transfer ''operator'' None None]),
          (''9'', [app_playback ''voicemail/vm-goodbye.wav'', app_hangup (Some ''NORMAL_CLEARING'')]),
          ('''', [app_playback prompt_sound])]
         @ map (\<lambda>e. (e, [app_playback hold_sound, app_transfer e None None]))
             [''1000'', ''1001'', ''1002'', ''1003'']) entry of
        Some cmds \<Rightarrow> cmds
      | None \<Rightarrow> [app_playback ''ivr/ivr-that_was_an_invalid_entry.wav'', app_playback prompt_sound])"

definition menu_reaction :: "event_item list \<Rightarrow> event_item \<Rightarrow> EslCommand list" where
  "menu_reaction before i =
     (if has_type PlaybackStop i then [app_playback prompt_sound]
      else if digit_of i = Some ''#'' then menu_table (typed before)
      else [])"

definition menu_plan :: "event_item list \<Rightarrow> EslCommand list" where
  "menu_plan items = concat (map (\<lambda>n. menu_reaction (take n items) (items ! n)) [0..<length items])"

definition call_plan :: "event_item list \<Rightarrow> request list" where
  "call_plan items =
     [AskConnect, AskEvents Plain call_events, AskCommand app_answer]
     @ (case dropWhile (\<lambda>i. \<not> has_type ChannelAnswer i \<and> \<not> has_type ChannelHangup i) items of
          [] \<Rightarrow> [AskCommand (app_playback ''ivr/ivr-welcome.wav'')]
        | i # rest \<Rightarrow>
            if has_type ChannelHangup i then []
            else map AskCommand
              (app_playback ''ivr/ivr-welcome.wav''
               # menu_plan (takeWhile (\<lambda>i. \<not> has_type ChannelHangup i) rest)))"

lemma play_then_plan: "play_then file cmd = run_plan [AskCommand (app_playback file), AskCommand cmd]"
  by (rule ext) (simp add: play_then_def plan_simps del: run_plan.simps)

lemma handle_dtmf_input_plan: "handle_dtmf_input entry s = run_plan (map AskCommand (menu_table entry)) s"
  by (simp add: handle_dtmf_input_def menu_table_def play_then_plan plan_simps del: run_plan.simps)

section \<open>The handler follows the plan\<close>

text \<open>The second loop, started after some items have been seen.\<close>

definition menu_plan_from :: "event_item list \<Rightarrow> event_item list \<Rightarrow> EslCommand list" where
  "menu_plan_from seen items =
     concat (map (\<lambda>n. menu_reaction (seen @ take n items) (items ! n)) [0..<length items])"

lemma menu_plan_from_simps:
  "menu_plan_from seen [] = []"
  "menu_plan_from seen (i # is) = menu_reaction seen i @ menu_plan_from (seen @ [i]) is"
proof -
  have "[0..<length (i # is)] = 0 # map Suc [0..<length is]"
    by (simp add: upt_conv_Cons map_Suc_upt del: upt_Suc)
  then show "menu_plan_from seen (i # is) = menu_reaction seen i @ menu_plan_from (seen @ [i]) is"
    by (simp add: menu_plan_from_def comp_def del: upt_Suc)
qed (simp add: menu_plan_from_def)

lemma map_filter_append: "List.map_filter f (xs @ ys) = List.map_filter f xs @ List.map_filter f ys"
  by (induction xs) (simp_all add: map_filter_simps split: option.splits)

lemma typed_snoc:
  "typed (seen @ [i]) =
     (case digit_of i of None \<Rightarrow> typed seen | Some d \<Rightarrow> if d = ''#'' then [] else typed seen @ d)"
  by (simp add: typed_def map_filter_append map_filter_simps split: option.splits)

lemma has_type_Inr [simp]: "has_type t (Inr ev) \<longleftrightarrow> event_type ev = Some t"
  and has_type_Inl [simp]: "\<not> has_type t (Inl e)"
  and digit_of_Inl [simp]: "digit_of (Inl e) = None"
  and digit_of_Inr: "digit_of (Inr ev) = (if event_type ev = Some Dtmf then header ev ''DTMF-Digit'' else None)"
  by (simp_all add: has_type_def of_event_def digit_of_def)

lemma menu_loop_plan:
  "menu_loop (typed seen) items =
     run_plan (map AskCommand (menu_plan_from seen (takeWhile (\<lambda>i. \<not> has_type ChannelHangup i) items)))"
proof (induction items arbitrary: seen)
  case Nil
  then show ?case by (simp add: fun_eq_iff menu_plan_from_simps)
next
  case (Cons i items)
  note ih = Cons.IH[of "seen @ [i]"]
  show ?case
  proof (cases i)
    case (Inl e)
    then show ?thesis
      using ih by (simp add: fun_eq_iff menu_plan_from_simps menu_reaction_def typed_snoc)
  next
    case (Inr ev)
    then show ?thesis
      using ih
      by (auto simp: fun_eq_iff[of "menu_loop b (x # y)" for b x y] menu_plan_from_simps menu_reaction_def
          typed_snoc digit_of_Inr plan_simps handle_dtmf_input_plan and_then_assoc
          simp del: run_plan.simps split: option.splits)
  qed
qed

lemma menu_plan_from_Nil: "menu_plan_from [] items = menu_plan items"
  by (simp add: menu_plan_from_def menu_plan_def)

lemma wait_answer_spec:
  "wait_answer items =
     (case dropWhile (\<lambda>i. \<not> has_type ChannelAnswer i \<and> \<not> has_type ChannelHangup i) items of
        [] \<Rightarrow> Some []
      | i # rest \<Rightarrow> if has_type ChannelHangup i then None else Some rest)"
  by (induction items rule: wait_answer.induct) auto

lemma typed_Nil [simp]: "typed [] = []"
  by (simp add: typed_def map_filter_simps)

lemma menu_plan_Nil [simp]: "menu_plan [] = []"
  by (simp add: menu_plan_def)

text \<open>The outbound call handler is its plan: whatever the events and the answers of the server, it
  makes the requests of \<open>call_plan\<close> in order up to the first that fails, whose error it returns. The
  plan says, by position, what each event leads to: nothing after a hangup, a prompt after each
  playback, and for each \<open>#\<close> the reaction to exactly the digits typed since the \<open>#\<close> before.\<close>

lemma handle_call_plan: "handle_call items s = run_plan (call_plan items) s"
proof -
  have menu: "menu_loop [] rest
      = run_plan (map AskCommand (menu_plan (takeWhile (\<lambda>i. \<not> has_type ChannelHangup i) rest)))" for rest
    using menu_loop_plan[of "[]" rest] by (simp add: menu_plan_from_Nil)
  let ?rest = "dropWhile (\<lambda>i. \<not> has_type ChannelAnswer i \<and> \<not> has_type ChannelHangup i) items"
  show ?thesis
    by (cases ?rest)
      (simp_all only: handle_call_def call_plan_def wait_answer_spec menu list.case option.case plan_simps
        append.simps list.map if_distrib takeWhile.simps menu_plan_Nil split: if_splits, simp_all)
qed

section \<open>What reaches the server\<close>

text \<open>The commands the handler can ask for.\<close>

definition call_sounds :: "string list" where
  "call_sounds =
     [hold_sound, prompt_sound, ''ivr/ivr-welcome.wav'', ''voicemail/vm-goodbye.wav'',
      ''ivr/ivr-that_was_an_invalid_entry.wav'']"

definition call_targets :: "string list" where
  "call_targets = [''1000'', ''1001'', ''1002'', ''1003'', ''operator'']"

definition call_commands :: "EslCommand list" where
  "call_commands =
     [app_answer, app_hangup (Some ''NORMAL_CLEARING'')] @ map app_playback call_sounds
     @ map (\<lambda>e. app_transfer e None None) call_targets"

lemma menu_table_commands: "set (menu_table entry) \<subseteq> set call_commands"
  by (auto simp: menu_table_def call_commands_def call_sounds_def call_targets_def)

lemma menu_plan_commands: "set (menu_plan items) \<subseteq> set call_commands"
  using menu_table_commands
  by (fastforce simp: menu_plan_def menu_reaction_def call_commands_def call_sounds_def split: if_splits)

lemma call_plan_commands: "AskCommand cmd \<in> set (call_plan items) \<Longrightarrow> cmd \<in> set call_commands"
  using menu_plan_commands
  by (auto simp: call_plan_def call_commands_def call_sounds_def split: list.splits if_splits)

text \<open>C30. What an outbound call asks of the server. The requests made are the first ones of the plan:
  all of them, each successful, when the handler returns without an error, otherwise all up to one that
  failed with the returned error, the ones before it successful. Every command among them is from a
  fixed list: whatever a caller types, the call is transferred only to the four extensions
  and the operator, and only the five sound files are played.\<close>

theorem outbound_requests_bounded:
  assumes "handle_call items s = (r, s')"
  shows "\<exists>n. ss_asked s' = ss_asked s @ take n (call_plan items) \<and> ran (call_plan items) s n r
     \<and> (\<forall>cmd. AskCommand cmd \<in> set (take n (call_plan items)) \<longrightarrow> cmd \<in> set call_commands)"
proof -
  obtain n where "snd (run_plan (call_plan items) s) = s\<lparr>ss_asked := ss_asked s @ take n (call_plan items)\<rparr>"
    "ran (call_plan items) s n (fst (run_plan (call_plan items) s))"
    using run_plan_ran by blast
  then show ?thesis
    using assms call_plan_commands by (intro exI[of _ n]) (auto simp: handle_call_plan dest: in_set_takeD)
qed

definition sample_digit :: "string \<Rightarrow> event_item" where
  "sample_digit d = Inr (set_header (with_type Dtmf) ''DTMF-Digit'' d)"

definition sample_call :: "event_item list" where
  "sample_call = [Inr (with_type ChannelAnswer), sample_digit ''9'', sample_digit ''#'',
     Inr (with_type ChannelHangup), sample_digit ''#'']"

lemma sample_call_plan:
  "call_plan sample_call =
     [AskConnect, AskEvents Plain call_events, AskCommand app_answer,
      AskCommand (app_playback ''ivr/ivr-welcome.wav''),
      AskCommand (app_playback ''voicemail/vm-goodbye.wav''),
      AskCommand (app_hangup (Some ''NORMAL_CLEARING''))]"
  by (simp add: call_plan_def sample_call_def menu_plan_def menu_reaction_def sample_digit_def with_type_def
      digit_of_Inr set_header_def header_def typed_def map_filter_simps menu_table_def)

lemma call_commands_clean: "list_all (\<lambda>c. list_all (\<lambda>t. \<not> has_newline t) (command_texts c)) call_commands"
  by code_simp

lemma sample_request_ok:
  assumes "q \<in> set (call_plan items)"
  shows "request_result q (sample_ctx ''+OK'') = Inr ()"
proof (cases q)
  case AskConnect
  then show ?thesis
    by (simp add: request_result_def connect_session_def sample_send_ok)
next
  case (AskEvents fmt types)
  then have "fmt = Plain" "types = call_events"
    using assms by (auto simp: call_plan_def split: list.splits if_splits)
  moreover have "\<forall>t \<in> set (command_texts (Events (event_format_display Plain) (event_types_to_string call_events))).
      \<not> has_newline t"
    by (simp add: event_types_to_string_def call_events_def has_newline_def)
  ultimately show ?thesis
    using AskEvents by (simp add: request_result_def subscribe_events_def call_events_def send_command_ok_def
        sample_send_ok sample_into_result)
next
  case (AskCommand cmd)
  then have "cmd \<in> set call_commands"
    using assms call_plan_commands by blast
  then show ?thesis
    using call_commands_clean AskCommand by (simp add: request_result_def list_all_iff sample_send_ok)
qed

theorem outbound_requests_bounded_witness:
  "\<exists>s'. handle_call sample_call sample_session = (Inr (), s') \<and> ss_asked s' =
     [AskConnect, AskEvents Plain call_events, AskCommand app_answer,
      AskCommand (app_playback ''ivr/ivr-welcome.wav''),
      AskCommand (app_playback ''voicemail/vm-goodbye.wav''),
      AskCommand (app_hangup (Some ''NORMAL_CLEARING''))]"
proof -
  obtain r s' where h: "handle_call sample_call sample_session = (r, s')" by fastforce
  from outbound_requests_bounded[OF h] obtain n where
    n: "ss_asked s' = take n (call_plan sample_call)" "ran (call_plan sample_call) sample_session n r"
    by (auto simp: sample_session_def)
  have "request_result (call_plan sample_call ! k) (sample_ctx ''+OK'') = Inr ()"
    if "k < length (call_plan sample_call)" for k
    using that by (intro sample_request_ok[of _ sample_call] nth_mem)
  then have "r = Inr () \<and> n = length (call_plan sample_call)"
    using n(2) by (cases r) (auto simp: ran_def sample_session_def)
  then show ?thesis using h n(1) by (simp add: sample_call_plan)
qed

end
