(* ===== verification/Esl_Variables.thy ===== *)
theory Esl_Variables
  imports Esl_Error Codec "HOL-Library.AList"
begin

text \<open>
  \<open>Variables\<close> of \<open>src/src/commands/originate.rs\<close>: the variable block of an originate command, its
  escaping, its \<open>Display\<close> and its \<open>FromStr\<close>. The \<open>IndexMap\<close> is the list of its entries in insertion
  order, with distinct keys; inserting is \<open>AList.update\<close>, which replaces in place or appends.
\<close>

datatype VariablesType = Enterprise | Default | Channel

fun delimiters :: "VariablesType \<Rightarrow> char \<times> char" where
  "delimiters Enterprise = (CHR ''<'', CHR ''>'')"
| "delimiters Default = (CHR ''{'', CHR ''}'')"
| "delimiters Channel = (CHR ''['', CHR '']'')"

record Variables =
  vars_type :: VariablesType
  vars_inner :: "(string \<times> string) list"

definition escape_value :: "string \<Rightarrow> string" where
  "escape_value v =
     (let escaped = replace_char COMMA [BSLASH, COMMA] (replace_char QUOTE [BSLASH, QUOTE] v) in
      if SP \<in> set escaped then [QUOTE] @ escaped @ [QUOTE] else escaped)"

definition unescape_value :: "string \<Rightarrow> string" where
  "unescape_value v =
     (let s = (case Option.bind (strip_prefix [QUOTE] v) (strip_suffix [QUOTE]) of
                 Some s \<Rightarrow> s | None \<Rightarrow> v)
      in replace_str [BSLASH, QUOTE] [QUOTE] (replace_str [BSLASH, COMMA] [COMMA] s))"

definition variables_new :: "VariablesType \<Rightarrow> Variables" where
  "variables_new t = \<lparr>vars_type = t, vars_inner = []\<rparr>"

definition with_vars :: "VariablesType \<Rightarrow> (string \<times> string) list \<Rightarrow> Variables" where
  "with_vars t vs = \<lparr>vars_type = t, vars_inner = vs\<rparr>"

definition variables_insert :: "Variables \<Rightarrow> string \<Rightarrow> string \<Rightarrow> Variables" where
  "variables_insert vs k v = vs\<lparr>vars_inner := AList.update k v (vars_inner vs)\<rparr>"

definition variables_get :: "Variables \<Rightarrow> string \<Rightarrow> string option" where
  "variables_get vs k = map_of (vars_inner vs) k"

definition variables_is_empty :: "Variables \<Rightarrow> bool" where
  "variables_is_empty vs = (vars_inner vs = [])"

definition variables_len :: "Variables \<Rightarrow> nat" where
  "variables_len vs = length (vars_inner vs)"

definition variables_iter :: "Variables \<Rightarrow> (string \<times> string) list" where
  "variables_iter vs = vars_inner vs"

definition variable_item :: "string \<times> string \<Rightarrow> string" where
  "variable_item kv = fst kv @ ''='' @ escape_value (snd kv)"

definition variables_display :: "Variables \<Rightarrow> string" where
  "variables_display vs =
     (case delimiters (vars_type vs) of (open_c, close_c) \<Rightarrow>
        [open_c] @ write_separated [COMMA] (map variable_item (vars_inner vs)) @ [close_c])"

text \<open>The scan of \<open>split_unescaped_commas\<close>: whether the byte before is a backslash, and the part.\<close>

fun split_commas_from :: "bool \<Rightarrow> string \<Rightarrow> string \<Rightarrow> string list" where
  "split_commas_from bs part [] = [part]"
| "split_commas_from bs part (c # s) =
     (if c = COMMA \<and> \<not> bs then part # split_commas_from False [] s
      else split_commas_from (c = BSLASH) (part @ [c]) s)"

definition split_unescaped_commas :: "string \<Rightarrow> string list" where
  "split_unescaped_commas s = split_commas_from False [] s"

fun parse_variable_parts :: "string list \<Rightarrow> (string \<times> string) list
    \<Rightarrow> (OriginateError, (string \<times> string) list) result" where
  "parse_variable_parts [] vs = Inr vs"
| "parse_variable_parts (part # parts) vs =
     (case split_once (CHR ''='') part of
        None \<Rightarrow> Inl (ParseError (''missing = in variable: '' @ part))
      | Some (k, v) \<Rightarrow> parse_variable_parts parts (AList.update k (unescape_value v) vs))"

definition block_type :: "char \<Rightarrow> char \<Rightarrow> VariablesType option" where
  "block_type a b =
     (if a = CHR ''{'' \<and> b = CHR ''}'' then Some Default
      else if a = CHR ''<'' \<and> b = CHR ''>'' then Some Enterprise
      else if a = CHR ''['' \<and> b = CHR '']'' then Some Channel
      else None)"

definition variables_from_str :: "string \<Rightarrow> (OriginateError, Variables) result" where
  "variables_from_str s0 =
     (let s = trim s0 in
      if length s < 2 then Inl (ParseError ''variable block too short'')
      else
        (case block_type (hd s) (last s) of
           None \<Rightarrow> Inl (ParseError (''unknown variable delimiters: '' @ s))
         | Some t \<Rightarrow>
             res_bind (parse_variable_parts (split_unescaped_commas (butlast (tl s))) [])
               (\<lambda>vs. Inr \<lparr>vars_type = t, vars_inner = vs\<rparr>)))"

section \<open>Escaping\<close>

lemma replace_char_absent: "c \<notin> set r \<Longrightarrow> c \<notin> set (replace_char c r s)"
  by (induction s) auto

lemma set_replace_char: "set (replace_char c r s) \<subseteq> set s \<union> set r"
  by (induction s) auto

lemma SP_escaped [simp]:
  "SP \<in> set (replace_char COMMA [BSLASH, COMMA] (replace_char QUOTE [BSLASH, QUOTE] v)) \<longleftrightarrow> SP \<in> set v"
proof -
  have "SP \<in> set (replace_char c [BSLASH, c] s) \<longleftrightarrow> SP \<in> set s" if "c \<noteq> SP" for c s
    using that by (induction s) auto
  then show ?thesis by simp
qed

lemma escape_value_cases:
  "escape_value v =
     (let e = replace_char COMMA [BSLASH, COMMA] (replace_char QUOTE [BSLASH, QUOTE] v) in
      if SP \<in> set v then [QUOTE] @ e @ [QUOTE] else e)"
  by (simp add: escape_value_def Let_def)

lemma escaped_no_lead_quote:
  "strip_prefix [QUOTE] (replace_char COMMA [BSLASH, COMMA] (replace_char QUOTE [BSLASH, QUOTE] v)) = None"
  by (cases v) auto

lemma unescape_escape: "unescape_value (escape_value v) = v"
proof -
  have e: "replace_str [BSLASH, QUOTE] [QUOTE] (replace_str [BSLASH, COMMA] [COMMA]
      (replace_char COMMA [BSLASH, COMMA] (replace_char QUOTE [BSLASH, QUOTE] v))) = v"
    by (simp add: replace_unescape)
  show ?thesis
  proof (cases "SP \<in> set v")
    case True
    have "strip_suffix [QUOTE] (w @ [QUOTE]) = Some w" for w
      by (rule strip_suffix_append)
    with True e show ?thesis
      by (simp add: escape_value_cases unescape_value_def)
  next
    case False
    with e escaped_no_lead_quote[of v] show ?thesis
      by (simp add: escape_value_cases unescape_value_def)
  qed
qed

section \<open>Splitting at the separators\<close>

text \<open>\<open>bs_after\<close>: is the byte before the next one a backslash; \<open>no_free_comma\<close>: every comma is escaped.\<close>

definition bs_after :: "bool \<Rightarrow> string \<Rightarrow> bool" where
  "bs_after bs s = (if s = [] then bs else last s = BSLASH)"

fun no_free_comma :: "bool \<Rightarrow> string \<Rightarrow> bool" where
  "no_free_comma bs [] = True"
| "no_free_comma bs (c # s) = ((c = COMMA \<longrightarrow> bs) \<and> no_free_comma (c = BSLASH) s)"

lemma bs_after_simps [simp]:
  "bs_after bs [] = bs"
  "bs_after bs (c # s) = bs_after (c = BSLASH) s"
  "bs_after bs (s @ t) = bs_after (bs_after bs s) t"
  by (auto simp: bs_after_def)

lemma no_free_comma_append:
  "no_free_comma bs (s @ t) \<longleftrightarrow> no_free_comma bs s \<and> no_free_comma (bs_after bs s) t"
  by (induction bs s rule: no_free_comma.induct) auto

lemma no_free_comma_notin: "COMMA \<notin> set s \<Longrightarrow> no_free_comma bs s"
  by (induction s arbitrary: bs) auto

lemma no_free_comma_escaped: "no_free_comma bs (replace_char COMMA [BSLASH, COMMA] s)"
  by (induction s arbitrary: bs) auto

lemma split_commas_skip:
  "no_free_comma bs t \<Longrightarrow> split_commas_from bs part (t @ s) = split_commas_from (bs_after bs t) (part @ t) s"
  by (induction bs t arbitrary: part rule: no_free_comma.induct) auto

lemma split_commas_join:
  assumes "\<forall>t \<in> set (t # ts). no_free_comma False t \<and> \<not> bs_after False t"
  shows "split_commas_from False [] (join [COMMA] (t # ts)) = t # ts"
  using assms
proof (induction ts arbitrary: t)
  case Nil
  then show ?case
    using split_commas_skip[of False t "[]" "[]"] by simp
next
  case (Cons u us)
  then show ?case
    using split_commas_skip[of False t "[]" "COMMA # join [COMMA] (u # us)"] by simp
qed

section \<open>Round trip\<close>

text \<open>A value that is not quoted must not end in a backslash, which would escape the separator.\<close>

definition value_ok :: "string \<Rightarrow> bool" where
  "value_ok v = (SP \<in> set v \<or> \<not> bs_after False v)"

definition key_ok :: "string \<Rightarrow> bool" where
  "key_ok k = (CHR ''='' \<notin> set k \<and> COMMA \<notin> set k)"

definition variables_ok :: "Variables \<Rightarrow> bool" where
  "variables_ok vs =
     (vars_inner vs \<noteq> [] \<and> distinct (map fst (vars_inner vs))
      \<and> (\<forall>(k, v) \<in> set (vars_inner vs). key_ok k \<and> value_ok v))"

lemma bs_after_replace: "bs_after bs (replace_char c [BSLASH, c] v) \<longleftrightarrow> bs_after bs v" if "c \<noteq> BSLASH"
  using that by (induction v arbitrary: bs) auto

lemma bs_after_escaped:
  "bs_after bs (replace_char COMMA [BSLASH, COMMA] (replace_char QUOTE [BSLASH, QUOTE] v)) \<longleftrightarrow> bs_after bs v"
  by (simp add: bs_after_replace)

lemma variable_item_ok:
  assumes "key_ok k" "value_ok v"
  shows "no_free_comma False (variable_item (k, v)) \<and> \<not> bs_after False (variable_item (k, v))"
  using assms
  by (simp add: variable_item_def no_free_comma_append no_free_comma_notin no_free_comma_escaped
      key_ok_def value_ok_def escape_value_cases Let_def bs_after_escaped) blast

lemma parse_variable_parts_items:
  assumes "\<forall>(k, v) \<in> set kvs. key_ok k" "distinct (map fst (vs @ kvs))"
  shows "parse_variable_parts (map variable_item kvs) vs = Inr (vs @ kvs)"
  using assms
proof (induction kvs arbitrary: vs)
  case (Cons kv kvs)
  obtain k v where [simp]: "kv = (k, v)" by (cases kv)
  have "split_once (CHR ''='') (variable_item kv) = Some (k, escape_value v)"
    using Cons.prems(1) split_once_append[of "CHR ''=''" k "escape_value v"]
    by (simp add: variable_item_def key_ok_def)
  moreover have "AList.update k v vs = vs @ [(k, v)]"
    using Cons.prems(2) by (induction vs) auto
  ultimately show ?case
    using Cons.IH[of "vs @ [(k, v)]"] Cons.prems by (simp add: unescape_escape)
qed simp

lemma delimiters_block: "delimiters t = (a, b) \<Longrightarrow> block_type a b = Some t \<and> solid a \<and> solid b"
proof -
  have "solid (CHR ''<'')" "solid (CHR ''>'')" "solid (CHR ''{'')" "solid (CHR ''}'')"
    "solid (CHR ''['')" "solid (CHR '']'')"
    by code_simp+
  then show "delimiters t = (a, b) \<Longrightarrow> ?thesis"
    by (cases t) (auto simp: block_type_def)
qed

lemma trim_solid: "solid a \<Longrightarrow> solid b \<Longrightarrow> trim (a # s @ [b]) = a # s @ [b]"
  using trim_solid_ends[of "a # s" b] by simp

lemma variables_parse_display:
  "variables_from_str (variables_display vs)
     = res_bind (parse_variable_parts
         (split_commas_from False [] (join [COMMA] (map variable_item (vars_inner vs)))) [])
       (\<lambda>l. Inr \<lparr>vars_type = vars_type vs, vars_inner = l\<rparr>)"
proof -
  obtain a b where d: "delimiters (vars_type vs) = (a, b)" by (cases "delimiters (vars_type vs)")
  have "variables_display vs = a # join [COMMA] (map variable_item (vars_inner vs)) @ [b]"
    by (simp add: variables_display_def d write_separated_join)
  then show ?thesis
    using delimiters_block[OF d]
    by (simp add: variables_from_str_def trim_solid split_unescaped_commas_def butlast_append)
qed

lemma variables_display_parses:
  assumes "variables_ok vs"
  shows "variables_from_str (variables_display vs) = Inr vs"
proof -
  let ?items = "map variable_item (vars_inner vs)"
  obtain kv kvs where inner: "vars_inner vs = kv # kvs"
    using assms by (auto simp: variables_ok_def neq_Nil_conv)
  have "\<forall>t \<in> set ?items. no_free_comma False t \<and> \<not> bs_after False t"
    using assms variable_item_ok by (auto simp: variables_ok_def simp del: bs_after_simps)
  then have "split_commas_from False [] (join [COMMA] ?items) = ?items"
    using split_commas_join inner by simp
  moreover have "parse_variable_parts ?items [] = Inr (vars_inner vs)"
    using parse_variable_parts_items[of "vars_inner vs" "[]"] assms by (auto simp: variables_ok_def)
  ultimately show ?thesis
    by (simp add: variables_parse_display)
qed

interpretation variables_text: text_codec variables_display "\<lambda>s. ok_opt (variables_from_str s)" variables_ok
  by unfold_locales (simp add: variables_display_parses)

text \<open>So two blocks that round-trip have different texts.\<close>

lemma variables_display_inj:
  "variables_ok v \<Longrightarrow> variables_ok w \<Longrightarrow> variables_display v = variables_display w \<Longrightarrow> v = w"
  by (rule variables_text.pr_inj)

text \<open>C35. Variable blocks round-trip. For every scope and every block with at least one variable, whose
  names hold no \<open>=\<close> and no comma and whose values, unless they hold a space, do not end in a
  backslash, parsing the displayed block gives the block back: same scope, same variables, same
  order, whatever quotes, commas, spaces and closing delimiters the values hold.
  A block without variables is displayed as text that the parser rejects.\<close>

theorem variables_roundtrip:
  "(variables_ok vs \<longrightarrow> variables_from_str (variables_display vs) = Inr vs)
   \<and> (variables_is_empty vs \<longrightarrow>
        variables_from_str (variables_display vs) = Inl (ParseError ''missing = in variable: ''))"
  using variables_display_parses[of vs] by (simp add: variables_parse_display variables_is_empty_def)

definition sample_vars :: Variables where
  "sample_vars =
     \<lparr>vars_type = Channel,
      vars_inner = [(''sip_h_Call-Info'', ''<url>;meta=123,<uri>''), (''name'', ''it's a ] here'')]\<rparr>"

theorem variables_roundtrip_witness:
  "variables_from_str (variables_display sample_vars) = Inr sample_vars
   \<and> variables_from_str (variables_display (variables_new Default))
       = Inl (ParseError ''missing = in variable: '')"
proof -
  have "variables_ok sample_vars" "variables_is_empty (variables_new Default)"
    by code_simp+
  then show ?thesis
    using variables_roundtrip[of sample_vars] variables_roundtrip[of "variables_new Default"] by blast
qed

text \<open>The condition on values is needed: a trailing backslash swallows the next variable.\<close>

theorem backslash_swallows_separator:
  "variables_from_str (variables_display (with_vars Default [(''a'', ''x'' @ [BSLASH]), (''b'', ''y'')]))
     = Inr (with_vars Default [(''a'', ''x,b=y'')])"
  by code_simp

end
