(* ===== verification/Esl_Originate.thy ===== *)
theory Esl_Originate
  imports Esl_Variables
begin

text \<open>
  The originate command: quoting and tokenising (\<open>src/src/commands/mod.rs\<close>), endpoints, application
  lists and the command itself with its \<open>Display\<close> and \<open>FromStr\<close> (\<open>src/src/commands/originate.rs\<close>).
  \<open>Display\<close> fails where the code returns \<open>fmt::Error\<close>; that is \<open>None\<close>.
\<close>

section \<open>Quoting and tokenising\<close>

definition originate_quote :: "string \<Rightarrow> string" where
  "originate_quote token =
     (if SP \<in> set token then [QUOTE] @ replace_char QUOTE [BSLASH, QUOTE] token @ [QUOTE] else token)"

definition originate_unquote :: "string \<Rightarrow> string" where
  "originate_unquote token =
     (case Option.bind (strip_prefix [QUOTE] token) (strip_suffix [QUOTE]) of
        Some inner \<Rightarrow> replace_str [BSLASH, QUOTE] [QUOTE] inner
      | None \<Rightarrow> token)"

text \<open>The loop of \<open>originate_split\<close>: whether the character before is a backslash, \<open>in_quote\<close>, the
  token so far, the tokens. The loop is over characters, the model over bytes; the separator, the quote
  and the backslash are ASCII, so no byte of a longer character is one of them.\<close>

fun split_loop :: "char \<Rightarrow> bool \<Rightarrow> bool \<Rightarrow> string \<Rightarrow> string list \<Rightarrow> string
    \<Rightarrow> (OriginateError, string list) result" where
  "split_loop split_at bs in_quote token tokens [] =
     (if in_quote then Inl (UnclosedQuote token)
      else (let t = trim token in Inr (if t \<noteq> [] then tokens @ [t] else tokens)))"
| "split_loop split_at bs in_quote token tokens (ch # s) =
     (if ch = split_at \<and> \<not> in_quote \<and> trim token \<noteq> [] then
        split_loop split_at (ch = BSLASH) in_quote [] (tokens @ [trim token]) s
      else
        split_loop split_at (ch = BSLASH)
          (if ch = QUOTE \<and> \<not> bs then \<not> in_quote else in_quote) (token @ [ch]) tokens s)"

definition originate_split :: "string \<Rightarrow> char \<Rightarrow> (OriginateError, string list) result" where
  "originate_split line split_at = split_loop split_at False False [] [] line"

section \<open>Dialplan types and applications\<close>

datatype DialplanType = Inline | Xml

fun dialplan_type_display :: "DialplanType \<Rightarrow> string" where
  "dialplan_type_display Inline = ''inline''"
| "dialplan_type_display Xml = ''XML''"

definition dialplan_type_from_str :: "string \<Rightarrow> (OriginateError, DialplanType) result" where
  "dialplan_type_from_str s =
     (if s = ''inline'' then Inr Inline
      else if s = ''XML'' then Inr Xml
      else Inl (ParseError (''unknown dialplan type: '' @ s)))"

interpretation dialplan_text: name_codec dialplan_type_display "\<lambda>s. ok_opt (dialplan_type_from_str s)" id
proof
  show "ok_opt (dialplan_type_from_str s) = Some x" if "id s = dialplan_type_display x" for s x
    using that by (cases x) (simp_all add: dialplan_type_from_str_def)
  show "dialplan_type_display x = id s" if "ok_opt (dialplan_type_from_str s) = Some x" for s x
    using that by (auto simp: dialplan_type_from_str_def split: if_splits)
qed simp

record Application =
  app_name :: string
  app_args :: "string option"

definition application_new :: "string \<Rightarrow> string option \<Rightarrow> Application" where
  "application_new name args = \<lparr>app_name = name, app_args = args\<rparr>"

definition application_to_string :: "Application \<Rightarrow> DialplanType \<Rightarrow> string" where
  "application_to_string app dialplan =
     (let args = (case app_args app of Some a \<Rightarrow> a | None \<Rightarrow> []) in
      case dialplan of
        Inline \<Rightarrow> app_name app @ '':'' @ args
      | Xml \<Rightarrow> ''&'' @ app_name app @ ''('' @ args @ '')'')"

definition applications_to_string :: "Application list \<Rightarrow> DialplanType \<Rightarrow> (OriginateError, string) result" where
  "applications_to_string apps dialplan =
     (case dialplan of
        Inline \<Rightarrow> Inr (join [COMMA] (map (\<lambda>a. application_to_string a dialplan) apps))
      | Xml \<Rightarrow>
          (if length apps \<noteq> 1 then Inl TooManyApplications
           else Inr (application_to_string (hd apps) dialplan)))"

fun parse_inline_parts :: "string list \<Rightarrow> (OriginateError, Application list) result" where
  "parse_inline_parts [] = Inr []"
| "parse_inline_parts (part # parts) =
     (case split_once COLON part of
        None \<Rightarrow> Inl (ParseError (''invalid inline application: '' @ part))
      | Some (name, args) \<Rightarrow>
          res_bind (parse_inline_parts parts) (\<lambda>apps. Inr (application_new name (Some args) # apps)))"

definition parse_application_list :: "string \<Rightarrow> DialplanType option \<Rightarrow> (OriginateError, Application list) result" where
  "parse_application_list s dialplan =
     (if dialplan = Some Inline then res_bind (originate_split s COMMA) parse_inline_parts
      else
        (case strip_prefix ''&'' s of
           Some rest \<Rightarrow>
             (case strip_suffix '')'' rest of
                None \<Rightarrow> Inl (ParseError ''missing closing paren'')
              | Some rest' \<Rightarrow>
                  (case split_once (CHR ''('') rest' of
                     None \<Rightarrow> Inl (ParseError ''missing opening paren'')
                   | Some (name, args) \<Rightarrow>
                       Inr [application_new name (if args = [] then None else Some args)]))
         | None \<Rightarrow> Inr [application_new s None]))"

section \<open>Endpoints\<close>

datatype Endpoint =
    GenericEndpoint string "Variables option"
  | Loopback string string "Variables option"
  | SofiaGateway string "string option" string "Variables option"

definition write_variables :: "Variables option \<Rightarrow> string" where
  "write_variables vars =
     (case vars of
        Some vs \<Rightarrow> if \<not> variables_is_empty vs then variables_display vs else []
      | None \<Rightarrow> [])"

fun endpoint_display :: "Endpoint \<Rightarrow> string" where
  "endpoint_display (GenericEndpoint uri vars) = write_variables vars @ uri"
| "endpoint_display (Loopback uri ctx vars) = write_variables vars @ ''loopback/'' @ uri @ ''/'' @ ctx"
| "endpoint_display (SofiaGateway uri profile gateway vars) =
     write_variables vars
     @ (case profile of
          Some p \<Rightarrow> ''sofia/gateway/'' @ p @ ''::'' @ gateway @ ''/'' @ uri
        | None \<Rightarrow> ''sofia/gateway/'' @ gateway @ ''/'' @ uri)"

definition endpoint_from_str :: "string \<Rightarrow> (OriginateError, Endpoint) result" where
  "endpoint_from_str s =
     (if CHR ''{'' \<in> set s then
        (case find_char (CHR ''}'') s of
           None \<Rightarrow> Inl (ParseError ''unclosed { in endpoint'')
         | Some close_pos \<Rightarrow>
             res_bind (variables_from_str (take (close_pos + 1) s)) (\<lambda>vars.
               Inr (GenericEndpoint (trim (drop (close_pos + 1) s))
                 (if variables_is_empty vars then None else Some vars))))
      else Inr (GenericEndpoint s None))"

section \<open>The command\<close>

record Originate =
  endpoint :: Endpoint
  applications :: "Application list"
  dialplan :: "DialplanType option"
  orig_context :: "string option"
  cid_name :: "string option"
  cid_num :: "string option"
  orig_timeout :: "u32 option"

definition spaced :: "string option \<Rightarrow> string" where
  "spaced s = (case s of Some t \<Rightarrow> SP # t | None \<Rightarrow> [])"

definition originate_display :: "Originate \<Rightarrow> string option" where
  "originate_display o1 =
     (let dp = (case dialplan o1 of Some d \<Rightarrow> d | None \<Rightarrow> Xml) in
      case applications_to_string (applications o1) dp of
        Inl _ \<Rightarrow> None
      | Inr apps \<Rightarrow>
          Some (''originate '' @ endpoint_display (endpoint o1) @ [SP] @ originate_quote apps
            @ spaced (map_option dialplan_type_display (dialplan o1))
            @ spaced (orig_context o1) @ spaced (cid_name o1) @ spaced (cid_num o1)
            @ spaced (map_option (\<lambda>t. nat_to_string (unat t)) (orig_timeout o1))))"

text \<open>\<open>if !args.is_empty() { Some(args.remove(0)) } else { None }\<close>.\<close>

definition take_arg :: "string list \<Rightarrow> string option \<times> string list" where
  "take_arg args = (case args of [] \<Rightarrow> (None, []) | a # as \<Rightarrow> (Some a, as))"

definition parse_timeout :: "string list \<Rightarrow> (OriginateError, u32 option) result" where
  "parse_timeout args =
     (case args of
        [] \<Rightarrow> Inr None
      | a # _ \<Rightarrow>
          (case parse_u32 a of
             Inl e \<Rightarrow> Inl (ParseError (''invalid timeout: '' @ int_error_display e))
           | Inr n \<Rightarrow> Inr (Some n)))"

definition originate_args :: "Endpoint \<Rightarrow> string list \<Rightarrow> (OriginateError, Originate) result" where
  "originate_args ep args0 =
     (case args0 of
        [] \<Rightarrow> Inl (ParseError ''missing application in originate'')
      | a # args1 \<Rightarrow>
          (let app_str = originate_unquote a;
               dp = (case args1 of [] \<Rightarrow> None | d # _ \<Rightarrow> ok_opt (dialplan_type_from_str d));
               args2 = (if dp \<noteq> None then tl args1 else args1)
           in res_bind (parse_application_list app_str dp) (\<lambda>apps.
                case take_arg args2 of (ctx, args3) \<Rightarrow>
                case take_arg args3 of (name, args4) \<Rightarrow>
                case take_arg args4 of (num, args5) \<Rightarrow>
                res_bind (parse_timeout args5) (\<lambda>t.
                  Inr \<lparr>endpoint = ep, applications = apps, dialplan = dp, orig_context = ctx,
                       cid_name = name, cid_num = num, orig_timeout = t\<rparr>))))"

definition originate_from_str :: "string \<Rightarrow> (OriginateError, Originate) result" where
  "originate_from_str s0 =
     (let s = trim (case strip_prefix ''originate'' s0 of Some r \<Rightarrow> r | None \<Rightarrow> s0) in
      res_bind (originate_split s SP) (\<lambda>args.
        case args of
          [] \<Rightarrow> Inl (ParseError ''empty originate'')
        | e # args' \<Rightarrow> res_bind (endpoint_from_str e) (\<lambda>ep. originate_args ep args')))"

section \<open>Tokens\<close>

text \<open>The state of the quotes after a text, and whether every separator in it is inside quotes.\<close>

definition toggle :: "bool \<Rightarrow> bool \<Rightarrow> char \<Rightarrow> bool" where
  "toggle bs q c = (if c = QUOTE \<and> \<not> bs then \<not> q else q)"

fun quotes :: "bool \<Rightarrow> bool \<Rightarrow> string \<Rightarrow> bool" where
  "quotes bs q [] = q"
| "quotes bs q (c # s) = quotes (c = BSLASH) (toggle bs q c) s"

fun covered :: "char \<Rightarrow> bool \<Rightarrow> bool \<Rightarrow> string \<Rightarrow> bool" where
  "covered sep bs q [] = True"
| "covered sep bs q (c # s) = ((c = sep \<longrightarrow> q) \<and> covered sep (c = BSLASH) (toggle bs q c) s)"

fun no_toggle :: "bool \<Rightarrow> string \<Rightarrow> bool" where
  "no_toggle bs [] = True"
| "no_toggle bs (c # s) = ((c = QUOTE \<longrightarrow> bs) \<and> no_toggle (c = BSLASH) s)"

lemma quotes_append: "quotes bs q (s @ t) = quotes (bs_after bs s) (quotes bs q s) t"
  by (induction bs q s rule: quotes.induct) auto

lemma covered_append:
  "covered sep bs q (s @ t) \<longleftrightarrow> covered sep bs q s \<and> covered sep (bs_after bs s) (quotes bs q s) t"
  by (induction sep bs q s rule: covered.induct) auto

lemma no_toggle_quotes: "no_toggle bs s \<Longrightarrow> quotes bs q s = q"
  by (induction bs s rule: no_toggle.induct) (auto simp: toggle_def)

lemma no_toggle_covered: "no_toggle bs s \<Longrightarrow> q \<or> sep \<notin> set s \<Longrightarrow> covered sep bs q s"
  by (induction bs s rule: no_toggle.induct) (auto simp: toggle_def)

lemma no_toggle_notin: "QUOTE \<notin> set s \<Longrightarrow> no_toggle bs s"
  by (induction s arbitrary: bs) auto

lemma no_toggle_replace: "no_toggle bs (replace_char QUOTE [BSLASH, QUOTE] s)"
  by (induction s arbitrary: bs) auto

lemma no_toggle_escaped:
  "no_toggle bs (replace_char COMMA [BSLASH, COMMA] (replace_char QUOTE [BSLASH, QUOTE] s))"
  by (induction s arbitrary: bs) auto

lemma split_loop_skip:
  "covered sep bs q t \<Longrightarrow> split_loop sep bs q token tokens (t @ s)
     = split_loop sep (bs_after bs t) (quotes bs q t) (token @ t) tokens s"
  by (induction sep bs q t arbitrary: token rule: covered.induct) (auto simp: toggle_def)

text \<open>A text with an ASCII character other than white space at both ends, which trimming keeps.\<close>

definition solid_ends :: "string \<Rightarrow> bool" where
  "solid_ends t = (t \<noteq> [] \<and> solid (hd t) \<and> solid (last t))"

lemma trim_solid_ends_id: "solid_ends t \<Longrightarrow> trim t = t"
  by (metis solid_ends_def append_butlast_last_id hd_Cons_tl trim_solid_ends ws_head_solid)

definition token_ok :: "char \<Rightarrow> string \<Rightarrow> bool" where
  "token_ok sep t = (solid_ends t \<and> covered sep False False t \<and> \<not> quotes False False t)"

lemma split_loop_join:
  assumes "sep \<noteq> BSLASH" "\<forall>t \<in> set ts. token_ok sep t"
  shows "split_loop sep False False [] tokens (join [sep] ts) = Inr (tokens @ ts)"
  using assms(2)
proof (induction ts arbitrary: tokens)
  case (Cons t ts)
  then have t: "covered sep False False t" "\<not> quotes False False t" "trim t = t" "t \<noteq> []"
    by (simp_all add: token_ok_def trim_solid_ends_id) (simp add: solid_ends_def)
  show ?case
  proof (cases ts)
    case Nil
    then show ?thesis
      using t split_loop_skip[of sep False False t "[]" tokens "[]"] by simp
  next
    case (Cons u us)
    then show ?thesis
      using t assms(1) Cons.IH[of "tokens @ [t]"] Cons.prems
        split_loop_skip[of sep False False t "[]" tokens "sep # join [sep] ts"]
      by simp
  qed
qed simp

lemma originate_split_join:
  "sep \<noteq> BSLASH \<Longrightarrow> \<forall>t \<in> set ts. token_ok sep t \<Longrightarrow> originate_split (join [sep] ts) sep = Inr ts"
  using split_loop_join[of sep ts "[]"] by (simp add: originate_split_def)

lemma token_ok_plain: "solid_ends t \<Longrightarrow> QUOTE \<notin> set t \<Longrightarrow> sep \<notin> set t \<Longrightarrow> token_ok sep t"
  by (simp add: token_ok_def no_toggle_covered no_toggle_quotes no_toggle_notin)

text \<open>Texts that \<open>originate_quote\<close> keeps as one token.\<close>

definition quotable :: "string \<Rightarrow> bool" where
  "quotable t =
     (if SP \<in> set t then \<not> bs_after False t else solid_ends t \<and> QUOTE \<notin> set t)"

lemma solid_QUOTE: "solid QUOTE"
  by code_simp

lemma token_ok_quote:
  assumes "quotable t"
  shows "token_ok SP (originate_quote t)"
proof (cases "SP \<in> set t")
  case True
  let ?e = "replace_char QUOTE [BSLASH, QUOTE] t"
  have "\<not> bs_after False ?e"
    using assms True by (simp add: quotable_def bs_after_replace)
  then show ?thesis
    using True no_toggle_replace[of False t]
    by (simp add: token_ok_def originate_quote_def covered_append quotes_append toggle_def
        no_toggle_covered no_toggle_quotes solid_ends_def solid_QUOTE)
next
  case False
  then show ?thesis
    using assms by (simp add: quotable_def originate_quote_def token_ok_plain)
qed

lemma unquote_quote:
  assumes "quotable t"
  shows "originate_unquote (originate_quote t) = t"
proof (cases "SP \<in> set t")
  case True
  then show ?thesis
    using strip_suffix_append[of "[QUOTE]"]
    by (simp add: originate_quote_def originate_unquote_def replace_unescape)
next
  case False
  then have "strip_prefix [QUOTE] t = None"
    using assms by (auto simp: quotable_def strip_prefix_None)
  with False show ?thesis
    by (simp add: originate_quote_def originate_unquote_def)
qed

section \<open>Application lists\<close>

text \<open>Applications that come back from the text of their dialplan: an inline application has
  arguments, an XML one no empty arguments; names hold no delimiter.\<close>

definition inline_app_ok :: "Application \<Rightarrow> bool" where
  "inline_app_ok a =
     (app_args a \<noteq> None \<and> COLON \<notin> set (app_name a)
      \<and> (let t = application_to_string a Inline in
          solid_ends t \<and> QUOTE \<notin> set t \<and> COMMA \<notin> set t \<and> \<not> bs_after False t))"

definition xml_app_ok :: "Application \<Rightarrow> bool" where
  "xml_app_ok a =
     (app_args a \<noteq> Some [] \<and> CHR ''('' \<notin> set (app_name a)
      \<and> (let t = application_to_string a Xml in SP \<in> set t \<or> QUOTE \<notin> set t))"

fun apps_ok :: "DialplanType \<Rightarrow> Application list \<Rightarrow> bool" where
  "apps_ok Inline apps = (apps \<noteq> [] \<and> (\<forall>a \<in> set apps. inline_app_ok a))"
| "apps_ok Xml apps = (length apps = 1 \<and> xml_app_ok (hd apps))"

lemma parse_inline_parts_apps:
  "\<forall>a \<in> set apps. inline_app_ok a \<Longrightarrow>
     parse_inline_parts (map (\<lambda>a. application_to_string a Inline) apps) = Inr apps"
proof (induction apps)
  case (Cons a apps)
  then obtain x where "app_args a = Some x" "COLON \<notin> set (app_name a)"
    by (auto simp: inline_app_ok_def)
  with Cons show ?case
    using split_once_append[of COLON "app_name a" x]
    by (simp add: application_to_string_def application_new_def)
qed simp

lemma join_hd: "x \<noteq> [] \<Longrightarrow> hd (join sep (x # xs)) = hd x"
  by (simp add: join_Cons)

lemma join_eq_Nil: "xs \<noteq> [] \<Longrightarrow> \<forall>x \<in> set xs. x \<noteq> [] \<Longrightarrow> join sep xs \<noteq> []"
  by (induction xs) (auto simp: join_Cons)

lemma join_last: "xs \<noteq> [] \<Longrightarrow> \<forall>x \<in> set xs. x \<noteq> [] \<Longrightarrow> last (join sep xs) = last (last xs)"
  by (induction xs) (auto simp: join_Cons join_eq_Nil)

lemma set_join: "set (join sep xs) \<subseteq> set sep \<union> \<Union> (set ` set xs)"
  by (induction xs) (auto simp: join_Cons)

lemma solid_ends_join:
  assumes "xs \<noteq> []" "\<forall>x \<in> set xs. solid_ends x"
  shows "solid_ends (join sep xs)"
proof -
  have n: "\<forall>x \<in> set xs. x \<noteq> []"
    using assms(2) by (auto simp: solid_ends_def)
  obtain y ys where xs: "xs = y # ys"
    using assms(1) by (cases xs) auto
  have "solid (last (last xs))" "solid (hd y)"
    using assms xs last_in_set[of xs] by (auto simp: solid_ends_def)
  then show ?thesis
    using join_last[OF assms(1) n] join_eq_Nil[OF assms(1) n] join_hd[of y sep ys] n xs
    by (simp add: solid_ends_def)
qed

lemma parse_apps_inline:
  assumes "apps_ok Inline apps" "applications_to_string apps Inline = Inr t"
  shows "quotable t \<and> parse_application_list t (Some Inline) = Inr apps"
proof -
  let ?ts = "map (\<lambda>a. application_to_string a Inline) apps"
  have t: "t = join [COMMA] ?ts"
    using assms(2) by (simp add: applications_to_string_def)
  have ok: "\<forall>x \<in> set ?ts. solid_ends x \<and> QUOTE \<notin> set x \<and> COMMA \<notin> set x \<and> \<not> bs_after False x"
    using assms(1) by (auto simp: inline_app_ok_def Let_def)
  have ne: "?ts \<noteq> []" "\<forall>x \<in> set ?ts. x \<noteq> []"
    using assms(1) ok by (auto simp: solid_ends_def)
  have "originate_split t COMMA = Inr ?ts"
    unfolding t by (rule originate_split_join) (use ok in \<open>auto intro: token_ok_plain\<close>)
  moreover have "last t = last (last ?ts)" "t \<noteq> []"
    unfolding t using join_last[OF ne] join_eq_Nil[OF ne] by auto
  then have "\<not> bs_after False t"
    using ok ne last_in_set[OF ne(1)] by (metis bs_after_def)
  moreover have "solid_ends t" "QUOTE \<notin> set t"
    unfolding t using solid_ends_join[OF ne(1)] ok set_join[of "[COMMA]" ?ts] by (auto)
  ultimately show ?thesis
    using parse_inline_parts_apps assms(1) by (simp add: quotable_def parse_application_list_def)
qed

lemma parse_apps_xml:
  assumes "apps_ok Xml apps" "applications_to_string apps Xml = Inr t" "dp \<noteq> Some Inline"
  shows "quotable t \<and> parse_application_list t dp = Inr apps"
proof -
  obtain a where a: "apps = [a]" "xml_app_ok a"
    using assms(1) by (auto simp: length_Suc_conv)
  let ?x = "case app_args a of Some x \<Rightarrow> x | None \<Rightarrow> []"
  have t: "t = ''&'' @ (app_name a @ CHR ''('' # ?x) @ '')''"
    using assms(2) a by (simp add: applications_to_string_def application_to_string_def Let_def)
  have "strip_suffix '')'' ((app_name a @ CHR ''('' # ?x) @ '')'') = Some (app_name a @ CHR ''('' # ?x)"
    by (rule strip_suffix_append)
  moreover have "split_once (CHR ''('') (app_name a @ CHR ''('' # ?x) = Some (app_name a, ?x)"
    using a by (intro split_once_append) (simp add: xml_app_ok_def)
  moreover have "application_new (app_name a) (if ?x = [] then None else Some ?x) = a"
    using a by (auto simp: application_new_def xml_app_ok_def split: option.splits)
  ultimately have "parse_application_list t dp = Inr [a]"
    using assms(3) by (simp add: parse_application_list_def t)
  moreover have "solid (CHR ''&'')" "solid (CHR '')'')"
    by code_simp+
  then have "quotable t"
    using a t assms(2)
    by (auto simp: quotable_def solid_ends_def xml_app_ok_def applications_to_string_def Let_def)
  ultimately show ?thesis
    using a by simp
qed

section \<open>Endpoints as tokens\<close>

fun endpoint_vars :: "Endpoint \<Rightarrow> Variables option" where
  "endpoint_vars (GenericEndpoint uri vars) = vars"
| "endpoint_vars (Loopback uri ctx vars) = vars"
| "endpoint_vars (SofiaGateway uri profile gateway vars) = vars"

text \<open>The text after the variables, and the generic endpoint with the same text.\<close>

fun endpoint_text :: "Endpoint \<Rightarrow> string" where
  "endpoint_text (GenericEndpoint uri vars) = endpoint_display (GenericEndpoint uri None)"
| "endpoint_text (Loopback uri ctx vars) = endpoint_display (Loopback uri ctx None)"
| "endpoint_text (SofiaGateway uri profile gateway vars) =
     endpoint_display (SofiaGateway uri profile gateway None)"

definition endpoint_view :: "Endpoint \<Rightarrow> Endpoint" where
  "endpoint_view e =
     GenericEndpoint (endpoint_text e)
       (case endpoint_vars e of
          Some vs \<Rightarrow> if variables_is_empty vs then None else Some vs
        | None \<Rightarrow> None)"

definition block_ok :: "Variables \<Rightarrow> bool" where
  "block_ok vs =
     (variables_ok vs \<and> vars_type vs = Default
      \<and> (\<forall>(k, v) \<in> set (vars_inner vs). CHR ''}'' \<notin> set k \<and> CHR ''}'' \<notin> set v
           \<and> SP \<notin> set k \<and> QUOTE \<notin> set k \<and> \<not> bs_after False v))"

definition endpoint_ok :: "Endpoint \<Rightarrow> bool" where
  "endpoint_ok e =
     ((let t = endpoint_text e in
       solid_ends t \<and> SP \<notin> set t \<and> QUOTE \<notin> set t \<and> CHR ''{'' \<notin> set t)
      \<and> (case endpoint_vars e of
           Some vs \<Rightarrow> variables_is_empty vs \<or> block_ok vs
         | None \<Rightarrow> True))"

lemma endpoint_display_split: "endpoint_display e = write_variables (endpoint_vars e) @ endpoint_text e"
  by (cases e) (auto simp: write_variables_def split: option.splits)

lemma endpoint_view_display: "endpoint_display (endpoint_view e) = endpoint_display e"
  by (simp add: endpoint_display_split[of e] endpoint_view_def write_variables_def split: option.splits)

lemma item_quotes:
  assumes "SP \<notin> set k" "QUOTE \<notin> set k" "\<not> bs_after False v"
  shows "covered SP bs False (variable_item (k, v)) \<and> \<not> quotes bs False (variable_item (k, v))"
  using assms no_toggle_escaped[of False v]
  by (simp add: variable_item_def escape_value_cases Let_def covered_append quotes_append
      no_toggle_covered no_toggle_quotes no_toggle_notin toggle_def bs_after_escaped)

lemma join_quotes:
  assumes "\<forall>t \<in> set ts. \<forall>bs. covered SP bs False t \<and> \<not> quotes bs False t"
  shows "covered SP bs False (join [COMMA] ts) \<and> \<not> quotes bs False (join [COMMA] ts)"
  using assms
proof (induction ts arbitrary: bs)
  case (Cons t ts)
  then show ?case
    by (cases ts) (simp_all add: covered_append quotes_append toggle_def)
qed simp

lemma default_display:
  "vars_type vs = Default \<Longrightarrow>
     variables_display vs = ''{'' @ join [COMMA] (map variable_item (vars_inner vs)) @ ''}''"
  by (simp add: variables_display_def write_separated_join)

lemma set_escape_value: "set (escape_value v) \<subseteq> set v \<union> {BSLASH, COMMA, QUOTE}"
proof -
  have "set (replace_char COMMA [BSLASH, COMMA] (replace_char QUOTE [BSLASH, QUOTE] v))
      \<subseteq> set v \<union> {BSLASH, COMMA, QUOTE}"
    by (induction v) auto
  then show ?thesis
    by (auto simp: escape_value_cases Let_def)
qed

lemma block_no_brace:
  assumes "block_ok vs"
  shows "CHR ''}'' \<notin> set (join [COMMA] (map variable_item (vars_inner vs)))"
proof -
  have "CHR ''}'' \<notin> set (variable_item (k, v))" if "(k, v) \<in> set (vars_inner vs)" for k v
    using that assms set_escape_value[of v] by (auto simp: block_ok_def variable_item_def)
  then show ?thesis
    using set_join[of "[COMMA]" "map variable_item (vars_inner vs)"] by auto
qed

lemma block_token:
  assumes "block_ok vs"
  shows "covered SP False False (variables_display vs) \<and> \<not> quotes False False (variables_display vs)"
proof -
  have "\<forall>t \<in> set (map variable_item (vars_inner vs)). \<forall>bs. covered SP bs False t \<and> \<not> quotes bs False t"
    using assms item_quotes by (auto simp: block_ok_def)
  from join_quotes[OF this, of False] show ?thesis
    using assms by (simp add: block_ok_def default_display covered_append quotes_append toggle_def)
qed

lemma endpoint_roundtrip:
  assumes "endpoint_ok e"
  shows "token_ok SP (endpoint_display e) \<and> endpoint_from_str (endpoint_display e) = Inr (endpoint_view e)"
proof -
  let ?t = "endpoint_text e"
  have t: "solid_ends ?t" "SP \<notin> set ?t" "QUOTE \<notin> set ?t" "CHR ''{'' \<notin> set ?t"
    using assms by (auto simp: endpoint_ok_def Let_def)
  show ?thesis
  proof (cases "\<exists>vs. endpoint_vars e = Some vs \<and> \<not> variables_is_empty vs")
    case False
    then have "endpoint_display e = ?t" "endpoint_view e = GenericEndpoint ?t None"
      by (auto simp: endpoint_display_split write_variables_def endpoint_view_def split: option.splits)
    then show ?thesis
      using t token_ok_plain by (simp add: endpoint_from_str_def)
  next
    case True
    then obtain vs where vs: "endpoint_vars e = Some vs" "\<not> variables_is_empty vs" by blast
    then have ok: "block_ok vs"
      using assms by (simp add: endpoint_ok_def)
    let ?v = "variables_display vs" and ?b = "join [COMMA] (map variable_item (vars_inner vs))"
    have d: "endpoint_display e = ?v @ ?t"
      using vs by (simp add: endpoint_display_split write_variables_def)
    have v: "?v = (''{'' @ ?b) @ ''}''"
      using ok by (simp add: block_ok_def default_display)
    have "find_char (CHR ''}'') ((''{'' @ ?b) @ CHR ''}'' # ?t) = Some (length (''{'' @ ?b))"
      using block_no_brace[OF ok] by (intro find_char_append) simp
    then have f: "find_char (CHR ''}'') (?v @ ?t) = Some (length ?v - 1)"
      by (simp add: v)
    have "length ?v - 1 + 1 = length ?v"
      by (simp add: v)
    then have "endpoint_from_str (?v @ ?t) = Inr (GenericEndpoint (trim ?t) (Some vs))"
      using f ok vs variables_display_parses[of vs]
      by (simp add: endpoint_from_str_def block_ok_def) (simp add: v)
    moreover have "solid_ends (?v @ ?t)"
      using t v by (simp add: solid_ends_def) code_simp
    then have "token_ok SP (?v @ ?t)"
      using t block_token[OF ok]
      by (simp add: token_ok_def covered_append quotes_append no_toggle_covered no_toggle_quotes
          no_toggle_notin)
    ultimately show ?thesis
      using d vs t by (simp add: endpoint_view_def trim_solid_ends_id)
  qed
qed

section \<open>The command round-trips\<close>

definition word_ok :: "string \<Rightarrow> bool" where
  "word_ok t = (solid_ends t \<and> SP \<notin> set t \<and> QUOTE \<notin> set t)"

text \<open>The optional fields are positional: none may be missing before one that is present, and
  without a dialplan the context must not read as one.\<close>

definition fields_ok :: "Originate \<Rightarrow> bool" where
  "fields_ok o1 =
     ((\<forall>t \<in> set_option (orig_context o1) \<union> set_option (cid_name o1) \<union> set_option (cid_num o1). word_ok t)
      \<and> (orig_context o1 = None \<longrightarrow> cid_name o1 = None)
      \<and> (cid_name o1 = None \<longrightarrow> cid_num o1 = None)
      \<and> (cid_num o1 = None \<longrightarrow> orig_timeout o1 = None)
      \<and> (dialplan o1 = None \<longrightarrow> orig_context o1 \<notin> {Some ''inline'', Some ''XML''}))"

definition originate_ok :: "Originate \<Rightarrow> bool" where
  "originate_ok o1 =
     (endpoint_ok (endpoint o1)
      \<and> apps_ok (case dialplan o1 of Some d \<Rightarrow> d | None \<Rightarrow> Xml) (applications o1)
      \<and> fields_ok o1)"

definition optional_words :: "Originate \<Rightarrow> string list" where
  "optional_words o1 =
     List.map_filter id
       [map_option dialplan_type_display (dialplan o1), orig_context o1, cid_name o1, cid_num o1,
        map_option (\<lambda>t. nat_to_string (unat t)) (orig_timeout o1)]"

lemma join_spaced: "join [SP] (x # xs) = x @ concat (map (\<lambda>t. SP # t) xs)"
  by (induction xs arbitrary: x) auto

lemma spaced_words:
  "spaced (map_option dialplan_type_display (dialplan o1)) @ spaced (orig_context o1)
     @ spaced (cid_name o1) @ spaced (cid_num o1)
     @ spaced (map_option (\<lambda>t. nat_to_string (unat t)) (orig_timeout o1))
   = concat (map (\<lambda>t. SP # t) (optional_words o1))"
  by (simp add: optional_words_def spaced_def map_filter_simps split: option.splits)

lemma display_words:
  assumes "applications_to_string (applications o1) (case dialplan o1 of Some d \<Rightarrow> d | None \<Rightarrow> Xml) = Inr t"
  shows "originate_display o1 =
    Some (''originate'' @ SP # join [SP] (endpoint_display (endpoint o1) # originate_quote t # optional_words o1))"
  using assms by (simp add: originate_display_def join_spaced spaced_words del: join.simps)

lemma nat_to_string_word: "word_ok (nat_to_string n)"
  using nat_to_string_digits[of n] is_digit_solid nat_to_string_notin[of SP n] nat_to_string_notin[of QUOTE n]
  by (simp add: word_ok_def solid_ends_def)

lemma dialplan_word: "word_ok (dialplan_type_display d)"
proof -
  have "word_ok ''inline''" "word_ok ''XML''"
    by code_simp+
  then show ?thesis
    by (cases d) simp_all
qed

lemma word_token: "word_ok t \<Longrightarrow> token_ok SP t"
  by (simp add: word_ok_def token_ok_plain)

lemma optional_words_ok: "fields_ok o1 \<Longrightarrow> \<forall>t \<in> set (optional_words o1). token_ok SP t"
  by (auto simp: optional_words_def map_filter_simps fields_ok_def nat_to_string_word dialplan_word
      intro: word_token split: option.splits)

lemma dialplan_display_parse [simp]: "dialplan_type_from_str (dialplan_type_display d) = Inr d"
  using dialplan_text.name_roundtrip[of d] by simp

definition field_words :: "Originate \<Rightarrow> string list" where
  "field_words o1 =
     List.map_filter id
       [orig_context o1, cid_name o1, cid_num o1, map_option (\<lambda>t. nat_to_string (unat t)) (orig_timeout o1)]"

lemma optional_words_split:
  "optional_words o1 = (case dialplan o1 of Some d \<Rightarrow> [dialplan_type_display d] | None \<Rightarrow> []) @ field_words o1"
  by (simp add: optional_words_def field_words_def map_filter_simps split: option.splits)

lemma parse_fields:
  assumes "fields_ok o1"
  shows "\<exists>args3 args4 args5. take_arg (field_words o1) = (orig_context o1, args3)
    \<and> take_arg args3 = (cid_name o1, args4) \<and> take_arg args4 = (cid_num o1, args5)
    \<and> parse_timeout args5 = Inr (orig_timeout o1)"
proof -
  have gaps: "orig_context o1 = None \<Longrightarrow> cid_name o1 = None" "cid_name o1 = None \<Longrightarrow> cid_num o1 = None"
    "cid_num o1 = None \<Longrightarrow> orig_timeout o1 = None"
    using assms by (simp_all add: fields_ok_def)
  show ?thesis
  proof (cases "orig_timeout o1")
    case None
    then show ?thesis
      using gaps by (cases "orig_context o1"; cases "cid_name o1"; cases "cid_num o1")
        (simp_all add: field_words_def map_filter_simps take_arg_def parse_timeout_def)
  next
    case (Some t)
    with gaps obtain c n m where "orig_context o1 = Some c" "cid_name o1 = Some n" "cid_num o1 = Some m"
      by (metis option.exhaust option.distinct(1))
    with Some show ?thesis
      by (simp add: field_words_def map_filter_simps take_arg_def parse_timeout_def parse_u32_nat_to_string)
  qed
qed

text \<open>Without a dialplan, the first field is not taken for one.\<close>

lemma field_no_dialplan:
  assumes "fields_ok o1" "dialplan o1 = None" "field_words o1 = w # ws"
  shows "ok_opt (dialplan_type_from_str w) = None"
proof (cases "orig_context o1")
  case None
  then show ?thesis
    using assms by (simp add: fields_ok_def field_words_def map_filter_simps)
next
  case (Some c)
  then have "w = c"
    using assms(3) by (simp add: field_words_def map_filter_simps)
  then show ?thesis
    using assms Some by (simp add: fields_ok_def dialplan_type_from_str_def)
qed

lemma originate_args_words:
  assumes "fields_ok o1" "quotable t"
    and "parse_application_list t (dialplan o1) = Inr (applications o1)"
  shows "originate_args ep (originate_quote t # optional_words o1) = Inr (o1\<lparr>endpoint := ep\<rparr>)"
proof -
  obtain args3 args4 args5 where f: "take_arg (field_words o1) = (orig_context o1, args3)"
    "take_arg args3 = (cid_name o1, args4)" "take_arg args4 = (cid_num o1, args5)"
    "parse_timeout args5 = Inr (orig_timeout o1)"
    using parse_fields[OF assms(1)] by blast
  let ?dp = "case optional_words o1 of [] \<Rightarrow> None | d # _ \<Rightarrow> ok_opt (dialplan_type_from_str d)"
  have dp: "?dp = dialplan o1"
    using field_no_dialplan[OF assms(1)]
    by (auto simp: optional_words_split split: option.splits list.splits)
  have rest: "(if dialplan o1 \<noteq> None then tl (optional_words o1) else optional_words o1) = field_words o1"
    by (auto simp: optional_words_split)
  show ?thesis
    using f dp rest assms(2,3) by (simp add: originate_args_def Let_def unquote_quote)
qed

lemma originate_reparses:
  assumes "originate_ok o1"
  shows "\<exists>s. originate_display o1 = Some s
     \<and> originate_from_str s = Inr (o1\<lparr>endpoint := endpoint_view (endpoint o1)\<rparr>)
     \<and> originate_display (o1\<lparr>endpoint := endpoint_view (endpoint o1)\<rparr>) = Some s"
proof -
  let ?dp = "case dialplan o1 of Some d \<Rightarrow> d | None \<Rightarrow> Xml"
  have ok: "endpoint_ok (endpoint o1)" "apps_ok ?dp (applications o1)" "fields_ok o1"
    using assms by (simp_all add: originate_ok_def)
  obtain t where t: "applications_to_string (applications o1) ?dp = Inr t"
    using ok(2) by (cases ?dp) (auto simp: applications_to_string_def)
  have q: "quotable t" "parse_application_list t (dialplan o1) = Inr (applications o1)"
    using parse_apps_inline[of "applications o1" t] parse_apps_xml[of "applications o1" t "dialplan o1"] ok(2) t
    by (cases "dialplan o1"; cases ?dp; simp)+
  let ?ts = "endpoint_display (endpoint o1) # originate_quote t # optional_words o1"
  have toks: "\<forall>x \<in> set ?ts. token_ok SP x"
    using endpoint_roundtrip[OF ok(1)] token_ok_quote[OF q(1)] optional_words_ok[OF ok(3)] by auto
  have disp: "originate_display o1 = Some (''originate'' @ SP # join [SP] ?ts)"
    by (rule display_words[OF t])
  have "solid_ends (join [SP] ?ts)"
    by (rule solid_ends_join) (use toks in \<open>auto simp: token_ok_def\<close>)
  then have "trim (SP # join [SP] ?ts) = join [SP] ?ts"
    using trim_solid_ends_id trim_start_drop_ws[of SP] by (metis ascii_ws_SP(1) trim_def)
  moreover have "originate_split (join [SP] ?ts) SP = Inr ?ts"
    by (rule originate_split_join) (use toks in auto)
  moreover have "strip_prefix ''originate'' (''originate'' @ SP # join [SP] ?ts) = Some (SP # join [SP] ?ts)"
    by (rule strip_prefix_append)
  ultimately have "originate_from_str (''originate'' @ SP # join [SP] ?ts)
      = originate_args (endpoint_view (endpoint o1)) (originate_quote t # optional_words o1)"
    using endpoint_roundtrip[OF ok(1)] by (simp add: originate_from_str_def del: join.simps append_Cons)
  also have "\<dots> = Inr (o1\<lparr>endpoint := endpoint_view (endpoint o1)\<rparr>)"
    by (rule originate_args_words[OF ok(3) q])
  finally have "originate_from_str (''originate'' @ SP # join [SP] ?ts)
      = Inr (o1\<lparr>endpoint := endpoint_view (endpoint o1)\<rparr>)" .
  moreover have "originate_display (o1\<lparr>endpoint := endpoint_view (endpoint o1)\<rparr>) = originate_display o1"
    by (simp add: originate_display_def endpoint_view_display split: sum.split)
  ultimately show ?thesis
    using disp by auto
qed

text \<open>C29. Originate commands round-trip. For a command whose endpoint text, fields and application names
  are single words, whose variable block is a non-empty \<open>{}\<close> block that itself round-trips
  (or absent), whose application list fits its dialplan and whose optional fields
  have no gap, the command is displayed, and parsing the text gives the same applications, dialplan,
  context, caller id and timeout, and the generic endpoint with the same text and variables;
  displaying what was parsed gives the same text again. Values, arguments and variables may hold
  spaces, quotes and commas.\<close>

theorem originate_roundtrip:
  assumes "originate_ok o1"
  shows "\<exists>s. originate_display o1 = Some s
     \<and> originate_from_str s = Inr (o1\<lparr>endpoint := endpoint_view (endpoint o1)\<rparr>)
     \<and> originate_display (o1\<lparr>endpoint := endpoint_view (endpoint o1)\<rparr>) = Some s"
  using assms by (rule originate_reparses)

definition sample_originate :: Originate where
  "sample_originate =
     \<lparr>endpoint = SofiaGateway ''15551234'' (Some ''internal'') ''carrier''
        (Some (with_vars Default [(''sip_h_X'', ''a, b''), (''origination_caller_id_name'', ''O'' @ [QUOTE] @ ''Neil'')])),
      applications = [application_new ''socket'' (Some ''127.0.0.1:8040 async full'')],
      dialplan = Some Xml, orig_context = Some ''default'', cid_name = Some ''Test'',
      cid_num = Some ''5551234'', orig_timeout = Some 30\<rparr>"

theorem originate_roundtrip_witness:
  "\<exists>s. originate_display sample_originate = Some s
     \<and> originate_from_str s
         = Inr (sample_originate\<lparr>endpoint := endpoint_view (endpoint sample_originate)\<rparr>)"
proof -
  have "originate_ok sample_originate"
    by code_simp
  from originate_roundtrip[OF this] show ?thesis
    by blast
qed

section \<open>Optional fields are positional\<close>

text \<open>Display leaves a missing field out. \<open>move_up k\<close> moves the fields after the missing one into its
  place: the context (0), the caller name (1) or the caller number (2).\<close>

definition timeout_word :: "Originate \<Rightarrow> string option" where
  "timeout_word o1 = map_option (\<lambda>t. nat_to_string (unat t)) (orig_timeout o1)"

fun move_up :: "nat \<Rightarrow> Originate \<Rightarrow> Originate" where
  "move_up 0 o1 =
     o1\<lparr>orig_context := cid_name o1, cid_name := cid_num o1, cid_num := timeout_word o1, orig_timeout := None\<rparr>"
| "move_up (Suc 0) o1 = o1\<lparr>cid_name := cid_num o1, cid_num := timeout_word o1, orig_timeout := None\<rparr>"
| "move_up _ o1 = o1\<lparr>cid_num := timeout_word o1, orig_timeout := None\<rparr>"

fun missing :: "nat \<Rightarrow> Originate \<Rightarrow> bool" where
  "missing 0 o1 = (orig_context o1 = None)"
| "missing (Suc 0) o1 = (cid_name o1 = None)"
| "missing _ o1 = (cid_num o1 = None)"

lemma move_up_endpoint [simp]: "endpoint (move_up k o1) = endpoint o1"
  by (cases "(k, o1)" rule: move_up.cases) simp_all

lemma move_up_display: "missing k o1 \<Longrightarrow> originate_display (move_up k o1) = originate_display o1"
  by (cases "(k, o1)" rule: move_up.cases)
    (auto simp: originate_display_def Let_def timeout_word_def spaced_def split: sum.splits)

text \<open>C33. A missing optional field shifts the ones after it. An originate command without a context (or
  caller name, or caller number) has the same text as the command in which every later field has moved up
  one place, so the text does not say which was meant: when the moved command is well-formed,
  that is what parsing the text gives, with the caller name as the context.\<close>

theorem missing_field_shifts:
  assumes "missing k o1"
  shows "originate_display o1 = originate_display (move_up k o1)
     \<and> (originate_ok (move_up k o1) \<longrightarrow>
          Option.bind (originate_display o1) (\<lambda>s. ok_opt (originate_from_str s))
            = Some ((move_up k o1)\<lparr>endpoint := endpoint_view (endpoint o1)\<rparr>))"
  using move_up_display[OF assms] originate_reparses[of "move_up k o1"] by auto

definition gap_originate :: Originate where
  "gap_originate = sample_originate\<lparr>orig_context := None\<rparr>"

theorem missing_field_shifts_witness:
  "\<exists>o2. Option.bind (originate_display gap_originate) (\<lambda>s. ok_opt (originate_from_str s)) = Some o2
     \<and> cid_name gap_originate = Some ''Test'' \<and> orig_context o2 = Some ''Test''"
proof -
  have "missing 0 gap_originate" "originate_ok (move_up 0 gap_originate)"
    by code_simp+
  with missing_field_shifts[of 0 gap_originate]
  have "Option.bind (originate_display gap_originate) (\<lambda>s. ok_opt (originate_from_str s))
      = Some ((move_up 0 gap_originate)\<lparr>endpoint := endpoint_view (endpoint gap_originate)\<rparr>)" by blast
  moreover have "cid_name gap_originate = Some ''Test''"
    by (simp add: gap_originate_def sample_originate_def)
  ultimately show ?thesis by simp
qed

end
