(* ===== verification/Esl_Demos.thy ===== *)
theory Esl_Demos
  imports Esl_Outbound Esl_Originate
begin

text \<open>
  Two straight-line programs: \<open>src/examples/inbound_client.rs\<close>, which goes on after failed commands, and
  \<open>src/examples/outbound_test.rs\<close>, which counts its passed and failed steps. Both run on \<open>session\<close>s;
  what the operating system and the server do is in their arguments.
\<close>

section \<open>inbound_client\<close>

definition api_body :: "string \<Rightarrow> session \<Rightarrow> string option \<times> session" where
  "api_body command s =
     (case ask (AskCommand (Api command)) (\<lambda>cx. api cx command) s of
        (Inr response, s') \<Rightarrow> (resp_body response, s')
      | (Inl _, s') \<Rightarrow> (None, s'))"

text \<open>A loop of \<open>api\<close> calls; the bodies it got.\<close>

fun api_bodies :: "string list \<Rightarrow> session \<Rightarrow> string list \<times> session" where
  "api_bodies [] s = ([], s)"
| "api_bodies (c # cs) s =
     (case api_body c s of (b, s1) \<Rightarrow>
        case api_bodies cs s1 of (bs, s2) \<Rightarrow> ((case b of Some t \<Rightarrow> t # bs | None \<Rightarrow> bs), s2))"

definition inbound_vars :: "string list" where
  "inbound_vars = [''hostname'', ''domain'', ''local_ip_v4'', ''switch_serial'']"

text \<open>After a successful connect: the three bodies printed, the job started, the values logged, and
  the result of \<open>disconnect\<close>, whose shutdown may fail.\<close>

definition inbound_client :: "string option \<Rightarrow> session \<Rightarrow>
    (string list \<times> string option \<times> string list \<times> unit EslResult) \<times> session" where
  "inbound_client shutdown_error s =
     (case api_bodies [''status'', ''show channels count'', ''sofia status''] s of (printed, s1) \<Rightarrow>
        case ask (AskCommand (BgApi ''version'')) (\<lambda>cx. bgapi cx ''version'') s1 of (r, s2) \<Rightarrow>
          case api_bodies (map (\<lambda>v. ''global_getvar '' @ v) inbound_vars) s2 of (values, s3) \<Rightarrow>
            ((printed, case r of Inr response \<Rightarrow> resp_job_uuid response | Inl _ \<Rightarrow> None,
              map trim values, disconnect shutdown_error), s3))"

lemma api_body_asked: "ss_asked (snd (api_body c s)) = ss_asked s @ [AskCommand (Api c)]"
  by (simp add: api_body_def ask_def split: sum.splits)

lemma api_bodies_asked: "ss_asked (snd (api_bodies cs s)) = ss_asked s @ map (\<lambda>c. AskCommand (Api c)) cs"
proof (induction cs arbitrary: s)
  case (Cons c cs)
  obtain b s1 where b: "api_body c s = (b, s1)" by fastforce
  then show ?case
    using Cons.IH[of s1] api_body_asked[of c s] by (cases "api_bodies cs s1") simp
qed simp

text \<open>Unlike the outbound handler, the inbound client asks everything whatever fails.\<close>

lemma inbound_client_asks_all:
  "ss_asked (snd (inbound_client e s)) = ss_asked s
     @ map (\<lambda>c. AskCommand (Api c)) [''status'', ''show channels count'', ''sofia status'']
     @ [AskCommand (BgApi ''version'')]
     @ map (\<lambda>v. AskCommand (Api (''global_getvar '' @ v))) inbound_vars"
proof -
  obtain printed s1 where p: "api_bodies [''status'', ''show channels count'', ''sofia status''] s = (printed, s1)"
    by fastforce
  obtain r s2 where r: "ask (AskCommand (BgApi ''version'')) (\<lambda>cx. bgapi cx ''version'') s1 = (r, s2)"
    by fastforce
  obtain vs s3 where v: "api_bodies (map (\<lambda>v. ''global_getvar '' @ v) inbound_vars) s2 = (vs, s3)"
    by fastforce
  have "ss_asked s2 = ss_asked s1 @ [AskCommand (BgApi ''version'')]"
    using r by (auto simp: ask_def)
  then show ?thesis
    using p r v api_bodies_asked[of "[''status'', ''show channels count'', ''sofia status'']" s]
      api_bodies_asked[of "map (\<lambda>v. ''global_getvar '' @ v) inbound_vars" s2]
    by (simp add: inbound_client_def del: api_bodies.simps)
qed

section \<open>outbound_test\<close>

datatype test_line = Pass string | Fail string

record tally =
  t_lines :: "test_line list"
  t_pass :: u32
  t_fail :: u32

definition tally_new :: tally where
  "tally_new = \<lparr>t_lines = [], t_pass = 0, t_fail = 0\<rparr>"

definition step_ok :: "string \<Rightarrow> tally \<Rightarrow> tally" where
  "step_ok name t = t\<lparr>t_lines := t_lines t @ [Pass name], t_pass := t_pass t + 1\<rparr>"

definition step_fail :: "string \<Rightarrow> tally \<Rightarrow> tally" where
  "step_fail name t = t\<lparr>t_lines := t_lines t @ [Fail name], t_fail := t_fail t + 1\<rparr>"

definition step_if :: "bool \<Rightarrow> string \<Rightarrow> string \<Rightarrow> tally \<Rightarrow> tally" where
  "step_if ok pass_name fail_name t = (if ok then step_ok pass_name t else step_fail fail_name t)"

text \<open>The wait for the hangup: the events counted, and whether it came. The items are those received
  before the deadline; then the deadline passes or the stream ends.\<close>

fun watch_events :: "event_item list \<Rightarrow> u32 \<Rightarrow> u32 \<times> bool" where
  "watch_events [] n = (n, False)"
| "watch_events (Inl _ # is) n = watch_events is n"
| "watch_events (Inr ev # is) n =
     (if event_type ev = Some ChannelHangup \<or> event_type ev = Some ChannelHangupComplete then (n + 1, True)
      else watch_events is (n + 1))"

definition test_originate :: "16 word \<Rightarrow> Originate" where
  "test_originate port =
     \<lparr>endpoint = Loopback ''9199'' ''test'' None,
      applications = [application_new ''socket''
        (Some (''127.0.0.1:'' @ nat_to_string (unat port) @ '' async full''))],
      dialplan = None, orig_context = None, cid_name = None, cid_num = None, orig_timeout = None\<rparr>"

datatype accepted_call = CallAccepted | AcceptFailed EslError | AcceptTimedOut

record test_world =
  tw_bind :: "(string, 16 word) result"
  tw_connect :: "unit EslResult"
  tw_inbound :: session
  tw_accept :: accepted_call
  tw_client :: session
  tw_items :: "event_item list"
  tw_alive :: bool

text \<open>The ways the program ends: an error of \<open>main\<close>, or the summary with the exit code. A panic of
  the \<open>Display\<close> of the originate command is \<open>TestPanic\<close>.\<close>

datatype test_end = TestError | TestPanic | TestSummary tally nat

definition print_test_summary :: "tally \<Rightarrow> test_end" where
  "print_test_summary t = TestSummary t (if t_fail t > 0 then 1 else 0)"

definition or_text :: "string \<Rightarrow> string option \<Rightarrow> string" where
  "or_text d x = (case x of Some t \<Rightarrow> t | None \<Rightarrow> d)"

definition originate_accepted :: "EslResponse \<Rightarrow> bool" where
  "originate_accepted resp =
     (is_success resp \<or> (case resp_body resp of Some b \<Rightarrow> starts_with ''+OK'' b | None \<Rightarrow> False))"

definition connect_step_name :: "EslResponse \<Rightarrow> string" where
  "connect_step_name resp =
     ''connect session (channel: '' @ or_text ''(unknown)'' (resp_header resp ''Channel-Name'')
     @ '', control: '' @ or_text ''(missing)'' (resp_header resp ''Control'')
     @ '', mode: '' @ or_text ''(missing)'' (resp_header resp ''Socket-Mode'') @ '')''"

text \<open>Steps 5 to 9 on the accepted connection, with the final \<open>exit\<close> whose result is ignored.\<close>

definition test_call :: "test_world \<Rightarrow> tally \<Rightarrow> tally \<times> session" where
  "test_call tw t =
     (case do_connect (tw_client tw) of (r1, s1) \<Rightarrow>
      case ask (AskCommand (MyEvents ''plain'' None)) (\<lambda>cx. myevents cx Plain) s1 of (r2, s2) \<Rightarrow>
      case ask (AskCommand (Linger None)) (\<lambda>cx. linger cx None) s2 of (r3, s3) \<Rightarrow>
      case ask (AskCommand Resume) resume s3 of (r4, s4) \<Rightarrow>
      case watch_events (tw_items tw) 0 of (event_count, got_hangup) \<Rightarrow>
      case ask (AskCommand NoLinger) nolinger s4 of (r5, s5) \<Rightarrow>
        (let t1 = (case r1 of Inr resp \<Rightarrow> step_ok (connect_step_name resp) t
                   | Inl _ \<Rightarrow> step_fail ''connect session'' t);
             t2 = step_if (is_ok r2) ''myevents plain'' ''myevents plain'' t1;
             t3 = step_if (is_ok r3) ''linger'' ''linger'' t2;
             t4 = step_if (is_ok r4) ''resume'' ''resume'' t3;
             t5 = step_if (event_count > 0)
                    (''received '' @ nat_to_string (unat event_count) @ '' event(s)'') ''receive events'' t4;
             t6 = step_if got_hangup ''received hangup event'' ''received hangup event'' t5;
             alive_name = ''connection still alive after hangup (linger)'';
             t7 = (if got_hangup then step_if (tw_alive tw) alive_name alive_name t6 else t6);
             t8 = step_if (is_ok r5) ''nolinger'' ''nolinger'' t7
         in (t8, snd (ask (AskCommand Exit) client_exit s5))))"

definition outbound_test :: "test_world \<Rightarrow> test_end" where
  "outbound_test tw =
     (case tw_bind tw of
        Inl _ \<Rightarrow> TestError
      | Inr port \<Rightarrow>
          (let t1 = step_ok (''bind outbound listener on port '' @ nat_to_string (unat port)) tally_new in
           case tw_connect tw of
             Inl _ \<Rightarrow> TestError
           | Inr _ \<Rightarrow>
               (let t2 = step_ok ''connect inbound ESL'' t1 in
                case originate_display (test_originate port) of
                  None \<Rightarrow> TestPanic
                | Some command \<Rightarrow>
                    (case ask (AskCommand (Api command)) (\<lambda>cx. api cx command) (tw_inbound tw) of
                       (Inl _, _) \<Rightarrow> TestError
                     | (Inr resp, _) \<Rightarrow>
                         (let t3 = step_if (originate_accepted resp) ''originate call'' ''originate call'' t2;
                              accept_name = ''accept outbound connection'' in
                          case tw_accept tw of
                            CallAccepted \<Rightarrow> print_test_summary (fst (test_call tw (step_ok accept_name t3)))
                          | AcceptFailed _ \<Rightarrow> print_test_summary (step_fail accept_name t3)
                          | AcceptTimedOut \<Rightarrow> print_test_summary (step_fail accept_name t3))))))"

section \<open>The summary counts the steps\<close>

definition passes :: "test_line list \<Rightarrow> nat" where
  "passes ls = length (filter (\<lambda>l. case l of Pass _ \<Rightarrow> True | Fail _ \<Rightarrow> False) ls)"

definition fails :: "test_line list \<Rightarrow> nat" where
  "fails ls = length (filter (\<lambda>l. case l of Pass _ \<Rightarrow> False | Fail _ \<Rightarrow> True) ls)"

lemma passes_fails: "passes ls + fails ls = length ls"
  by (induction ls) (auto simp: passes_def fails_def split: test_line.splits)

text \<open>The counters agree with the lines, and at most \<open>n\<close> lines were printed.\<close>

definition tally_ok :: "nat \<Rightarrow> tally \<Rightarrow> bool" where
  "tally_ok n t =
     (length (t_lines t) \<le> n \<and> t_pass t = of_nat (passes (t_lines t)) \<and> t_fail t = of_nat (fails (t_lines t)))"

lemma tally_ok_new: "tally_ok 0 tally_new"
  by (simp add: tally_ok_def tally_new_def passes_def fails_def)

lemma tally_ok_step:
  "tally_ok n t \<Longrightarrow> n < m \<Longrightarrow> tally_ok m (step_ok name t)"
  "tally_ok n t \<Longrightarrow> n < m \<Longrightarrow> tally_ok m (step_fail name t)"
  "tally_ok n t \<Longrightarrow> n < m \<Longrightarrow> tally_ok m (step_if b name name' t)"
  by (auto simp: tally_ok_def step_ok_def step_fail_def step_if_def passes_def fails_def)

lemma tally_ok_mono: "tally_ok n t \<Longrightarrow> n \<le> m \<Longrightarrow> tally_ok m t"
  by (auto simp: tally_ok_def)

lemma test_call_tally:
  assumes "tally_ok n t"
  shows "tally_ok (n + 8) (fst (test_call tw t))"
proof -
  have first: "tally_ok (n + 1) (case r of Inr resp \<Rightarrow> step_ok (connect_step_name resp) t
      | Inl _ \<Rightarrow> step_fail ''connect session'' t)" for r :: "EslResponse EslResult"
    using assms by (cases r) (auto intro: tally_ok_step)
  have hang: "tally_ok (n + 7) (if b then step_if c x y t' else t')" if "tally_ok (n + 6) t'" for b c x y t'
    using that by (auto intro: tally_ok_step(3) tally_ok_mono)
  show ?thesis
    unfolding test_call_def Let_def
    by (simp only: split_beta fst_conv,
        rule tally_ok_step(3)[of "n + 7"], rule hang,
        rule tally_ok_step(3)[of "n + 5"], rule tally_ok_step(3)[of "n + 4"],
        rule tally_ok_step(3)[of "n + 3"], rule tally_ok_step(3)[of "n + 2"],
        rule tally_ok_step(3)[of "n + 1"], rule first) simp_all
qed

lemma not_digit_quote: "\<not> is_digit QUOTE"
  by code_simp

lemma test_originate_text:
  "originate_display (test_originate port) =
     Some (''originate loopback/9199/test '' @ [QUOTE] @ ''&socket(127.0.0.1:'' @ nat_to_string (unat port)
       @ '' async full)'' @ [QUOTE])"
proof -
  have "QUOTE \<notin> set (nat_to_string (unat port))"
    using nat_to_string_digits[of "unat port"] not_digit_quote by blast
  then show ?thesis
    by (simp add: originate_display_def test_originate_def applications_to_string_def application_to_string_def
        application_new_def write_variables_def originate_quote_def spaced_def replace_char_notin
        del: nat_to_string.simps)
qed

text \<open>The outbound test reports what happened. Whenever it prints its summary, the two counters are the
  numbers of passed and failed lines it printed, of which there are at most twelve, so that no counter wraps,
  and the exit code is 0 exactly when no line failed.\<close>

theorem outbound_test_reports:
  assumes "outbound_test tw = TestSummary t code"
  shows "unat (t_pass t) = passes (t_lines t) \<and> unat (t_fail t) = fails (t_lines t)
     \<and> passes (t_lines t) + fails (t_lines t) = length (t_lines t) \<and> length (t_lines t) \<le> 12
     \<and> code = (if fails (t_lines t) = 0 then 0 else 1)"
proof -
  have three: "tally_ok 3 (step_if b x y (step_ok u (step_ok v tally_new)))" for b x y u v
    by (rule tally_ok_step(3)[of 2], rule tally_ok_step(1)[of 1], rule tally_ok_step(1)[of 0],
        rule tally_ok_new) simp_all
  have "tally_ok 12 (step_fail z (step_if b x y (step_ok u (step_ok v tally_new))))" for z b x y u v
    by (rule tally_ok_step(2)[OF three]) simp
  moreover have "tally_ok 12 (fst (test_call tw (step_ok z (step_if b x y (step_ok u (step_ok v tally_new))))))"
    for z b x y u v
    using test_call_tally[OF tally_ok_step(1)[OF three, of 4]] by simp
  ultimately have t: "tally_ok 12 t" and code: "code = (if t_fail t > 0 then 1 else 0)"
    using assms
    by (auto simp only: outbound_test_def Let_def print_test_summary_def test_end.inject test_end.distinct
        split: sum.splits option.splits prod.splits accepted_call.splits)
  have all: "passes (t_lines t) + fails (t_lines t) = length (t_lines t)"
    by (rule passes_fails)
  have small: "unat (of_nat n :: u32) = n" if "n \<le> 12" for n
    using that by (simp add: unsigned_of_nat take_bit_nat_eq_self)
  have counts: "unat (t_pass t) = passes (t_lines t)" "unat (t_fail t) = fails (t_lines t)"
    using t all by (simp_all add: tally_ok_def small)
  then have "t_fail t > 0 \<longleftrightarrow> fails (t_lines t) > 0"
    by (metis gr0I less_irrefl unsigned_0 unsigned_eq_0_iff word_gt_0)
  then show ?thesis
    using t code counts all by (simp add: tally_ok_def)
qed

definition sample_test_world :: test_world where
  "sample_test_world =
     \<lparr>tw_bind = Inr 8040, tw_connect = Inr (), tw_inbound = sample_session, tw_accept = AcceptTimedOut,
      tw_client = sample_session, tw_items = [], tw_alive = True\<rparr>"

lemma sample_test_run:
  "outbound_test sample_test_world = print_test_summary (step_fail ''accept outbound connection''
     (step_ok ''originate call'' (step_ok ''connect inbound ESL''
       (step_ok (''bind outbound listener on port '' @ nat_to_string 8040) tally_new))))"
proof -
  have "\<not> has_newline (nat_to_string 8040)" by (rule nat_to_string_no_newline)
  moreover obtain cmd where cmd: "originate_display (test_originate 8040) = Some cmd" "\<not> has_newline cmd"
    using test_originate_text[of 8040] nat_to_string_no_newline[of 8040] by (simp add: has_newline_def)
  moreover have "is_success (into_response (sample_reply ''+OK''))"
    by (simp add: into_response_def is_success_def resp_status_new sample_reply_def message_new_def
        fmlookup_of_list starts_with_def)
  ultimately show ?thesis
    by (simp add: outbound_test_def sample_test_world_def ask_def sample_session_def api_def sample_send_ok
        originate_accepted_def step_if_def Let_def del: nat_to_string.simps)
qed

theorem outbound_test_reports_witness:
  "\<exists>t. outbound_test sample_test_world = TestSummary t 1 \<and> unat (t_pass t) = 3 \<and> unat (t_fail t) = 1"
proof -
  obtain t code where t: "outbound_test sample_test_world = TestSummary t code"
    and l: "passes (t_lines t) = 3" "fails (t_lines t) = 1"
    by (simp add: sample_test_run print_test_summary_def step_ok_def step_fail_def tally_new_def passes_def fails_def
        del: nat_to_string.simps)
  from outbound_test_reports[OF t] l t show ?thesis by auto
qed

end
