(* ===== verification/Esl_Tracker.thy ===== *)
theory Esl_Tracker
  imports Esl_Client
begin

text \<open>
  The channel tracker of \<open>src/examples/channel_tracker.rs\<close>: what it keeps of every channel, how events
  and the results of \<open>uuid_dump\<close> change it, the bootstrap from \<open>show channels as json\<close>, the summary
  it prints and its event loop. A \<open>HashMap\<close> is a finite map; a panic is \<open>None\<close>.
  \<open>serde_json\<close> is the record \<open>rows_api\<close>, and \<open>pdec_lossy\<close> is percent-decoding followed by
  \<open>decode_utf8_lossy\<close>. The log lines, and the panics inside them, are in \<open>Esl_Tracker_Log\<close>.
\<close>

section \<open>Channels\<close>

definition short_uuid :: "string \<Rightarrow> string option" where
  "short_uuid uuid = cut 8 uuid"

definition display_or :: "('a \<Rightarrow> string) \<Rightarrow> 'a option \<Rightarrow> string" where
  "display_or display o1 = (case o1 of Some v \<Rightarrow> display v | None \<Rightarrow> ''-'')"

definition DB_TO_EVENT :: "(string \<times> string) list" where
  "DB_TO_EVENT =
     [(''uuid'', ''Unique-ID''), (''name'', ''Channel-Name''), (''state'', ''Channel-State''),
      (''callstate'', ''Channel-Call-State''), (''direction'', ''Call-Direction''),
      (''cid_name'', ''Caller-Caller-ID-Name''), (''cid_num'', ''Caller-Caller-ID-Number''),
      (''initial_cid_name'', ''Caller-Orig-Caller-ID-Name''),
      (''initial_cid_num'', ''Caller-Orig-Caller-ID-Number''),
      (''callee_name'', ''Caller-Callee-ID-Name''), (''callee_num'', ''Caller-Callee-ID-Number''),
      (''dest'', ''Caller-Destination-Number''), (''call_uuid'', ''Channel-Call-UUID'')]"

record 'v rows_api = "'v json_api" +
  json_get :: "'v \<Rightarrow> string \<Rightarrow> 'v option"
  json_as_array :: "'v \<Rightarrow> 'v list option"

definition row_text :: "'v rows_api \<Rightarrow> 'v \<Rightarrow> string \<Rightarrow> string option" where
  "row_text js row key = Option.bind (json_get js row key) (json_as_string (json_api.truncate js))"

definition fake_channel_create :: "'v rows_api \<Rightarrow> 'v \<Rightarrow> EslEvent option" where
  "fake_channel_create js row =
     (case row_text js row ''uuid'' of
        None \<Rightarrow> None
      | Some _ \<Rightarrow>
          Some (fold (\<lambda>(json_key, header_name) ev.
                  case row_text js row json_key of
                    Some v \<Rightarrow> if v \<noteq> [] then set_header ev header_name v else ev
                  | None \<Rightarrow> ev)
                DB_TO_EVENT (with_type ChannelCreate)))"

record TrackedChannel =
  tc_data :: headers

definition tracked_new :: TrackedChannel where
  "tracked_new = \<lparr>tc_data = fmempty\<rparr>"

definition tc_get :: "TrackedChannel \<Rightarrow> string \<Rightarrow> string option" where
  "tc_get ch key = fmlookup (tc_data ch) key"

definition tc_var :: "TrackedChannel \<Rightarrow> string \<Rightarrow> string option" where
  "tc_var ch name = fmlookup (tc_data ch) (''variable_'' @ name)"

definition tc_channel_state :: "TrackedChannel \<Rightarrow> ChannelState option" where
  "tc_channel_state ch = Option.bind (tc_get ch ''Channel-State'') (\<lambda>s. ok_opt (channel_state_from_str s))"

definition tc_call_state :: "TrackedChannel \<Rightarrow> CallState option" where
  "tc_call_state ch = Option.bind (tc_get ch ''Channel-Call-State'') (\<lambda>s. ok_opt (call_state_from_str s))"

definition tc_call_direction :: "TrackedChannel \<Rightarrow> CallDirection option" where
  "tc_call_direction ch = Option.bind (tc_get ch ''Call-Direction'') (\<lambda>s. ok_opt (call_direction_from_str s))"

definition tc_hangup_cause :: "TrackedChannel \<Rightarrow> string option" where
  "tc_hangup_cause ch = tc_get ch ''Hangup-Cause''"

text \<open>The loop inserts every header of the event; the order of a \<open>HashMap\<close> does not matter for it.\<close>

definition update_from_event :: "TrackedChannel \<Rightarrow> EslEvent \<Rightarrow> TrackedChannel" where
  "update_from_event ch ev = ch\<lparr>tc_data := fmadd (tc_data ch) (ev_headers ev)\<rparr>"

definition split_key_value :: "string \<Rightarrow> (string \<times> string) option" where
  "split_key_value line =
     map_option (\<lambda>i. (take i line, drop (i + 2) line)) (find_sub '': '' line)"

definition dump_line :: "(string \<Rightarrow> string) \<Rightarrow> string \<Rightarrow> headers \<Rightarrow> headers" where
  "dump_line pdec_lossy line d =
     (case split_key_value line of Some (k, v) \<Rightarrow> fmupd k (pdec_lossy v) d | None \<Rightarrow> d)"

definition update_from_dump :: "(string \<Rightarrow> string) \<Rightarrow> TrackedChannel \<Rightarrow> string \<Rightarrow> TrackedChannel" where
  "update_from_dump pdec_lossy ch body = ch\<lparr>tc_data := fold (dump_line pdec_lossy) (lines body) (tc_data ch)\<rparr>"

section \<open>The tracker\<close>

record ChannelTracker =
  channels :: "(string, TrackedChannel) fmap"
  pending_dumps :: "(string, string) fmap"

definition tracker_new :: ChannelTracker where
  "tracker_new = \<lparr>channels = fmempty, pending_dumps = fmempty\<rparr>"

text \<open>\<open>if let Some(ch) = self.channels.get_mut(uuid) { ... }\<close>.\<close>

definition update_tracked :: "ChannelTracker \<Rightarrow> string \<Rightarrow> (TrackedChannel \<Rightarrow> TrackedChannel) \<Rightarrow> ChannelTracker" where
  "update_tracked t uuid f =
     (case fmlookup (channels t) uuid of
        Some ch \<Rightarrow> t\<lparr>channels := fmupd uuid (f ch) (channels t)\<rparr>
      | None \<Rightarrow> t)"

definition apply_dump :: "(string \<Rightarrow> string) \<Rightarrow> ChannelTracker \<Rightarrow> string \<Rightarrow> string \<Rightarrow> ChannelTracker" where
  "apply_dump pdec_lossy t uuid body = update_tracked t uuid (\<lambda>ch. update_from_dump pdec_lossy ch body)"

definition handle_background_job :: "(string \<Rightarrow> string) \<Rightarrow> ChannelTracker \<Rightarrow> EslEvent \<Rightarrow> ChannelTracker" where
  "handle_background_job pdec_lossy t ev =
     (case job_uuid ev of
        None \<Rightarrow> t
      | Some j \<Rightarrow>
          (case fmlookup (pending_dumps t) j of
             None \<Rightarrow> t
           | Some channel_uuid \<Rightarrow>
               (let t' = t\<lparr>pending_dumps := fmdrop j (pending_dumps t)\<rparr> in
                case ev_body ev of
                  Some body \<Rightarrow> apply_dump pdec_lossy t' channel_uuid body
                | None \<Rightarrow> t')))"

definition update_channel :: "ChannelTracker \<Rightarrow> string \<Rightarrow> EslEvent \<Rightarrow> ChannelTracker" where
  "update_channel t uuid ev = update_tracked t uuid (\<lambda>ch. update_from_event ch ev)"

definition process_event :: "ChannelTracker \<Rightarrow> EslEvent \<Rightarrow> ChannelTracker" where
  "process_event t ev =
     (case event_type ev of
        None \<Rightarrow> t
      | Some et \<Rightarrow>
          (case unique_id ev of
             None \<Rightarrow> t
           | Some uuid \<Rightarrow>
               if et = ChannelCreate then
                 t\<lparr>channels := fmupd uuid (update_from_event tracked_new ev) (channels t)\<rparr>
               else if et = ChannelDestroy then
                 (case fmlookup (channels t) uuid of
                    Some ch \<Rightarrow>
                      (let t' = t\<lparr>channels := fmupd uuid (update_from_event ch ev) (channels t)\<rparr>
                       in t'\<lparr>channels := fmdrop uuid (channels t')\<rparr>)
                  | None \<Rightarrow> t)
               else if et = ChannelUnbridge then
                 update_tracked t uuid (\<lambda>ch.
                   let ch' = update_from_event ch ev
                   in ch'\<lparr>tc_data := fmdrop ''Other-Leg-Unique-ID'' (tc_data ch')\<rparr>)
               else update_channel t uuid ev))"

text \<open>\<open>bootstrap\<close>: the tracker after it and the identifiers it returns.\<close>

fun bootstrap_rows :: "'v rows_api \<Rightarrow> 'v list \<Rightarrow> ChannelTracker \<Rightarrow> string list \<Rightarrow> ChannelTracker \<times> string list" where
  "bootstrap_rows js [] t uuids = (t, uuids)"
| "bootstrap_rows js (row # rows) t uuids =
     (case fake_channel_create js row of
        Some ev \<Rightarrow>
          bootstrap_rows js rows (process_event t ev)
            (case unique_id ev of Some u \<Rightarrow> uuids @ [u] | None \<Rightarrow> uuids)
      | None \<Rightarrow> bootstrap_rows js rows t uuids)"

definition bootstrap :: "'v rows_api \<Rightarrow> ChannelTracker \<Rightarrow> string \<Rightarrow> ChannelTracker \<times> string list" where
  "bootstrap js t body =
     (case json_from_str (json_api.truncate js) body of
        Inl _ \<Rightarrow> (t, [])
      | Inr json \<Rightarrow>
          (case Option.bind (json_get js json ''rows'') (json_as_array js) of
             Some rows \<Rightarrow> bootstrap_rows js rows t []
           | None \<Rightarrow> (t, [])))"

text \<open>\<open>request_dump\<close>, given what \<open>bgapi\<close> returned.\<close>

definition request_dump :: "EslResponse EslResult \<Rightarrow> ChannelTracker \<Rightarrow> string \<Rightarrow> ChannelTracker" where
  "request_dump response t uuid =
     (case response of
        Inr r \<Rightarrow>
          (case resp_job_uuid r of
             Some j \<Rightarrow> t\<lparr>pending_dumps := fmupd j uuid (pending_dumps t)\<rparr>
           | None \<Rightarrow> t)
      | Inl _ \<Rightarrow> t)"

section \<open>The summary\<close>

text \<open>\<open>{:<n}\<close>: padding counts characters, that is bytes that start one.\<close>

definition char_count :: "string \<Rightarrow> nat" where
  "char_count s = length (filter (\<lambda>c. byte_val c < 128 \<or> 192 \<le> byte_val c) s)"

definition pad_right :: "nat \<Rightarrow> string \<Rightarrow> string" where
  "pad_right n s = s @ replicate (n - char_count s) SP"

definition get_or_dash :: "TrackedChannel \<Rightarrow> string \<Rightarrow> string" where
  "get_or_dash ch key = (case tc_get ch key of Some v \<Rightarrow> v | None \<Rightarrow> ''-'')"

definition format_fields :: "TrackedChannel \<Rightarrow> string \<times> string \<times> string \<times> string \<times> string" where
  "format_fields ch =
     (display_or channel_state_display (tc_channel_state ch),
      display_or call_state_display (tc_call_state ch),
      display_or call_direction_display (tc_call_direction ch),
      get_or_dash ch ''Caller-Caller-ID-Number'', get_or_dash ch ''Channel-Name'')"

text \<open>A flag that shows the first bytes of a value.\<close>

definition cut_flag :: "string \<Rightarrow> nat \<Rightarrow> string option \<Rightarrow> string option" where
  "cut_flag label n v =
     (case v of
        None \<Rightarrow> Some []
      | Some s \<Rightarrow> map_option (\<lambda>c. ''['' @ label @ '':'' @ c @ '']'') (cut n s))"

definition summary_flags :: "TrackedChannel \<Rightarrow> string option" where
  "summary_flags ch =
     Option.bind (cut_flag ''B'' 8 (tc_get ch ''Other-Leg-Unique-ID'')) (\<lambda>bridged.
     Option.bind (cut_flag ''SIP'' 16 (tc_var ch ''sip_call_id'')) (\<lambda>sip.
     Some ((if tc_call_state ch = Some Held then ''[HELD]'' else [])
       @ (if tc_var ch ''rtp_secure_media_confirmed'' \<noteq> None then ''[SEC]'' else [])
       @ bridged @ sip)))"

definition summary_line :: "string \<times> TrackedChannel \<Rightarrow> string option" where
  "summary_line entry =
     (case entry of (uuid, ch) \<Rightarrow>
      case format_fields ch of (state, cs, dir, cid, name) \<Rightarrow>
      map_option (\<lambda>flags.
          pad_right 36 uuid @ ''  '' @ pad_right 14 state @ [SP] @ pad_right 10 cs @ [SP]
          @ pad_right 8 dir @ [SP] @ pad_right 16 cid @ [SP]
          @ pad_right 16 (get_or_dash ch ''Caller-Destination-Number'') @ [SP] @ name
          @ (if flags = [] then [] else SP # flags))
        (summary_flags ch))"

definition summary_heading :: string where
  "summary_heading =
     pad_right 36 ''UUID'' @ ''  '' @ pad_right 14 ''STATE'' @ [SP] @ pad_right 10 ''CALLSTATE'' @ [SP]
     @ pad_right 8 ''DIR'' @ [SP] @ pad_right 16 ''CID-NUM'' @ [SP] @ pad_right 16 ''DEST'' @ '' NAME''"

text \<open>The printed lines; the loop stops at the first line that panics.\<close>

fun collect :: "'a option list \<Rightarrow> 'a list option" where
  "collect [] = Some []"
| "collect (x # xs) = Option.bind x (\<lambda>v. map_option (\<lambda>vs. v # vs) (collect xs))"

definition print_summary :: "ChannelTracker \<Rightarrow> string list option" where
  "print_summary t =
     (if channels t = fmempty then Some []
      else map_option (\<lambda>ls. summary_heading # ls)
             (collect (map summary_line (sorted_list_of_fmap (channels t)))))"

section \<open>The event loop\<close>

text \<open>One item of the event stream, with what \<open>bgapi\<close> returns if it is called for it; the printed
  lines come with the new state.\<close>

definition tracker_step :: "(string \<Rightarrow> string) \<Rightarrow> ChannelTracker \<Rightarrow> event_item \<times> EslResponse EslResult
    \<Rightarrow> (ChannelTracker \<times> string list) option" where
  "tracker_step pdec_lossy t input =
     (case input of
        (Inl _, _) \<Rightarrow> Some (t, [])
      | (Inr ev, response) \<Rightarrow>
          if event_type ev = Some HeartbeatEvent then map_option (\<lambda>ls. (t, ls)) (print_summary t)
          else if event_type ev = Some BackgroundJob then Some (handle_background_job pdec_lossy t ev, [])
          else if event_type ev = Some ChannelCreate then
            (let t' = process_event t ev in
             Some (case unique_id ev of
                     Some uuid \<Rightarrow> request_dump response t' uuid
                   | None \<Rightarrow> t', []))
          else Some (process_event t ev, []))"

fun tracker_loop :: "(string \<Rightarrow> string) \<Rightarrow> ChannelTracker \<Rightarrow> (event_item \<times> EslResponse EslResult) list
    \<Rightarrow> (ChannelTracker \<times> string list) option" where
  "tracker_loop pdec_lossy t [] = Some (t, [])"
| "tracker_loop pdec_lossy t (i # is) =
     Option.bind (tracker_step pdec_lossy t i) (\<lambda>(t', ls).
       map_option (\<lambda>(t'', ls'). (t'', ls @ ls')) (tracker_loop pdec_lossy t' is))"

section \<open>Which channels are tracked\<close>

definition tracked :: "string \<Rightarrow> ChannelTracker \<Rightarrow> bool" where
  "tracked u t = (fmlookup (channels t) u \<noteq> None)"

definition created :: "string \<Rightarrow> EslEvent \<Rightarrow> bool" where
  "created u ev = (event_type ev = Some ChannelCreate \<and> unique_id ev = Some u)"

definition lifecycle :: "string \<Rightarrow> EslEvent \<Rightarrow> bool" where
  "lifecycle u ev =
     ((event_type ev = Some ChannelCreate \<or> event_type ev = Some ChannelDestroy) \<and> unique_id ev = Some u)"

definition loop_events :: "(event_item \<times> EslResponse EslResult) list \<Rightarrow> EslEvent list" where
  "loop_events is = List.map_filter (\<lambda>i. ok_opt (fst i)) is"

lemma loop_events_simps [simp]:
  "loop_events [] = []"
  "loop_events ((Inl e, r) # is) = loop_events is"
  "loop_events ((Inr ev, r) # is) = ev # loop_events is"
  by (simp_all add: loop_events_def map_filter_simps)

lemma tracked_update_tracked [simp]: "tracked u (update_tracked t v f) = tracked u t"
  by (auto simp: tracked_def update_tracked_def split: option.splits)

lemma tracked_request_dump [simp]: "channels (request_dump r t v) = channels t"
  by (simp add: request_dump_def split: sum.splits option.splits)

lemma tracked_background_job [simp]: "tracked u (handle_background_job pd t ev) = tracked u t"
  by (auto simp: handle_background_job_def apply_dump_def Let_def split: option.splits)
    (simp_all add: tracked_def)

lemma tracked_process_event:
  "tracked u (process_event t ev) = (if lifecycle u ev then created u ev else tracked u t)"
proof (cases "event_type ev")
  case None
  then show ?thesis
    by (simp add: process_event_def lifecycle_def)
next
  case (Some et)
  show ?thesis
  proof (cases "unique_id ev")
    case None
    with Some show ?thesis
      by (simp add: process_event_def lifecycle_def)
  next
    case (Some v)
    with \<open>event_type ev = Some et\<close> show ?thesis
      by (auto simp: process_event_def lifecycle_def created_def update_channel_def Let_def
          split: option.splits) (auto simp: tracked_def)
  qed
qed

lemma tracked_cong: "channels t = channels t' \<Longrightarrow> tracked u t = tracked u t'"
  by (simp add: tracked_def)

lemma tracked_step:
  assumes "tracker_step pd t (x, r) = Some (t', out)"
  shows "tracked u t' =
    (case x of Inl _ \<Rightarrow> tracked u t
     | Inr ev \<Rightarrow> if lifecycle u ev then created u ev else tracked u t)"
proof (cases x)
  case (Inl e)
  with assms show ?thesis by (simp add: tracker_step_def)
next
  case (Inr ev)
  have "tracked u t' = tracked u (process_event t ev)" if "event_type ev = Some ChannelCreate"
    using that assms Inr
    by (auto simp: tracker_step_def Let_def intro!: tracked_cong split: option.splits)
  moreover have "tracked u t' = tracked u t \<and> \<not> lifecycle u ev"
    if "event_type ev = Some HeartbeatEvent \<or> event_type ev = Some BackgroundJob"
    using that assms Inr by (auto simp: tracker_step_def lifecycle_def)
  moreover have "tracked u t' = tracked u (process_event t ev)"
    if "event_type ev \<notin> {Some HeartbeatEvent, Some BackgroundJob, Some ChannelCreate}"
    using that assms Inr by (auto simp: tracker_step_def)
  ultimately show ?thesis
    using Inr tracked_process_event[of u t ev] by auto
qed

lemma tracker_loop_Cons:
  assumes "tracker_loop pd t (i # is) = Some (t'', out)"
  obtains t' o1 o2 where "tracker_step pd t i = Some (t', o1)" "tracker_loop pd t' is = Some (t'', o2)"
  using assms by (auto simp: bind_eq_Some_conv)

text \<open>C32. The tracker tracks exactly the live channels. After any sequence of items of the event
  stream (events, parse errors and overflow notices, job results, heartbeats, in any order and with
  any answers to its requests), a channel is tracked exactly when the last
  creation or destruction seen for it was a creation; if there was none, when it was tracked
  before.\<close>

theorem tracked_channels_exact:
  assumes "tracker_loop pd t is = Some (t', out)"
  shows "tracked u t' =
    (let ls = filter (lifecycle u) (loop_events is) in
     if ls = [] then tracked u t else created u (last ls))"
  using assms
proof (induction "is" arbitrary: t out)
  case (Cons i "is")
  obtain x r where i: "i = (x, r)" by (cases i)
  obtain t1 o1 o2 where s: "tracker_step pd t (x, r) = Some (t1, o1)" "tracker_loop pd t1 is = Some (t', o2)"
    using tracker_loop_Cons[OF Cons.prems] i by metis
  show ?case
    using Cons.IH[OF s(2)] tracked_step[OF s(1), of u] i by (cases x) (auto simp: Let_def)
qed simp

section \<open>What is stored of a channel\<close>

text \<open>The events that are merged into the channel \<open>u\<close>, and the last value a list of events
  gives to a header.\<close>

definition concerns :: "string \<Rightarrow> EslEvent \<Rightarrow> bool" where
  "concerns u ev =
     (event_type ev \<notin> {None, Some HeartbeatEvent, Some BackgroundJob} \<and> unique_id ev = Some u)"

definition last_value :: "string \<Rightarrow> EslEvent list \<Rightarrow> string option" where
  "last_value h evs = Option.bind (List.find (\<lambda>ev. header ev h \<noteq> None) (rev evs)) (\<lambda>ev. header ev h)"

lemma last_value_snoc:
  "last_value h (evs @ [ev]) = (case header ev h of Some v \<Rightarrow> Some v | None \<Rightarrow> last_value h evs)"
  by (simp add: last_value_def split: option.splits)

lemma get_update_from_event:
  "tc_get (update_from_event ch ev) h = (case header ev h of Some v \<Rightarrow> Some v | None \<Rightarrow> tc_get ch h)"
  by (auto simp: tc_get_def update_from_event_def header_def fmlookup_dom_iff split: option.splits)

definition stored :: "ChannelTracker \<Rightarrow> string \<Rightarrow> string \<Rightarrow> string option" where
  "stored t u h = Option.bind (fmlookup (channels t) u) (\<lambda>ch. tc_get ch h)"

lemma stored_update_tracked:
  "stored (update_tracked t v f) u h =
     (if u = v then Option.bind (fmlookup (channels t) u) (\<lambda>ch. tc_get (f ch) h) else stored t u h)"
  by (auto simp: stored_def update_tracked_def split: option.splits)

lemma stored_request_dump [simp]: "stored (request_dump r t v) u h = stored t u h"
  by (simp add: stored_def)

lemma stored_process_other: "unique_id ev \<noteq> Some u \<Longrightarrow> stored (process_event t ev) u h = stored t u h"
  by (auto simp: process_event_def update_channel_def Let_def stored_update_tracked
      split: option.splits) (auto simp: stored_def)

lemma stored_process_create:
  "created u ev \<Longrightarrow> stored (process_event t ev) u h = header ev h"
  by (simp add: created_def process_event_def stored_def get_update_from_event tracked_new_def
      split: option.splits) (simp add: tc_get_def)

lemma stored_process_update:
  assumes "tracked u t" "unique_id ev = Some u" "event_type ev = Some et"
    "et \<noteq> ChannelCreate" "et \<noteq> ChannelDestroy" "h \<noteq> ''Other-Leg-Unique-ID''"
  shows "stored (process_event t ev) u h =
    (case header ev h of Some v \<Rightarrow> Some v | None \<Rightarrow> stored t u h)"
proof -
  obtain ch where ch: "fmlookup (channels t) u = Some ch"
    using assms(1) by (auto simp: tracked_def)
  have "tc_get (ch'\<lparr>tc_data := fmdrop ''Other-Leg-Unique-ID'' (tc_data ch')\<rparr>) h = tc_get ch' h" for ch'
    using assms(6) by (simp add: tc_get_def)
  moreover have "stored t u h = tc_get ch h"
    using ch by (simp add: stored_def)
  ultimately show ?thesis
    using assms ch
    by (simp add: process_event_def update_channel_def stored_update_tracked Let_def
        get_update_from_event split: option.splits)
qed

lemma stored_step:
  assumes "tracker_step pd t (x, r) = Some (t', out)" "tracked u t" "h \<noteq> ''Other-Leg-Unique-ID''"
    and "\<And>ev. x = Inr ev \<Longrightarrow> \<not> lifecycle u ev \<and> event_type ev \<noteq> Some BackgroundJob"
  shows "stored t' u h =
    (case x of Inl _ \<Rightarrow> stored t u h
     | Inr ev \<Rightarrow>
         if concerns u ev then (case header ev h of Some v \<Rightarrow> Some v | None \<Rightarrow> stored t u h)
         else stored t u h)"
proof (cases x)
  case (Inl e)
  with assms(1) show ?thesis by (simp add: tracker_step_def)
next
  case (Inr ev)
  then have n: "\<not> lifecycle u ev" "event_type ev \<noteq> Some BackgroundJob"
    using assms(4) by auto
  have *: "stored t' u h = (if event_type ev = Some HeartbeatEvent then stored t u h
      else stored (process_event t ev) u h)"
    using assms(1) Inr n by (auto simp: tracker_step_def Let_def split: if_splits option.splits)
  show ?thesis
  proof (cases "concerns u ev")
    case False
    then have "unique_id ev \<noteq> Some u \<or> event_type ev = None \<or> event_type ev = Some HeartbeatEvent"
      using n by (auto simp: concerns_def)
    moreover have "event_type ev = None \<Longrightarrow> process_event t ev = t"
      by (simp add: process_event_def)
    ultimately show ?thesis
      using * Inr False stored_process_other[of ev u t h] by auto
  next
    case True
    then obtain et where "event_type ev = Some et" "unique_id ev = Some u"
      by (auto simp: concerns_def)
    then show ?thesis
      using * Inr True n stored_process_update[OF assms(2), of ev et h] assms(3)
      by (auto simp: concerns_def lifecycle_def)
  qed
qed

lemma stored_loop:
  assumes "tracker_loop pd t is = Some (t', out)" "tracked u t" "h \<noteq> ''Other-Leg-Unique-ID''"
    and "\<forall>ev \<in> set (loop_events is). \<not> lifecycle u ev \<and> event_type ev \<noteq> Some BackgroundJob"
    and "stored t u h = last_value h evs"
  shows "stored t' u h = last_value h (evs @ filter (concerns u) (loop_events is))"
  using assms
proof (induction "is" arbitrary: t out evs)
  case (Cons i "is")
  obtain x r where i: "i = (x, r)" by (cases i)
  obtain t1 o1 o2 where s: "tracker_step pd t (x, r) = Some (t1, o1)" "tracker_loop pd t1 is = Some (t', o2)"
    using tracker_loop_Cons[OF Cons.prems(1)] i by metis
  have ok: "\<not> lifecycle u ev \<and> event_type ev \<noteq> Some BackgroundJob" if "x = Inr ev" for ev
    using Cons.prems(4) i that by simp
  have t1: "tracked u t1"
    using tracked_step[OF s(1), of u] ok Cons.prems(2) by (cases x) auto
  have rest: "\<forall>ev \<in> set (loop_events is). \<not> lifecycle u ev \<and> event_type ev \<noteq> Some BackgroundJob"
    using Cons.prems(4) i by (cases x) auto
  let ?evs = "case x of Inl _ \<Rightarrow> evs | Inr ev \<Rightarrow> if concerns u ev then evs @ [ev] else evs"
  have "stored t1 u h = last_value h ?evs"
    using stored_step[OF s(1) Cons.prems(2,3) ok] Cons.prems(5)
    by (cases x) (auto simp: last_value_snoc split: option.split)
  from Cons.IH[OF s(2) t1 Cons.prems(3) rest this] show ?case
    using i by (cases x) auto
qed simp

text \<open>The stored data is the latest. From the creation event of a channel on, as long as it is not
  created again or destroyed, every header but \<open>Other-Leg-Unique-ID\<close> has the value of the last event
  of this channel that carried it, whatever the events of other channels, overflow notices,
  parse errors and heartbeats in between, and whatever was stored under the same identifier before. (Results of
  \<open>uuid_dump\<close> are excluded here; they are the subject of the next property.)\<close>

theorem stored_values_latest:
  assumes "tracker_loop pd t ((Inr c, r) # is) = Some (t', out)" "created u c"
    and "\<forall>ev \<in> set (loop_events is). \<not> lifecycle u ev \<and> event_type ev \<noteq> Some BackgroundJob"
    and "h \<noteq> ''Other-Leg-Unique-ID''"
  shows "stored t' u h = last_value h (c # filter (concerns u) (loop_events is))"
proof -
  obtain t1 o1 o2 where s: "tracker_step pd t (Inr c, r) = Some (t1, o1)" "tracker_loop pd t1 is = Some (t', o2)"
    using tracker_loop_Cons[OF assms(1)] by metis
  have "tracked u t1"
    using tracked_step[OF s(1), of u] assms(2) by (simp add: lifecycle_def created_def)
  moreover have "stored t1 u h = last_value h [c]"
    using s(1) assms(2) stored_process_create[OF assms(2), of t h]
    by (auto simp: tracker_step_def created_def Let_def last_value_def split: option.splits)
  ultimately show ?thesis
    using stored_loop[OF s(2) _ assms(4,3), of "[c]"] by simp
qed

section \<open>Dump results\<close>

text \<open>An item that neither brings the result of the job \<open>j\<close> nor answers a request with \<open>j\<close>.\<close>

definition leaves_job :: "string \<Rightarrow> event_item \<times> EslResponse EslResult \<Rightarrow> bool" where
  "leaves_job j input =
     ((case fst input of
         Inr ev \<Rightarrow> event_type ev \<noteq> Some BackgroundJob \<or> job_uuid ev \<noteq> Some j
       | Inl _ \<Rightarrow> True)
      \<and> (case snd input of Inr r \<Rightarrow> resp_job_uuid r \<noteq> Some j | Inl _ \<Rightarrow> True))"

lemma pending_update_tracked [simp]: "pending_dumps (update_tracked t u f) = pending_dumps t"
  by (simp add: update_tracked_def split: option.splits)

lemma pending_process_event [simp]: "pending_dumps (process_event t ev) = pending_dumps t"
  by (simp add: process_event_def update_channel_def Let_def split: option.splits)

lemma pending_request_dump:
  "(case r of Inr a \<Rightarrow> resp_job_uuid a \<noteq> Some j | Inl _ \<Rightarrow> True) \<Longrightarrow>
     fmlookup (pending_dumps (request_dump r t v)) j = fmlookup (pending_dumps t) j"
  by (auto simp: request_dump_def split: sum.splits option.splits)

lemma pending_background_job:
  "job_uuid ev \<noteq> Some j \<Longrightarrow>
     fmlookup (pending_dumps (handle_background_job pd t ev)) j = fmlookup (pending_dumps t) j"
  by (auto simp: handle_background_job_def apply_dump_def Let_def split: option.splits)

lemma pending_step:
  assumes "tracker_step pd t i = Some (t', out)" "leaves_job j i"
  shows "fmlookup (pending_dumps t') j = fmlookup (pending_dumps t) j"
  using assms pending_request_dump[of j "snd i"]
  by (auto simp: tracker_step_def leaves_job_def Let_def pending_background_job
      split: prod.splits sum.splits if_splits option.splits)

lemma pending_loop:
  "tracker_loop pd t is = Some (t', out) \<Longrightarrow> \<forall>i \<in> set is. leaves_job j i \<Longrightarrow>
     fmlookup (pending_dumps t') j = fmlookup (pending_dumps t) j"
proof (induction "is" arbitrary: t out)
  case (Cons i "is")
  obtain t1 o1 o2 where "tracker_step pd t i = Some (t1, o1)" "tracker_loop pd t1 is = Some (t', o2)"
    using tracker_loop_Cons[OF Cons.prems(1)] by metis
  with Cons pending_step show ?case by simp
qed simp

text \<open>A dump result reaches the channel it was requested for, once. When a request for the channel
  \<open>u\<close> was answered with the job \<open>j\<close> and the result comes after any items that do not
  concern this job, its lines are merged into \<open>u\<close> if that is still tracked, no other
  channel changes, and the job is forgotten: a second result for it changes nothing.\<close>

theorem dump_result_once:
  assumes "resp_job_uuid r = Some j"
    and "tracker_loop pd (request_dump (Inr r) t u) mid = Some (t1, out)" "\<forall>i \<in> set mid. leaves_job j i"
    and "event_type ev = Some BackgroundJob" "job_uuid ev = Some j" "ev_body ev = Some body"
  shows "\<exists>t2. tracker_step pd t1 (Inr ev, resp) = Some (t2, [])
    \<and> channels t2 = (case fmlookup (channels t1) u of
          Some ch \<Rightarrow> fmupd u (update_from_dump pd ch body) (channels t1)
        | None \<Rightarrow> channels t1)
    \<and> fmlookup (pending_dumps t2) j = None
    \<and> tracker_step pd t2 (Inr ev, resp') = Some (t2, [])"
proof -
  have "fmlookup (pending_dumps t1) j = Some u"
    using pending_loop[OF assms(2,3)] assms(1) by (simp add: request_dump_def)
  then have "channels (handle_background_job pd t1 ev) = (case fmlookup (channels t1) u of
          Some ch \<Rightarrow> fmupd u (update_from_dump pd ch body) (channels t1) | None \<Rightarrow> channels t1)
      \<and> fmlookup (pending_dumps (handle_background_job pd t1 ev)) j = None"
    using assms(5,6)
    by (simp add: handle_background_job_def apply_dump_def update_tracked_def split: option.splits)
  moreover from this have "handle_background_job pd (handle_background_job pd t1 ev) ev
      = handle_background_job pd t1 ev"
    using assms(5) by (simp add: handle_background_job_def[of pd "handle_background_job pd t1 ev"])
  ultimately show ?thesis
    using assms(4) by (simp add: tracker_step_def)
qed

section \<open>When the summary panics\<close>

lemma collect_None_iff: "collect xs = None \<longleftrightarrow> (\<exists>x \<in> set xs. x = None)"
  by (induction xs) (auto simp: bind_eq_None_conv)

text \<open>The summary cuts two values at a fixed byte; the call identifier comes from the SIP peer.\<close>

theorem summary_panics_iff:
  "print_summary t = None \<longleftrightarrow>
     (\<exists>u ch. fmlookup (channels t) u = Some ch
        \<and> ((\<exists>s. tc_get ch ''Other-Leg-Unique-ID'' = Some s \<and> \<not> char_boundary s 8)
          \<or> (\<exists>s. tc_var ch ''sip_call_id'' = Some s \<and> \<not> char_boundary s 16)))"
proof -
  have line: "summary_line (u, ch) = None \<longleftrightarrow>
      (\<exists>s. tc_get ch ''Other-Leg-Unique-ID'' = Some s \<and> \<not> char_boundary s 8)
      \<or> (\<exists>s. tc_var ch ''sip_call_id'' = Some s \<and> \<not> char_boundary s 16)" for u ch
    by (auto simp: summary_line_def format_fields_def summary_flags_def cut_flag_def cut_def
        bind_eq_None_conv split: option.splits if_splits)
  have entries: "(u, ch) \<in> set (sorted_list_of_fmap m) \<longleftrightarrow> fmlookup m u = Some ch"
    for u :: string and ch :: TrackedChannel and m
    by (auto simp: sorted_list_of_fmap_def fmlookup_dom_iff)
  show ?thesis
  proof (cases "channels t = fmempty")
    case True
    then show ?thesis by (simp add: print_summary_def)
  next
    case False
    have "print_summary t = None \<longleftrightarrow>
        (\<exists>u ch. (u, ch) \<in> set (sorted_list_of_fmap (channels t)) \<and> summary_line (u, ch) = None)"
      using False by (simp add: print_summary_def collect_None_iff) force
    then show ?thesis
      by (simp only: entries line)
  qed
qed

section \<open>Examples\<close>

definition channel_event :: "EslEventType \<Rightarrow> string \<Rightarrow> string \<Rightarrow> string \<Rightarrow> event_item \<times> EslResponse EslResult" where
  "channel_event et u h v =
     (Inr (set_header (set_header (with_type et) ''Unique-ID'' u) h v), Inl NotConnected)"

lemma channel_event_simps [simp]:
  "fst (channel_event et u h v) = Inr (set_header (set_header (with_type et) ''Unique-ID'' u) h v)"
  "snd (channel_event et u h v) = Inl NotConnected"
  by (simp_all add: channel_event_def)

lemma loop_events_channel_event [simp]:
  "loop_events (channel_event et u h v # is) =
     set_header (set_header (with_type et) ''Unique-ID'' u) h v # loop_events is"
  by (simp add: channel_event_def)

lemma sample_fields [simp]:
  "event_type (set_header ev h v) = event_type ev" "event_type (with_type et) = Some et"
  "header (with_type et) h = None"
  "h \<noteq> ''Unique-ID'' \<Longrightarrow> unique_id (set_header (set_header ev ''Unique-ID'' u) h v) = Some u"
  by (simp_all add: set_header_def with_type_def header_def unique_id_def HEADER_UNIQUE_ID_def)

lemma channel_event_step:
  assumes "et \<noteq> HeartbeatEvent" "et \<noteq> BackgroundJob" "h \<noteq> ''Unique-ID''"
  shows "tracker_step pd t (channel_event et u h v) =
    Some (process_event t (set_header (set_header (with_type et) ''Unique-ID'' u) h v), [])"
  using assms by (simp add: tracker_step_def channel_event_def request_dump_def Let_def)

lemma sample_loop:
  assumes "\<forall>i \<in> set is. \<exists>et u h v. i = channel_event et u h v \<and> et \<noteq> HeartbeatEvent \<and> et \<noteq> BackgroundJob
    \<and> h \<noteq> ''Unique-ID''"
  shows "\<exists>t'. tracker_loop pd t is = Some (t', [])"
  using assms
proof (induction "is" arbitrary: t)
  case (Cons i "is")
  then obtain et u h v where i: "i = channel_event et u h v" "et \<noteq> HeartbeatEvent" "et \<noteq> BackgroundJob"
    "h \<noteq> ''Unique-ID''"
    by auto
  obtain t' where "tracker_loop pd
      (process_event t (set_header (set_header (with_type et) ''Unique-ID'' u) h v)) is = Some (t', [])"
    using Cons by fastforce
  with i show ?case
    by (simp add: channel_event_step)
qed simp

theorem tracked_channels_exact_witness:
  "\<exists>t' out. tracker_loop id tracker_new
      [channel_event ChannelCreate ''a'' ''H'' ''1'', channel_event ChannelCreate ''b'' ''H'' ''2'',
       channel_event ChannelDestroy ''a'' ''H'' ''3''] = Some (t', out)
     \<and> tracked ''b'' t' \<and> \<not> tracked ''a'' t'"
proof -
  let ?is = "[channel_event ChannelCreate ''a'' ''H'' ''1'', channel_event ChannelCreate ''b'' ''H'' ''2'',
    channel_event ChannelDestroy ''a'' ''H'' ''3'']"
  obtain t' where t': "tracker_loop id tracker_new ?is = Some (t', [])"
    using sample_loop[of ?is id tracker_new] by fastforce
  show ?thesis
    using tracked_channels_exact[OF t', of "''a''"] tracked_channels_exact[OF t', of "''b''"] t'
    by (simp add: lifecycle_def created_def)
qed

theorem stored_values_latest_witness:
  "\<exists>t' out. tracker_loop id tracker_new
      [channel_event ChannelCreate ''a'' ''H'' ''1'', channel_event ChannelAnswer ''b'' ''H'' ''2'',
       channel_event ChannelAnswer ''a'' ''H'' ''3''] = Some (t', out)
     \<and> stored t' ''a'' ''H'' = Some ''3''"
proof -
  let ?is = "[channel_event ChannelAnswer ''b'' ''H'' ''2'', channel_event ChannelAnswer ''a'' ''H'' ''3'']"
  let ?c = "set_header (set_header (with_type ChannelCreate) ''Unique-ID'' ''a'') ''H'' ''1''"
  obtain t' where t': "tracker_loop id tracker_new (channel_event ChannelCreate ''a'' ''H'' ''1'' # ?is) = Some (t', [])"
    using sample_loop[of "channel_event ChannelCreate ''a'' ''H'' ''1'' # ?is" id tracker_new] by fastforce
  then have "tracker_loop id tracker_new ((Inr ?c, Inl NotConnected) # ?is) = Some (t', [])"
    by (simp add: channel_event_def)
  from stored_values_latest[OF this, of "''a''" "''H''"] t' show ?thesis
    by (simp add: lifecycle_def created_def concerns_def last_value_def)
qed

theorem dump_result_once_witness:
  "\<exists>t2. tracker_step id
      (request_dump (Inr (response_new (fmap_of_list [(''Job-UUID'', ''j'')]) None)) tracker_new ''a'')
      (Inr (set_body (set_header (with_type BackgroundJob) ''Job-UUID'' ''j'') ''k: v''), Inl NotConnected)
    = Some (t2, []) \<and> fmlookup (pending_dumps t2) ''j'' = None"
proof -
  let ?r = "response_new (fmap_of_list [(''Job-UUID'', ''j'')]) None"
  let ?ev = "set_body (set_header (with_type BackgroundJob) ''Job-UUID'' ''j'') ''k: v''"
  have "resp_job_uuid ?r = Some ''j''"
    by (simp add: resp_job_uuid_def response_new_def HEADER_JOB_UUID_def fmlookup_of_list)
  moreover have "event_type ?ev = Some BackgroundJob" "job_uuid ?ev = Some ''j''" "ev_body ?ev = Some ''k: v''"
    by (simp_all add: set_body_def job_uuid_def header_def set_header_def with_type_def)
  ultimately show ?thesis
    using dump_result_once[of ?r "''j''" id tracker_new "''a''" "[]"
        "request_dump (Inr ?r) tracker_new ''a''" "[]" ?ev "''k: v''"]
    by auto
qed

text \<open>A call identifier whose 16th byte boundary is inside a character stops the tracker at the next
  heartbeat.\<close>

lemma summary_panic_call_id:
  assumes "\<not> char_boundary v 16"
  shows "\<exists>t1. tracker_loop pd tracker_new [channel_event ChannelCreate u ''variable_sip_call_id'' v] = Some (t1, [])
     \<and> print_summary t1 = None"
proof -
  let ?c = "set_header (set_header (with_type ChannelCreate) ''Unique-ID'' u) ''variable_sip_call_id'' v"
  have "fmlookup (channels (process_event tracker_new ?c)) u = Some (update_from_event tracked_new ?c)"
    by (simp add: process_event_def)
  moreover have "tc_var (update_from_event tracked_new ?c) ''sip_call_id'' = Some v"
    using get_update_from_event[of tracked_new ?c "''variable_sip_call_id''"]
    by (simp add: tc_var_def tc_get_def)
  ultimately have "print_summary (process_event tracker_new ?c) = None"
    unfolding summary_panics_iff using assms by blast
  then show ?thesis
    by (simp add: channel_event_step)
qed

theorem summary_panic_reachable:
  "\<exists>t1. tracker_loop id tracker_new
      [channel_event ChannelCreate ''a'' ''variable_sip_call_id''
         (''0123456789abcde'' @ [CHR 0xC3, CHR 0xA9])] = Some (t1, [])
     \<and> print_summary t1 = None"
  by (rule summary_panic_call_id) code_simp

end
