(* ===== verification/Esl_Tracker_Run.thy ===== *)
theory Esl_Tracker_Run
  imports Esl_Tracker Esl_Session
begin

text \<open>
  The main program of \<open>src/examples/channel_tracker.rs\<close>: its arguments, the subscription and bootstrap, and
  the event loop together with the dumps it asks for. A panic is \<open>None\<close>.
\<close>

section \<open>Arguments\<close>

definition tracker_address :: "string option \<Rightarrow> (string \<times> 16 word) option" where
  "tracker_address arg1 =
     (case arg1 of
        Some hp \<Rightarrow>
          (case split_once COLON hp of
             Some (h, p) \<Rightarrow>
               (case parse_uint (2 ^ 16 - 1) p of
                  Inr n \<Rightarrow> Some (h, of_nat n)
                | Inl _ \<Rightarrow> None)
           | None \<Rightarrow> Some (hp, of_nat DEFAULT_ESL_PORT))
      | None \<Rightarrow> Some (''localhost'', of_nat DEFAULT_ESL_PORT))"

definition tracker_password :: "string option \<Rightarrow> string" where
  "tracker_password arg2 = (case arg2 of Some p \<Rightarrow> p | None \<Rightarrow> ''ClueCon'')"

definition tracker_connect :: "'q network \<Rightarrow> string option \<Rightarrow> 'q reader EslResult" where
  "tracker_connect net arg2 = connect net (tracker_password arg2)"

section \<open>Requests\<close>

definition tracker_events :: "EslEventType list" where
  "tracker_events =
     [ChannelCreate, ChannelDestroy, ChannelState, ChannelCallstate, ChannelAnswer, ChannelHangup,
      ChannelHangupComplete, ChannelExecute, ChannelExecuteComplete, ChannelHold, ChannelUnhold,
      ChannelBridge, ChannelUnbridge, ChannelProgress, ChannelProgressMedia, ChannelOutgoing, ChannelPark,
      ChannelUnpark, ChannelApplication, ChannelOriginate, ChannelUuid, CallSecure, CallUpdate,
      BackgroundJob, HeartbeatEvent]"

definition dump_command :: "string \<Rightarrow> string" where
  "dump_command uuid = ''uuid_dump '' @ uuid"

definition ask_dump :: "string \<Rightarrow> session \<Rightarrow> EslResponse EslResult \<times> session" where
  "ask_dump uuid s = ask (AskCommand (BgApi (dump_command uuid))) (\<lambda>cx. bgapi cx (dump_command uuid)) s"

fun request_dumps :: "string list \<Rightarrow> ChannelTracker \<Rightarrow> session \<Rightarrow> ChannelTracker \<times> session" where
  "request_dumps [] t s = (t, s)"
| "request_dumps (u # us) t s =
     (case ask_dump u s of (response, s') \<Rightarrow> request_dumps us (request_dump response t u) s')"

definition tracker_start :: "'v rows_api \<Rightarrow> session \<Rightarrow> ChannelTracker EslResult \<times> session" where
  "tracker_start js s =
     and_then (do_subscribe Plain tracker_events s) (\<lambda>_ s1.
       case ask (AskCommand (Api ''show channels as json'')) (\<lambda>cx. api cx ''show channels as json'') s1 of
         (Inr response, s2) \<Rightarrow>
           (case resp_body response of
              Some body \<Rightarrow>
                (case bootstrap js tracker_new body of (t, uuids) \<Rightarrow>
                   case request_dumps uuids t s2 of (t', s3) \<Rightarrow> (Inr t', s3))
            | None \<Rightarrow> (Inr tracker_new, s2))
       | (Inl _, s2) \<Rightarrow> (Inr tracker_new, s2))"

text \<open>The channel whose dump an item makes the loop ask for.\<close>

definition dump_for :: "event_item \<Rightarrow> string option" where
  "dump_for item =
     (case item of
        Inl _ \<Rightarrow> None
      | Inr ev \<Rightarrow> (if event_type ev = Some ChannelCreate then unique_id ev else None))"

text \<open>The event loop. When nothing is asked, the response \<open>tracker_step\<close> is given is not used.\<close>

definition item_response :: "event_item \<Rightarrow> session \<Rightarrow> EslResponse EslResult \<times> session" where
  "item_response item s =
     (case dump_for item of Some u \<Rightarrow> ask_dump u s | None \<Rightarrow> (Inl NotConnected, s))"

fun tracker_serve :: "(string \<Rightarrow> string) \<Rightarrow> ChannelTracker \<Rightarrow> event_item list \<Rightarrow> session
    \<Rightarrow> ((ChannelTracker \<times> string list) \<times> session) option" where
  "tracker_serve pdec_lossy t [] s = Some ((t, []), s)"
| "tracker_serve pdec_lossy t (i # is) s =
     (case item_response i s of (response, s1) \<Rightarrow>
        Option.bind (tracker_step pdec_lossy t (i, response)) (\<lambda>(t1, ls).
          map_option (\<lambda>((t2, ls'), s2). ((t2, ls @ ls'), s2)) (tracker_serve pdec_lossy t1 is s1)))"

section \<open>The loop is the loop of the tracker\<close>

text \<open>The program's loop is \<open>tracker_loop\<close> with the answers the server gave.\<close>

lemma tracker_serve_loop:
  "tracker_serve pd t items s = Some (out, s') \<Longrightarrow>
     \<exists>responses. length responses = length items \<and> tracker_loop pd t (zip items responses) = Some out"
proof (induction items arbitrary: t s out)
  case (Cons i "is")
  obtain r s1 where r: "item_response i s = (r, s1)" by fastforce
  with Cons.prems obtain t1 ls t2 ls' where
    st: "tracker_step pd t (i, r) = Some (t1, ls)" "tracker_serve pd t1 is s1 = Some ((t2, ls'), s')"
      "out = (t2, ls @ ls')"
    by (auto simp: bind_eq_Some_conv)
  from Cons.IH[OF st(2)] obtain rs where
    "length rs = length is" "tracker_loop pd t1 (zip is rs) = Some (t2, ls')" by blast
  with st show ?case by (intro exI[of _ "r # rs"]) simp
qed simp

lemma ask_dump_asked: "ss_asked (snd (ask_dump u s)) = ss_asked s @ [AskCommand (BgApi (dump_command u))]"
  by (simp add: ask_dump_def ask_def)

text \<open>The loop asks for the dump of every channel that is created, once each time, and for nothing
  else.\<close>

lemma tracker_serve_asked:
  "tracker_serve pd t items s = Some (out, s') \<Longrightarrow>
     ss_asked s' = ss_asked s @ map (\<lambda>u. AskCommand (BgApi (dump_command u))) (List.map_filter dump_for items)"
proof (induction items arbitrary: t s out)
  case (Cons i "is")
  obtain r s1 where r: "item_response i s = (r, s1)" by fastforce
  with Cons.prems obtain t1 ls x where "tracker_serve pd t1 is s1 = Some (x, s')"
    by (auto simp: bind_eq_Some_conv)
  moreover have "ss_asked s1 = ss_asked s
      @ (case dump_for i of Some u \<Rightarrow> [AskCommand (BgApi (dump_command u))] | None \<Rightarrow> [])"
    using r ask_dump_asked by (auto simp: item_response_def split: option.splits) (metis snd_conv)
  ultimately show ?case
    using Cons.IH by (auto simp: map_filter_simps split: option.splits)
qed (simp add: map_filter_simps)

lemma request_dumps_asked:
  "ss_asked (snd (request_dumps us t s)) = ss_asked s @ map (\<lambda>u. AskCommand (BgApi (dump_command u))) us"
proof (induction us arbitrary: t s)
  case (Cons u us)
  obtain r s1 where r: "ask_dump u s = (r, s1)" by fastforce
  with Cons.IH[of "request_dump r t u" s1] ask_dump_asked[of u s] show ?case by simp
qed simp

text \<open>An address that is an IPv6 address without brackets panics.\<close>

theorem tracker_address_ipv6: "tracker_address (Some ''::1'') = None"
  by code_simp

end
