(* ===== verification/Esl_Mains.thy ===== *)
theory Esl_Mains
  imports Esl_Filter_Tool Esl_Listener Esl_Demos Esl_Tracker_Run
begin

text \<open>
  The \<open>main\<close> functions of the programs under \<open>src/examples\<close> from end to end: the connection, which
  of its failures is told how, and what follows. Whether an I/O error is \<open>ErrorKind::ConnectionRefused\<close> is
  the argument \<open>refused\<close>; the network, the items of the event stream and the context every request finds are
  arguments too.
\<close>

section \<open>Connecting\<close>

text \<open>How a program ends: with an exit code, with the error \<open>main\<close> returns (exit code 1), or by a panic.\<close>

datatype program_end = Exited nat | MainError EslError | MainPanic

definition refused_error :: "(string \<Rightarrow> bool) \<Rightarrow> EslError \<Rightarrow> bool" where
  "refused_error refused e = (case e of Io s \<Rightarrow> refused s | _ \<Rightarrow> False)"

text \<open>The log line of the clients that use \<open>connect\<close>; the first argument is the line for a refused
  connection.\<close>

definition connect_error_line :: "string \<Rightarrow> (string \<Rightarrow> bool) \<Rightarrow> EslError \<Rightarrow> string" where
  "connect_error_line refused_text refused e =
     (if refused_error refused e then refused_text else ''Failed to connect: '' @ esl_error_display e)"

definition local_refused :: string where
  "local_refused = ''Failed to connect to FreeSWITCH - is it running on localhost:8021?''"

section \<open>event_filter\<close>

definition usage_text :: string where
  "usage_text = join [NL]
     [''ESL Event Filter - Filter FreeSWITCH events by header values'',
      [],
      ''Usage: event_filter [OPTIONS]'',
      [],
      ''Connection Options:'',
      ''  -H, --host <HOST>        FreeSWITCH host (default: localhost)'',
      ''  -P, --port <PORT>        ESL port (default: 8021)'',
      ''  -p, --password <PASS>    ESL password (default: ClueCon)'',
      ''  -u, --user <USER>        Username for userauth (format: user@domain)'',
      [],
      ''Filter Options:'',
      ''  -e, --event <EVENT>      Event type to subscribe to (can be repeated)'',
      ''                           Examples: CHANNEL_CREATE, CHANNEL_ANSWER, ALL'',
      ''  -f, --filter <HEADER>    Header name to filter on'',
      ''  -v, --value <VALUE>      Value to match (use /regex/ for regex matching)'',
      [],
      ''Output Options:'',
      ''  -j, --json               Output events as JSON'',
      ''  -r, --raw                Output raw event format'',
      ''  -q, --quiet              Only output matching event headers, not full event'',
      [],
      ''Examples:'',
      ''  # Filter CHANNEL_CREATE events where caller contains '' @ [CHR 0x22] @ ''ra232'' @ [CHR 0x22],
      ''  event_filter -e CHANNEL_CREATE -f Caller-Caller-ID-Number -v '' @ [QUOTE] @ ''/ra232/'' @ [QUOTE],
      [],
      ''  # Exact match on call direction'',
      ''  event_filter -e CHANNEL_CREATE -f Call-Direction -v inbound'',
      [],
      ''  # Multiple events with JSON output'',
      ''  event_filter -e CHANNEL_CREATE -e CHANNEL_ANSWER -f Caller-Context -v public -j'',
      [],
      ''  # With userauth (user@domain format)'',
      ''  event_filter -u admin@default -p secret -e ALL'',
      [],
      ''Common Header Names:'',
      ''  Caller-Caller-ID-Number   Calling party number'',
      ''  Caller-Caller-ID-Name     Calling party name'',
      ''  Caller-Destination-Number Destination number'',
      ''  Call-Direction            inbound/outbound'',
      ''  Caller-Context            Dialplan context'',
      ''  variable_sip_from_user    SIP From username'',
      ''  variable_sip_to_user      SIP To username'',
      ''  Unique-ID                 Channel UUID'',
      []]"

definition filter_connecting :: "Args \<Rightarrow> string" where
  "filter_connecting a =
     ''Connecting to FreeSWITCH at '' @ arg_host a @ '':'' @ nat_to_string (unat (arg_port a))
     @ (case arg_user a of Some user \<Rightarrow> '' as '' @ user | None \<Rightarrow> []) @ ''...''"

definition filter_connect_error :: "(string \<Rightarrow> bool) \<Rightarrow> Args \<Rightarrow> EslError \<Rightarrow> string" where
  "filter_connect_error refused a e =
     (case e of
        AuthenticationFailed reason \<Rightarrow> ''Authentication failed: '' @ reason
      | _ \<Rightarrow>
          if refused_error refused e then
            ''Connection refused - is FreeSWITCH running on '' @ arg_host a @ '':''
              @ nat_to_string (unat (arg_port a)) @ ''?''
          else ''Failed to connect: '' @ esl_error_display e)"

text \<open>The lines on the standard error up to the subscription, the output, and how the program ends.\<close>

record filter_outcome =
  fo_stderr :: "string list"
  fo_stdout :: "string list"
  fo_end :: program_end

definition filter_main :: "(string \<Rightarrow> bool) \<Rightarrow> 'q network
    \<Rightarrow> (headers \<Rightarrow> (string, string) result) \<Rightarrow> header_order \<Rightarrow> string list \<Rightarrow> event_item list \<Rightarrow> string option
    \<Rightarrow> session \<Rightarrow> filter_outcome \<times> session" where
  "filter_main refused net json_write ord_ev argv items shutdown_error s =
     (case parse_args argv of
        ArgsHelp \<Rightarrow> (\<lparr>fo_stderr = [usage_text], fo_stdout = [], fo_end = Exited 0\<rparr>, s)
      | ArgsErr e \<Rightarrow> (\<lparr>fo_stderr = [''Error: '' @ e, [], usage_text], fo_stdout = [], fo_end = Exited 1\<rparr>, s)
      | ArgsOk a \<Rightarrow>
          (case filter_connect net a of
             Inl e \<Rightarrow>
               (\<lparr>fo_stderr = [filter_connecting a, filter_connect_error refused a e], fo_stdout = [],
                 fo_end = Exited 1\<rparr>, s)
           | Inr _ \<Rightarrow>
               (case filter_run json_write ord_ev a items shutdown_error s of
                  ((ended, outs), s') \<Rightarrow>
                    (\<lparr>fo_stderr = [filter_connecting a, ''Connected successfully''], fo_stdout = outs,
                      fo_end = (case ended of
                          FilterExit \<Rightarrow> Exited 1 | FilterError e \<Rightarrow> MainError e
                        | FilterPanic \<Rightarrow> MainPanic | FilterDone \<Rightarrow> Exited 0)\<rparr>, s'))))"

section \<open>event_listener and inbound_client\<close>

definition end_of :: "unit EslResult \<Rightarrow> program_end" where
  "end_of r = (case r of Inr _ \<Rightarrow> Exited 0 | Inl e \<Rightarrow> MainError e)"

definition listener_main :: "(string \<Rightarrow> bool) \<Rightarrow> 'q network \<Rightarrow> timed_item list \<Rightarrow> string option \<Rightarrow> session
    \<Rightarrow> (program_end \<times> string list \<times> log_line list) \<times> session" where
  "listener_main refused net items shutdown_error s =
     (case connect net ''ClueCon'' of
        Inl e \<Rightarrow> ((MainError e, [connect_error_line local_refused refused e], []), s)
      | Inr _ \<Rightarrow>
          (case listener_run items shutdown_error s of
             ((r, logged), s') \<Rightarrow> ((end_of r, [''Successfully connected to FreeSWITCH''], logged), s')))"

definition inbound_main :: "(string \<Rightarrow> bool) \<Rightarrow> 'q network \<Rightarrow> string option \<Rightarrow> session
    \<Rightarrow> (program_end \<times> string list \<times> string list) \<times> session" where
  "inbound_main refused net shutdown_error s =
     (case connect net ''ClueCon'' of
        Inl e \<Rightarrow> ((MainError e, [connect_error_line local_refused refused e], []), s)
      | Inr _ \<Rightarrow>
          (case inbound_client shutdown_error s of
             ((printed, job, values, r), s') \<Rightarrow>
               ((end_of r, [''Successfully connected to FreeSWITCH''], printed), s')))"

section \<open>outbound_server\<close>

text \<open>One accepted connection is served by its own task, with the items of its event stream and the
  answers it gets; the accept loop goes on with the next one whatever the task does and ends at the
  first error of \<open>accept\<close>.\<close>

datatype accept_result = AcceptOk "event_item list" session | AcceptErr string

fun accept_loop :: "(nat \<Rightarrow> 'q) \<Rightarrow> nat \<Rightarrow> accept_result list \<Rightarrow> ('q reader \<times> unit EslResult \<times> session) list" where
  "accept_loop make_channel now [] = []"
| "accept_loop make_channel now (AcceptErr e # _) = []"
| "accept_loop make_channel now (AcceptOk items s # rest) =
     (case accept_outbound make_channel None now of
        Inl _ \<Rightarrow> []
      | Inr r \<Rightarrow>
          (case handle_call items s of (result, s') \<Rightarrow> (r, result, s') # accept_loop make_channel now rest))"

definition outbound_server_main :: "(nat \<Rightarrow> 'q) \<Rightarrow> nat \<Rightarrow> string option \<Rightarrow> accept_result list
    \<Rightarrow> program_end \<times> ('q reader \<times> unit EslResult \<times> session) list" where
  "outbound_server_main make_channel now bind_error accepts =
     (case bind_error of
        Some e \<Rightarrow> (MainError (Io e), [])
      | None \<Rightarrow> (Exited 0, accept_loop make_channel now accepts))"

section \<open>outbound_test\<close>

definition ESL_HOST :: string where "ESL_HOST = ''127.0.0.1''"
definition ESL_PORT :: "16 word" where "ESL_PORT = 8022"
definition ESL_PASSWORD :: string where "ESL_PASSWORD = ''ClueCon''"

text \<open>The connection of step 2; host and port reach only the TCP connect.\<close>

definition test_connect :: "'q network \<Rightarrow> unit EslResult" where
  "test_connect net = res_bind (connect net ESL_PASSWORD) (\<lambda>_. Inr ())"

section \<open>channel_tracker\<close>

definition tracker_refused :: "string \<Rightarrow> 16 word \<Rightarrow> string" where
  "tracker_refused host port =
     ''Connection refused '' @ [CHR 0xE2, CHR 0x80, CHR 0x94] @ '' is FreeSWITCH running on '' @ host @ '':''
     @ nat_to_string (unat port) @ ''?''"

definition tracker_main :: "(string \<Rightarrow> bool) \<Rightarrow> 'q network \<Rightarrow> 'v rows_api \<Rightarrow> (string \<Rightarrow> string)
    \<Rightarrow> string option \<Rightarrow> string option \<Rightarrow> event_item list \<Rightarrow> string option \<Rightarrow> session
    \<Rightarrow> (program_end \<times> string list \<times> string list) \<times> session" where
  "tracker_main refused net js pdec_lossy arg1 arg2 items shutdown_error s =
     (case tracker_address arg1 of
        None \<Rightarrow> ((MainPanic, [], []), s)
      | Some (host, port) \<Rightarrow>
          (case tracker_connect net arg2 of
             Inl e \<Rightarrow> ((MainError e, [connect_error_line (tracker_refused host port) refused e], []), s)
           | Inr _ \<Rightarrow>
               (case tracker_start js s of
                  (Inl e, s1) \<Rightarrow> ((MainError e, [], []), s1)
                | (Inr t, s1) \<Rightarrow>
                    (case tracker_serve pdec_lossy t items s1 of
                       None \<Rightarrow> ((MainPanic, [], []), s1)
                     | Some ((_, printed), s2) \<Rightarrow> ((end_of (disconnect shutdown_error), [], printed), s2)))))"

section \<open>Nothing is asked without a connection\<close>

text \<open>Bad arguments and failed connections end every program before its first request.\<close>

lemma no_request_without_connection:
  assumes "\<And>password. \<exists>e. connect net password = Inl e"
    and "\<And>user password. \<exists>e. connect_with_user net user password = Inl e"
  shows "snd (filter_main refused net json_write ord_ev argv items shutdown_error s) = s"
    and "snd (listener_main refused net timed shutdown_error s) = s"
    and "snd (inbound_main refused net shutdown_error s) = s"
    and "snd (tracker_main refused net js pdec_lossy arg1 arg2 items shutdown_error s) = s"
proof -
  obtain e where e: "connect net ''ClueCon'' = Inl e" using assms(1) by blast
  show "snd (listener_main refused net timed shutdown_error s) = s"
    "snd (inbound_main refused net shutdown_error s) = s"
    by (simp_all add: listener_main_def inbound_main_def e)
  have "\<exists>e. filter_connect net a = Inl e" for a
    using assms by (simp add: filter_connect_def split: option.splits)
  then show "snd (filter_main refused net json_write ord_ev argv items shutdown_error s) = s"
    by (auto simp: filter_main_def split: args_outcome.splits sum.splits) (metis sum.simps(4))
  have "\<exists>e. tracker_connect net arg2 = Inl e"
    using assms(1) by (simp add: tracker_connect_def)
  then show "snd (tracker_main refused net js pdec_lossy arg1 arg2 items shutdown_error s) = s"
    by (auto simp: tracker_main_def split: option.splits)
qed

text \<open>The server serves every connection accepted before the first failed \<open>accept\<close>, each by the plan of
  its own events.\<close>

fun accepted_calls :: "accept_result list \<Rightarrow> (event_item list \<times> session) list" where
  "accepted_calls (AcceptOk items s # rest) = (items, s) # accepted_calls rest"
| "accepted_calls _ = []"

lemma accept_loop_plans:
  "map snd (accept_loop make_channel now accepts)
     = map (\<lambda>(items, s). run_plan (call_plan items) s) (accepted_calls accepts)"
proof (induction accepts)
  case (Cons x xs)
  then show ?case
    by (cases x) (simp_all add: accept_outbound_def accept_outbound_with_options_def handle_call_plan split: prod.splits)
qed simp

end
