(* ===== verification/Esl_Tracker_Log.thy ===== *)
theory Esl_Tracker_Log
  imports Esl_Tracker_Run
begin

text \<open>
  The log lines of \<open>src/examples/channel_tracker.rs\<close>. A line is formatted only when its level is enabled,
  and most lines cut an identifier with \<open>short_uuid\<close>, which panics inside a character: \<open>None\<close>. The width
  in \<open>{:<9}\<close> has no effect on an event type, whose \<open>Display\<close> writes the name as it is.
\<close>

section \<open>The lines\<close>

record log_levels =
  log_info :: bool
  log_debug :: bool

definition logged :: "bool \<Rightarrow> string option \<Rightarrow> string list option" where
  "logged enabled line = (if enabled then map_option (\<lambda>l. [l]) line else Some [])"

definition untracked_line :: "EslEventType \<Rightarrow> string \<Rightarrow> string option" where
  "untracked_line et uuid = map_option (\<lambda>u. event_type_display et @ [SP] @ u @ '' (untracked)'') (short_uuid uuid)"

definition print_channel_event :: "ChannelTracker \<Rightarrow> string \<Rightarrow> EslEventType \<Rightarrow> string option" where
  "print_channel_event t uuid et =
     (case fmlookup (channels t) uuid of
        Some ch \<Rightarrow>
          (case format_fields ch of (state, cs, dir, cid, name) \<Rightarrow>
             map_option (\<lambda>u. event_type_display et @ [SP] @ u @ '' state='' @ state @ '' callstate='' @ cs
                 @ '' dir='' @ dir @ '' cid='' @ cid @ '' name='' @ name)
               (short_uuid uuid))
      | None \<Rightarrow> untracked_line et uuid)"

definition destroy_line :: "ChannelTracker \<Rightarrow> string \<Rightarrow> EslEventType \<Rightarrow> EslEvent \<Rightarrow> string option" where
  "destroy_line t uuid et ev =
     (case fmlookup (channels t) uuid of
        Some ch \<Rightarrow>
          (let ch' = update_from_event ch ev in
           map_option (\<lambda>u. event_type_display et @ [SP] @ u
               @ '' cause='' @ (case tc_hangup_cause ch' of Some c \<Rightarrow> c | None \<Rightarrow> ''UNKNOWN'')
               @ '' name='' @ get_or_dash ch' ''Channel-Name'')
             (short_uuid uuid))
      | None \<Rightarrow> untracked_line et uuid)"

definition hangup_line :: "ChannelTracker \<Rightarrow> string \<Rightarrow> EslEventType \<Rightarrow> string option" where
  "hangup_line t uuid et =
     map_option (\<lambda>u. event_type_display et @ [SP] @ u @ '' cause=''
         @ (case Option.bind (fmlookup (channels t) uuid) tc_hangup_cause of Some c \<Rightarrow> c | None \<Rightarrow> ''-''))
       (short_uuid uuid)"

text \<open>\<open>process_event\<close>: the line it logs, most of them after the update.\<close>

definition process_event_log :: "bool \<Rightarrow> ChannelTracker \<Rightarrow> EslEvent \<Rightarrow> string list option" where
  "process_event_log info t ev =
     (case event_type ev of
        None \<Rightarrow> Some []
      | Some et \<Rightarrow>
          (case unique_id ev of
             None \<Rightarrow> Some []
           | Some uuid \<Rightarrow>
               logged info
                 (if et = ChannelDestroy then destroy_line t uuid et ev
                  else if et = ChannelHangup \<or> et = ChannelHangupComplete then
                    hangup_line (process_event t ev) uuid et
                  else print_channel_event (process_event t ev) uuid et)))"

definition background_job_log :: "bool \<Rightarrow> ChannelTracker \<Rightarrow> EslEvent \<Rightarrow> string list option" where
  "background_job_log debug t ev =
     (case Option.bind (job_uuid ev) (fmlookup (pending_dumps t)) of
        None \<Rightarrow> Some []
      | Some channel_uuid \<Rightarrow>
          if ev_body ev \<noteq> None \<and> fmlookup (channels t) channel_uuid \<noteq> None
          then logged debug (map_option (\<lambda>u. ''uuid_dump applied for '' @ u) (short_uuid channel_uuid))
          else Some [])"

definition request_dump_log :: "bool \<Rightarrow> EslResponse EslResult \<Rightarrow> string \<Rightarrow> string list option" where
  "request_dump_log debug response uuid =
     (case response of
        Inr _ \<Rightarrow> Some []
      | Inl e \<Rightarrow>
          logged debug (map_option (\<lambda>u. ''bgapi uuid_dump '' @ u @ '' failed: '' @ esl_error_display e)
            (short_uuid uuid)))"

definition summary_log :: "bool \<Rightarrow> ChannelTracker \<Rightarrow> string list" where
  "summary_log info t =
     (if \<not> info then []
      else if channels t = fmempty then [''--- No active channels ---'']
      else [''--- '' @ nat_to_string (fcard (fmdom (channels t))) @ '' active channel(s) ---''])"

text \<open>One item of the event loop: the new state, what it prints and what it logs.\<close>

definition tracker_step_logged :: "log_levels \<Rightarrow> (string \<Rightarrow> string) \<Rightarrow> ChannelTracker
    \<Rightarrow> event_item \<times> EslResponse EslResult \<Rightarrow> (ChannelTracker \<times> string list \<times> string list) option" where
  "tracker_step_logged lv pdec_lossy t input =
     Option.bind
       (case input of
          (Inl e, _) \<Rightarrow> Some [''Event error: '' @ esl_error_display e]
        | (Inr ev, response) \<Rightarrow>
            if event_type ev = Some HeartbeatEvent then Some (summary_log (log_info lv) t)
            else if event_type ev = Some BackgroundJob then background_job_log (log_debug lv) t ev
            else if event_type ev = Some ChannelCreate then
              Option.bind (process_event_log (log_info lv) t ev) (\<lambda>ls.
                case unique_id ev of
                  Some uuid \<Rightarrow> map_option (\<lambda>ls'. ls @ ls') (request_dump_log (log_debug lv) response uuid)
                | None \<Rightarrow> Some ls)
            else process_event_log (log_info lv) t ev)
       (\<lambda>log. map_option (\<lambda>(t', printed). (t', printed, log)) (tracker_step pdec_lossy t input))"

fun tracker_loop_logged :: "log_levels \<Rightarrow> (string \<Rightarrow> string) \<Rightarrow> ChannelTracker
    \<Rightarrow> (event_item \<times> EslResponse EslResult) list \<Rightarrow> (ChannelTracker \<times> string list \<times> string list) option" where
  "tracker_loop_logged lv pdec_lossy t [] = Some (t, [], [])"
| "tracker_loop_logged lv pdec_lossy t (i # is) =
     Option.bind (tracker_step_logged lv pdec_lossy t i) (\<lambda>(t', printed, log).
       map_option (\<lambda>(t'', printed', log'). (t'', printed @ printed', log @ log'))
         (tracker_loop_logged lv pdec_lossy t' is))"

section \<open>When the tracker panics\<close>

lemma short_uuid_None: "short_uuid u = None \<longleftrightarrow> \<not> char_boundary u 8"
  by (simp add: short_uuid_def cut_def)

lemma logged_None: "logged b l = None \<longleftrightarrow> b \<and> l = None"
  by (simp add: logged_def)

lemma line_None [simp]:
  "untracked_line et u = None \<longleftrightarrow> \<not> char_boundary u 8"
  "print_channel_event t u et = None \<longleftrightarrow> \<not> char_boundary u 8"
  "destroy_line t u et ev = None \<longleftrightarrow> \<not> char_boundary u 8"
  "hangup_line t u et = None \<longleftrightarrow> \<not> char_boundary u 8"
  by (auto simp: untracked_line_def print_channel_event_def destroy_line_def hangup_line_def short_uuid_None Let_def
      split: option.splits prod.splits)

text \<open>An event is logged whatever its type, so its identifier alone decides.\<close>

lemma process_event_log_None:
  "process_event_log info t ev = None \<longleftrightarrow>
     info \<and> event_type ev \<noteq> None \<and> (\<exists>u. unique_id ev = Some u \<and> \<not> char_boundary u 8)"
  by (auto simp: process_event_log_def logged_None split: option.splits)

text \<open>The values the tracker cuts, and where.\<close>

definition shown :: "(string \<times> nat) list" where
  "shown = [(''Other-Leg-Unique-ID'', 8), (''variable_sip_call_id'', 16)]"

definition fits :: "string \<Rightarrow> string \<Rightarrow> bool" where
  "fits h v = list_all (\<lambda>(h', n). h = h' \<longrightarrow> char_boundary v n) shown"

definition tame_channel :: "TrackedChannel \<Rightarrow> bool" where
  "tame_channel ch = (\<forall>h v. tc_get ch h = Some v \<longrightarrow> fits h v)"

definition tame_tracker :: "ChannelTracker \<Rightarrow> bool" where
  "tame_tracker t =
     ((\<forall>u ch. fmlookup (channels t) u = Some ch \<longrightarrow> tame_channel ch)
      \<and> (\<forall>j u. fmlookup (pending_dumps t) j = Some u \<longrightarrow> char_boundary u 8))"

definition tame_dump :: "(string \<Rightarrow> string) \<Rightarrow> string \<Rightarrow> bool" where
  "tame_dump pdec_lossy body =
     list_all (\<lambda>l. case split_key_value l of Some (k, v) \<Rightarrow> fits k (pdec_lossy v) | None \<Rightarrow> True) (lines body)"

definition tame_event :: "(string \<Rightarrow> string) \<Rightarrow> EslEvent \<Rightarrow> bool" where
  "tame_event pdec_lossy ev =
     ((\<forall>u. unique_id ev = Some u \<longrightarrow> char_boundary u 8) \<and> (\<forall>h v. header ev h = Some v \<longrightarrow> fits h v)
      \<and> (event_type ev = Some BackgroundJob \<longrightarrow> (\<forall>body. ev_body ev = Some body \<longrightarrow> tame_dump pdec_lossy body)))"

lemma tame_new: "tame_tracker tracker_new"
  by (simp add: tame_tracker_def tracker_new_def)

lemma tame_update_from_event: "tame_event pd ev \<Longrightarrow> tame_channel ch \<Longrightarrow> tame_channel (update_from_event ch ev)"
  by (auto simp: tame_channel_def tame_event_def get_update_from_event split: option.splits)

lemma tame_channel_new: "tame_channel tracked_new"
  by (simp add: tame_channel_def tc_get_def tracked_new_def)

lemma tame_update_from_dump:
  assumes "tame_dump pd body" "tame_channel ch"
  shows "tame_channel (update_from_dump pd ch body)"
proof -
  have "\<forall>h v. fmlookup (fold (dump_line pd) ls d) h = Some v \<longrightarrow> fits h v"
    if "list_all (\<lambda>l. case split_key_value l of Some (k, v) \<Rightarrow> fits k (pd v) | None \<Rightarrow> True) ls"
      "\<forall>h v. fmlookup d h = Some v \<longrightarrow> fits h v" for ls d
    using that
  proof (induction ls arbitrary: d)
    case (Cons l ls)
    have "\<forall>h v. fmlookup (dump_line pd l d) h = Some v \<longrightarrow> fits h v"
      using Cons.prems by (auto simp: dump_line_def split: option.splits if_splits)
    with Cons show ?case by simp
  qed simp
  with assms show ?thesis
    by (simp add: tame_channel_def update_from_dump_def tame_dump_def tc_get_def)
qed

lemma tame_update_tracked:
  assumes "tame_tracker t" "\<And>ch. tame_channel ch \<Longrightarrow> tame_channel (f ch)"
  shows "tame_tracker (update_tracked t u f)"
  using assms by (auto simp: tame_tracker_def update_tracked_def split: option.splits)

lemma tame_drop: "tame_tracker t \<Longrightarrow> tame_tracker (t\<lparr>pending_dumps := fmdrop j (pending_dumps t)\<rparr>)"
  by (simp add: tame_tracker_def)

lemma tame_process_event:
  assumes "tame_tracker t" "tame_event pd ev"
  shows "tame_tracker (process_event t ev)"
proof -
  have upd: "tame_channel ch \<Longrightarrow> tame_channel (update_from_event ch ev)" for ch
    using assms(2) by (rule tame_update_from_event)
  have drop: "tame_channel ch \<Longrightarrow> tame_channel (ch\<lparr>tc_data := fmdrop h (tc_data ch)\<rparr>)" for ch h
    by (auto simp: tame_channel_def tc_get_def)
  have set: "tame_tracker (t\<lparr>channels := fmupd u ch (channels t)\<rparr>)" if "tame_channel ch" for u ch
    using assms(1) that by (simp add: tame_tracker_def)
  have del: "tame_tracker (t\<lparr>channels := fmdrop u (fmupd u ch (channels t))\<rparr>)" for u ch
    using assms(1) by (simp add: tame_tracker_def)
  show ?thesis
    using assms(1) upd drop set del tame_channel_new
    by (auto simp: process_event_def update_channel_def Let_def intro!: tame_update_tracked split: option.splits)
qed

lemma tame_request_dump:
  "tame_tracker t \<Longrightarrow> char_boundary u 8 \<Longrightarrow> tame_tracker (request_dump r t u)"
  by (auto simp: request_dump_def tame_tracker_def split: sum.splits option.splits)

lemma tame_background_job:
  assumes "tame_tracker t" "tame_event pd ev" "event_type ev = Some BackgroundJob"
  shows "tame_tracker (handle_background_job pd t ev)"
proof -
  have dump: "tame_tracker (apply_dump pd x u body)" if "tame_tracker x" "ev_body ev = Some body" for x u body
    unfolding apply_dump_def
    using that assms(2,3) tame_update_from_dump by (intro tame_update_tracked) (auto simp: tame_event_def)
  show ?thesis
    using assms(1) dump tame_drop by (auto simp: handle_background_job_def Let_def split: option.splits)
qed

lemma tame_summary: "tame_tracker t \<Longrightarrow> print_summary t \<noteq> None"
proof
  assume "tame_tracker t" "print_summary t = None"
  then obtain u ch h v n where "tame_channel ch" "tc_get ch h = Some v" "(h, n) \<in> set shown" "\<not> char_boundary v n"
    unfolding summary_panics_iff tame_tracker_def shown_def tc_var_def tc_get_def by fastforce
  then show False
    by (fastforce simp: tame_channel_def fits_def list_all_iff)
qed

lemma tame_logs:
  assumes "tame_tracker t" "tame_event pd ev"
  shows "process_event_log b t ev \<noteq> None" "background_job_log b t ev \<noteq> None"
    "unique_id ev = Some u \<Longrightarrow> request_dump_log b r u \<noteq> None"
proof -
  have ok: "\<exists>l. logged b (map_option f (short_uuid v)) = Some l" if "char_boundary v 8" for v and f :: "string \<Rightarrow> string"
    using that by (simp add: logged_def short_uuid_def cut_def)
  show "process_event_log b t ev \<noteq> None"
    using assms(2) by (simp add: process_event_log_None tame_event_def)
  show "background_job_log b t ev \<noteq> None"
    using assms(1) ok by (auto simp: background_job_log_def tame_tracker_def bind_eq_Some_conv split: option.splits)
  show "request_dump_log b r u \<noteq> None" if "unique_id ev = Some u"
    using assms(2) that ok by (auto simp: request_dump_log_def tame_event_def split: sum.splits)
qed

lemma tame_step:
  assumes "tame_tracker t" "\<forall>ev. fst i = Inr ev \<longrightarrow> tame_event pd ev"
  shows "\<exists>t' printed log. tracker_step_logged lv pd t i = Some (t', printed, log) \<and> tame_tracker t'
     \<and> tracker_step pd t i = Some (t', printed)"
proof (cases "fst i")
  case (Inl e)
  with assms(1) show ?thesis
    by (cases i) (simp add: tracker_step_logged_def tracker_step_def)
next
  case (Inr ev)
  obtain r where i: "i = (Inr ev, r)" using Inr by (cases i) simp
  have ev: "tame_event pd ev" using assms(2) Inr by simp
  note logs = tame_logs[OF assms(1) ev]
  consider "event_type ev = Some HeartbeatEvent" | "event_type ev = Some BackgroundJob"
    | "event_type ev = Some ChannelCreate"
    | "event_type ev \<notin> {Some HeartbeatEvent, Some BackgroundJob, Some ChannelCreate}"
    by blast
  then show ?thesis
  proof cases
    case 1
    with i tame_summary[OF assms(1)] assms(1) show ?thesis
      by (auto simp: tracker_step_logged_def tracker_step_def)
  next
    case 2
    with i logs(2)[of "log_debug lv"] tame_background_job[OF assms(1) ev] show ?thesis
      by (auto simp: tracker_step_logged_def tracker_step_def)
  next
    case 3
    have "char_boundary u 8" if "unique_id ev = Some u" for u
      using ev that by (simp add: tame_event_def)
    with 3 i logs(1)[of "log_info lv"] logs(3)[of _ "log_debug lv" r] tame_process_event[OF assms(1) ev]
      tame_request_dump
    show ?thesis
      by (cases "unique_id ev") (auto simp: tracker_step_logged_def tracker_step_def Let_def)
  next
    case 4
    with i logs(1)[of "log_info lv"] tame_process_event[OF assms(1) ev] show ?thesis
      by (auto simp: tracker_step_logged_def tracker_step_def)
  qed
qed

lemma tame_loop:
  assumes "tame_tracker t" "\<forall>i \<in> set is. \<forall>ev. fst i = Inr ev \<longrightarrow> tame_event pd ev"
  shows "\<exists>t' printed log. tracker_loop_logged lv pd t is = Some (t', printed, log)
     \<and> tracker_loop pd t is = Some (t', printed)"
  using assms
proof (induction "is" arbitrary: t)
  case (Cons i "is")
  obtain t1 p l where s: "tracker_step_logged lv pd t i = Some (t1, p, l)" "tame_tracker t1"
    "tracker_step pd t i = Some (t1, p)"
    using tame_step[OF Cons.prems(1)] Cons.prems(2) by (metis list.set_intros(1))
  with Cons.IH[OF s(2)] Cons.prems(2) show ?case by fastforce
qed simp

text \<open>Which items make the loop panic, in a state, at the log levels.\<close>

definition cuts_in_char :: "string \<Rightarrow> nat \<Rightarrow> bool" where
  "cuts_in_char v n = (\<not> char_boundary v n)"

definition summary_panics :: "ChannelTracker \<Rightarrow> bool" where
  "summary_panics t =
     (\<exists>u ch. fmlookup (channels t) u = Some ch
        \<and> ((\<exists>s. tc_get ch ''Other-Leg-Unique-ID'' = Some s \<and> cuts_in_char s 8)
          \<or> (\<exists>s. tc_var ch ''sip_call_id'' = Some s \<and> cuts_in_char s 16)))"

definition step_panics :: "log_levels \<Rightarrow> ChannelTracker \<Rightarrow> event_item \<times> EslResponse EslResult \<Rightarrow> bool" where
  "step_panics lv t input =
     (case input of
        (Inl e, _) \<Rightarrow> False
      | (Inr ev, response) \<Rightarrow>
          if event_type ev = Some HeartbeatEvent then summary_panics t
          else if event_type ev = Some BackgroundJob then
            log_debug lv \<and> ev_body ev \<noteq> None
            \<and> (\<exists>job uuid. job_uuid ev = Some job \<and> fmlookup (pending_dumps t) job = Some uuid
                 \<and> fmlookup (channels t) uuid \<noteq> None \<and> cuts_in_char uuid 8)
          else
            event_type ev \<noteq> None \<and> (\<exists>uuid. unique_id ev = Some uuid \<and> cuts_in_char uuid 8)
            \<and> (log_info lv
               \<or> event_type ev = Some ChannelCreate \<and> log_debug lv \<and> (\<exists>e. response = Inl e)))"

lemma background_job_log_None:
  "background_job_log b t ev = None \<longleftrightarrow> b \<and> ev_body ev \<noteq> None
     \<and> (\<exists>job uuid. job_uuid ev = Some job \<and> fmlookup (pending_dumps t) job = Some uuid
          \<and> fmlookup (channels t) uuid \<noteq> None \<and> \<not> char_boundary uuid 8)"
  by (auto simp: background_job_log_def logged_None short_uuid_None bind_eq_Some_conv split: option.splits)

lemma request_dump_log_None:
  "request_dump_log b r u = None \<longleftrightarrow> b \<and> (\<exists>e. r = Inl e) \<and> \<not> char_boundary u 8"
  by (auto simp: request_dump_log_def logged_None short_uuid_None split: sum.splits)

lemma step_panics_iff: "tracker_step_logged lv pd t i = None \<longleftrightarrow> step_panics lv t i"
proof (cases "fst i")
  case (Inl e)
  then show ?thesis
    by (cases i) (simp add: tracker_step_logged_def tracker_step_def step_panics_def)
next
  case (Inr ev)
  obtain r where i: "i = (Inr ev, r)" using Inr by (cases i) simp
  consider "event_type ev = Some HeartbeatEvent" | "event_type ev = Some BackgroundJob"
    | "event_type ev = Some ChannelCreate"
    | "event_type ev \<notin> {Some HeartbeatEvent, Some BackgroundJob, Some ChannelCreate}"
    by blast
  then show ?thesis
  proof cases
    case 1
    with i show ?thesis
      by (auto simp: tracker_step_logged_def tracker_step_def step_panics_def summary_panics_def cuts_in_char_def
          summary_panics_iff)
  next
    case 2
    then show ?thesis
      by (auto simp: i tracker_step_logged_def tracker_step_def step_panics_def cuts_in_char_def background_job_log_None
          bind_eq_None_conv)
  next
    case 3
    then show ?thesis
      by (auto simp: i tracker_step_logged_def tracker_step_def step_panics_def cuts_in_char_def process_event_log_None
          request_dump_log_None bind_eq_None_conv Let_def split: option.splits)
  next
    case 4
    then show ?thesis
      by (auto simp: i tracker_step_logged_def tracker_step_def step_panics_def cuts_in_char_def process_event_log_None
          bind_eq_None_conv)
  qed
qed

text \<open>C34. When the tracker panics. In any state and at any log level, an item makes the loop panic exactly in these
  cases (\<open>step_panics\<close>): a heartbeat, when a tracked channel has a bridge partner with no character boundary at byte 8
  or a SIP call identifier with none at byte 16; the result of a dump, when it has a body, belongs to a tracked channel whose
  identifier has no boundary at byte 8, and debug lines are logged; any other typed event, when its identifier has
  none and info lines are logged, or when it creates a channel, the dump cannot be requested, and debug lines are logged. If no
  identifier, bridge partner or SIP call identifier, in the events or in the results of the dumps, has a
  character across the byte where it is cut, as with ASCII values, then the loop never panics from the start, and
  the logging changes nothing of what it does.\<close>

theorem tracker_panics_exactly:
  "(tracker_step_logged lv pd t i = None \<longleftrightarrow> step_panics lv t i)
   \<and> ((\<forall>i \<in> set is. \<forall>ev. fst i = Inr ev \<longrightarrow> tame_event pd ev) \<longrightarrow>
      (\<exists>t' printed log. tracker_loop_logged lv pd tracker_new is = Some (t', printed, log)
         \<and> tracker_loop pd tracker_new is = Some (t', printed)))"
  using step_panics_iff tame_loop[OF tame_new, of "is" pd lv] by blast

text \<open>An identifier with a two-byte character across byte 8, and a channel whose identifiers are ASCII.\<close>

theorem tracker_panics_exactly_witness:
  "tracker_step_logged \<lparr>log_info = True, log_debug = False\<rparr> id tracker_new
      (Inr (set_header (with_type ChannelPark) ''Unique-ID'' (''1234567'' @ [CHR 0xC3, CHR 0xA9])), Inl NotConnected) = None
   \<and> (\<exists>t' printed log. tracker_loop_logged \<lparr>log_info = True, log_debug = True\<rparr> id tracker_new
        [channel_event ChannelCreate ''0123-4567-89'' ''variable_sip_call_id'' ''0123456789abcdefgh'']
      = Some (t', printed, log))"
proof
  let ?ev = "set_header (with_type ChannelPark) ''Unique-ID'' (''1234567'' @ [CHR 0xC3, CHR 0xA9])"
  let ?lv = "\<lparr>log_info = True, log_debug = False\<rparr>"
  have "event_type ?ev = Some ChannelPark" "unique_id ?ev = Some (''1234567'' @ [CHR 0xC3, CHR 0xA9])"
    by (simp_all add: set_header_def with_type_def unique_id_def header_def)
  moreover have "\<not> char_boundary (''1234567'' @ [CHR 0xC3, CHR 0xA9]) 8"
    by code_simp
  ultimately have "step_panics ?lv tracker_new (Inr ?ev, Inl NotConnected)"
    by (simp add: step_panics_def cuts_in_char_def)
  then show "tracker_step_logged ?lv id tracker_new (Inr ?ev, Inl NotConnected) = None"
    using tracker_panics_exactly[of ?lv id tracker_new "(Inr ?ev, Inl NotConnected)" "[]"] by blast
  let ?c = "channel_event ChannelCreate ''0123-4567-89'' ''variable_sip_call_id'' ''0123456789abcdefgh''"
  have "char_boundary ''0123-4567-89'' 8" "char_boundary ''0123456789abcdefgh'' 16"
    by code_simp+
  then have "\<forall>ev. fst ?c = Inr ev \<longrightarrow> tame_event id ev"
    by (auto simp: tame_event_def fits_def shown_def set_header_def with_type_def unique_id_def header_def
        split: if_splits)
  then show "\<exists>t' printed log. tracker_loop_logged \<lparr>log_info = True, log_debug = True\<rparr> id tracker_new [?c]
      = Some (t', printed, log)"
    using tracker_panics_exactly[of "\<lparr>log_info = True, log_debug = True\<rparr>" id tracker_new undefined "[?c]"]
    by auto
qed

end
