(* ===== verification/Test_Support.thy ===== *)
theory Test_Support
  imports Esl_Event_Formats "HOL-Library.Code_Target_Nat"
begin

text \<open>
  What the unit tests of the crate share. The theories \<open>Tests_*\<close> translate the \<open>#[test]\<close>
  functions of the modules under \<open>src/src\<close>, each to one closed proposition of the same name that
  holds when no assertion of the test fails, and prove them by evaluating the model: the model
  meets every expectation the authors wrote down for the code, corner cases included.
  \<open>unwrap_ok\<close> and \<open>unwrap_some\<close> are \<open>unwrap()\<close> with the rest of the test as its argument; a failed
  \<open>unwrap\<close> is a failed test. The codec of the crate \<open>percent-encoding\<close> is its reference in
  \<open>Codec\<close>.
\<close>

definition unwrap_ok :: "('e, 'a) result \<Rightarrow> ('a \<Rightarrow> bool) \<Rightarrow> bool" where
  "unwrap_ok r k = (case r of Inl _ \<Rightarrow> False | Inr x \<Rightarrow> k x)"

definition unwrap_some :: "'a option \<Rightarrow> ('a \<Rightarrow> bool) \<Rightarrow> bool" where
  "unwrap_some r k = (case r of None \<Rightarrow> False | Some x \<Rightarrow> k x)"

definition is_err :: "('e, 'a) result \<Rightarrow> bool" where
  "is_err r = (case r of Inl _ \<Rightarrow> True | Inr _ \<Rightarrow> False)"

text \<open>\<open>str::contains\<close>, \<open>str::starts_with\<close> and \<open>str::ends_with\<close>.\<close>

definition contains_str :: "string \<Rightarrow> string \<Rightarrow> bool" where
  "contains_str s pat = (find_sub pat s \<noteq> None)"

definition starts_with_str :: "string \<Rightarrow> string \<Rightarrow> bool" where
  "starts_with_str s pat = starts_with pat s"

definition ends_with_str :: "string \<Rightarrow> string \<Rightarrow> bool" where
  "ends_with_str s pat = (strip_suffix pat s \<noteq> None)"

text \<open>\<open>add_data(\<dots>).unwrap()\<close> and \<open>parse_message().unwrap()\<close> on a parser, with the rest of the test.\<close>

definition added :: "EslParser \<Rightarrow> bytes \<Rightarrow> (EslParser \<Rightarrow> bool) \<Rightarrow> bool" where
  "added p d k = (case add_data p d of (r, p') \<Rightarrow> unwrap_ok r (\<lambda>_. k p'))"

definition parsed :: "EslParser \<Rightarrow> (EslMessage option \<Rightarrow> EslParser \<Rightarrow> bool) \<Rightarrow> bool" where
  "parsed p k = (case parse_message percent_decode_ref p of (r, p') \<Rightarrow> unwrap_ok r (\<lambda>m. k m p'))"

text \<open>
  The format a test passes to \<open>parse_event\<close> is always \<open>Plain\<close> or \<open>Xml\<close>; \<open>xml_read\<close> is the reader
  of \<open>quick-xml\<close>, and the JSON parser is one that accepts no text.
\<close>

definition no_json :: "unit json_api" where
  "no_json = \<lparr>json_from_str = (\<lambda>_. Inl []), json_as_object = (\<lambda>_. None), json_as_string = (\<lambda>_. None),
              json_to_string = (\<lambda>_. [])\<rparr>"

definition parsed_event ::
    "(string \<Rightarrow> xml_event list) \<Rightarrow> EslMessage \<Rightarrow> EventFormat \<Rightarrow> (EslEvent \<Rightarrow> bool) \<Rightarrow> bool" where
  "parsed_event xml_read m fmt k = unwrap_ok (parse_event percent_decode_ref no_json xml_read m fmt) k"

text \<open>A plain event arrives in two parts: an envelope that gives the length, and the body.\<close>

definition framed :: "string \<Rightarrow> string \<Rightarrow> bytes" where
  "framed content_type body =
     ''Content-Length: '' @ nat_to_string (length body) @ [NL] @
     ''Content-Type: '' @ content_type @ [NL, NL] @ body"

text \<open>ASCII texts, which almost all texts of the tests are, evaluate without the tables for other
  characters.\<close>

lemma is_ascii_code [code]: "is_ascii (Char b0 b1 b2 b3 b4 b5 b6 b7) = (\<not> b7)"
  by (simp add: is_ascii_def byte_val_def of_char_def)

lemma utf8_valid_code [code]:
  "utf8_valid s = (if list_all is_ascii s then True else utf8_width s \<noteq> 0 \<and> utf8_valid (drop (utf8_width s) s))"
proof (cases "list_all is_ascii s")
  case True
  then show ?thesis by (simp add: list_all_iff utf8_valid_ascii)
next
  case False
  then show ?thesis by (auto simp: utf8_valid.simps [of s])
qed

lemma to_uppercase_code [code]:
  "to_uppercase s = (if list_all is_ascii s then map ascii_upper s else map_case upper_specials ascii_upper s)"
  by (auto simp: to_uppercase_ascii list_all_iff) (simp add: to_uppercase_def)

lemma to_lowercase_code [code]:
  "to_lowercase s = (if list_all is_ascii s then map ascii_lower s else map_case lower_specials ascii_lower s)"
  by (auto simp: to_lowercase_ascii list_all_iff) (simp add: to_lowercase_def)

text \<open>The search of the buffer and the move to the front evaluate through their abstractions.\<close>

lemma find_pattern_code [code]:
  "find_pattern b pattern = (if pattern = [] then None else find_sub pattern (buf_data b))"
  by (cases "pattern = []") (simp add: find_pattern_def, simp add: find_pattern_find_sub)

lemma compact_code [code]: "compact b = b\<lparr>buffer := buf_data b, position := 0\<rparr>"
  by (cases b) (auto simp: compact_def buf_data_def Let_def buf_len_def copy_to_front_def)

lemmas test_support_defs = unwrap_ok_def unwrap_some_def added_def parsed_def parsed_event_def

end
