(* ===== verification/Tests_Protocol.thy ===== *)
theory Tests_Protocol
  imports Test_Support
begin

text \<open>
  The unit tests of \<open>src/src/protocol.rs\<close>: header parsing, framing and its errors, and plain
  and XML events.
\<close>

section \<open>Headers\<close>

definition test_parse_headers :: bool where
  "test_parse_headers =
     unwrap_ok (parse_headers percent_decode_ref (''Content-Type: auth/request'' @ [CR, NL] @ ''Content-Length: 0''))
       (\<lambda>headers. fmlookup headers ''Content-Type'' = Some ''auth/request''
                \<and> fmlookup headers ''Content-Length'' = Some ''0'')"

definition test_parse_headers_percent_decodes_values :: bool where
  "test_parse_headers_percent_decodes_values =
     unwrap_ok (parse_headers percent_decode_ref (''Content-Type: command%2Freply'' @ [NL] @ ''Reply-Text: %2BOK''))
       (\<lambda>headers. fmlookup headers ''Content-Type'' = Some ''command/reply''
                \<and> fmlookup headers ''Reply-Text'' = Some ''+OK'')"

definition test_parse_headers_noop_for_plain_values :: bool where
  "test_parse_headers_noop_for_plain_values =
     unwrap_ok (parse_headers percent_decode_ref (''Content-Type: command/reply'' @ [NL] @ ''Reply-Text: +OK''))
       (\<lambda>headers. fmlookup headers ''Content-Type'' = Some ''command/reply''
                \<and> fmlookup headers ''Reply-Text'' = Some ''+OK'')"

definition test_parse_headers_invalid_percent_sequence :: bool where
  "test_parse_headers_invalid_percent_sequence =
     unwrap_ok (parse_headers percent_decode_ref (''X-Bad: %ZZinvalid'' @ [NL] @ ''X-Good: clean''))
       (\<lambda>headers. fmlookup headers ''X-Bad'' = Some ''%ZZinvalid''
                \<and> fmlookup headers ''X-Good'' = Some ''clean'')"

section \<open>Framing\<close>

definition test_parse_auth_request :: bool where
  "test_parse_auth_request =
     added parser_new (''Content-Type: auth/request'' @ [NL, NL]) (\<lambda>parser.
       parsed parser (\<lambda>m _. unwrap_some m (\<lambda>message.
         message_type message = AuthRequest \<and> msg_body message = None)))"

definition test_parse_api_response :: bool where
  "test_parse_api_response =
     added parser_new (''Content-Type: api/response'' @ [NL] @ ''Content-Length: 2'' @ [NL, NL] @ ''OK'') (\<lambda>parser.
       parsed parser (\<lambda>m _. unwrap_some m (\<lambda>message.
         message_type message = ApiResponse \<and> msg_body message = Some ''OK'')))"

definition test_incomplete_message :: bool where
  "test_incomplete_message =
     added parser_new (''Content-Type: api/response'' @ [NL] @ ''Content-Length: 10'' @ [NL, NL] @ ''test'') (\<lambda>parser.
       parsed parser (\<lambda>result _. result = None))"

definition test_crlf_header_terminator_not_matched :: bool where
  "test_crlf_header_terminator_not_matched =
     added parser_new (''Content-Type: auth/request'' @ [CR, NL, CR, NL]) (\<lambda>parser.
       parsed parser (\<lambda>result _. result = None))"

definition test_crlf_in_header_values_parsed_correctly :: bool where
  "test_crlf_in_header_values_parsed_correctly =
     added parser_new (''Content-Type: auth/request'' @ [CR, NL] @ ''Some-Header: some-value'' @ [NL, NL]) (\<lambda>parser.
       parsed parser (\<lambda>m _. unwrap_some m (\<lambda>message.
         message_type message = AuthRequest
         \<and> fmlookup (msg_headers message) ''Some-Header'' = Some ''some-value'')))"

definition test_oversized_content_length_rejected :: bool where
  "test_oversized_content_length_rejected =
     added parser_new ((''Content-Type: api/response'' @ [NL] @ ''Content-Length: '')
         @ nat_to_string (MAX_MESSAGE_SIZE + 1) @ [NL, NL]) (\<lambda>parser.
       is_err (fst (parse_message percent_decode_ref parser)))"

definition test_undersized_content_length_corrupts_next_message :: bool where
  "test_undersized_content_length_corrupts_next_message =
     added parser_new (''Content-Type: api/response'' @ [NL] @ ''Content-Length: 2'' @ [NL, NL] @ ''Hello'') (\<lambda>parser.
       parsed parser (\<lambda>m parser. unwrap_some m (\<lambda>message.
         message_type message = ApiResponse \<and> msg_body message = Some ''He''
         \<and> parsed parser (\<lambda>next_message _. next_message = None))))"

definition test_undersized_content_length_followed_by_valid_message :: bool where
  "test_undersized_content_length_followed_by_valid_message =
     added parser_new (''Content-Type: api/response'' @ [NL] @ ''Content-Length: 2'' @ [NL, NL] @ ''Hello'') (\<lambda>parser.
       parsed parser (\<lambda>m parser. unwrap_some m (\<lambda>first.
         msg_body first = Some ''He''
         \<and> added parser (''Content-Type: auth/request'' @ [NL, NL]) (\<lambda>parser.
             is_err (fst (parse_message percent_decode_ref parser))))))"

definition test_non_numeric_content_length_rejected :: bool where
  "test_non_numeric_content_length_rejected =
     added parser_new (''Content-Type: api/response'' @ [NL] @ ''Content-Length: abc'' @ [NL, NL]) (\<lambda>parser.
       is_err (fst (parse_message percent_decode_ref parser)))"

text \<open>The connect response of an outbound session: every value percent-encoded, in one flat block.\<close>

definition connect_headers :: "(string \<times> string) list" where
  "connect_headers =
     [(''Content-Type'', ''command/reply''),
      (''Reply-Text'', ''+OK''),
      (''Socket-Mode'', ''async''),
      (''Control'', ''full''),
      (''Event-Name'', ''CHANNEL_DATA''),
      (''Channel-Name'', ''sofia/internal/1000@example.com''),
      (''Unique-ID'', ''abcd-1234''),
      (''Caller-Caller-ID-Name'', ''Test User'')]"

definition test_parse_connect_response :: bool where
  "test_parse_connect_response =
     added parser_new
       (concat (map (\<lambda>(key, v). key @ '': '' @ percent_encode_ref v @ [NL]) connect_headers) @ [NL])
       (\<lambda>parser. parsed parser (\<lambda>m _. unwrap_some m (\<lambda>message.
         message_type message = CommandReply
         \<and> fmlookup (msg_headers message) ''Channel-Name'' = Some ''sofia/internal/1000@example.com''
         \<and> fmlookup (msg_headers message) ''Caller-Caller-ID-Name'' = Some ''Test User''
         \<and> fmlookup (msg_headers message) ''Socket-Mode'' = Some ''async''
         \<and> fmlookup (msg_headers message) ''Control'' = Some ''full''
         \<and> (let response = into_response message in
            is_success response \<and> reply_text response = Some ''+OK''))))"

section \<open>Events\<close>

definition no_xml :: "string \<Rightarrow> xml_event list" where
  "no_xml s = []"

definition test_parse_event_plain :: bool where
  "test_parse_event_plain =
     added parser_new (framed ''text/event-plain'' (''Event-Name: CHANNEL_ANSWER'' @ [NL] @ ''Unique-ID: test-uuid'' @ [NL, NL]))
       (\<lambda>parser. parsed parser (\<lambda>m _. unwrap_some m (\<lambda>message.
         parsed_event no_xml message Plain (\<lambda>event.
           event_type event = Some ChannelAnswer \<and> unique_id event = Some ''test-uuid''))))"

definition test_parse_event_plain_percent_decoding :: bool where
  "test_parse_event_plain_percent_decoding =
     added parser_new (framed ''text/event-plain''
         (''Event-Name: HEARTBEAT'' @ [NL] @ ''Up-Time: 0%20years%2C%200%20days'' @ [NL] @ ''Event-Info: System%20Ready'' @ [NL, NL]))
       (\<lambda>parser. parsed parser (\<lambda>m _. unwrap_some m (\<lambda>message.
         parsed_event no_xml message Plain (\<lambda>event.
           event_type event = Some HeartbeatEvent
           \<and> header event ''Up-Time'' = Some ''0 years, 0 days''
           \<and> header event ''Event-Info'' = Some ''System Ready''))))"

definition test_parse_event_plain_with_inner_body :: bool where
  "test_parse_event_plain_with_inner_body =
     (let inner_body = (''+OK Status'' @ [NL]);
         event_headers = (''Event-Name: BACKGROUND_JOB'' @ [NL] @ ''Job-UUID: abc-123'' @ [NL] @ ''Content-Length: '')
           @ nat_to_string (length inner_body) @ [NL]
      in added parser_new (framed ''text/event-plain'' (event_headers @ [NL] @ inner_body))
       (\<lambda>parser. parsed parser (\<lambda>m _. unwrap_some m (\<lambda>message.
         parsed_event no_xml message Plain (\<lambda>event.
           event_type event = Some BackgroundJob
           \<and> header event ''Job-UUID'' = Some ''abc-123''
           \<and> ev_body event = Some (''+OK Status'' @ [NL]))))))"

definition json_payload :: string where
  "json_payload =
     (''{'' @ [CHR 0x22] @ ''Invite'' @ [CHR 0x22] @ '':'' @ [CHR 0x22] @ ''INVITE urn:service:sos SIP/2.0'' @ [CHR 0x22] @ '','' @ [CHR 0x22] @ ''InviteTimestamp'' @ [CHR 0x22] @ '':'' @ [CHR 0x22] @ ''2025-01-15T12:00:00Z'' @ [CHR 0x22] @ ''}'')"

definition test_notify_in_event_with_pl_data :: bool where
  "test_notify_in_event_with_pl_data =
     added parser_new (framed ''text/event-plain''
         ((''Event-Name: NOTIFY_IN'' @ [NL] @ ''event: emergency-AbandonedCall'' @ [NL] @ ''pl_data: '')
          @ percent_encode_ref json_payload
          @ ([NL] @ ''sip_content_type: application%2Fjson'' @ [NL] @ ''gateway_name: ng911-bcf'' @ [NL, NL])))
       (\<lambda>parser. parsed parser (\<lambda>m _. unwrap_some m (\<lambda>message.
         parsed_event no_xml message Plain (\<lambda>event.
           event_type event = Some NotifyIn
           \<and> header event ''event'' = Some ''emergency-AbandonedCall''
           \<and> header event ''pl_data'' = Some json_payload
           \<and> header event ''sip_content_type'' = Some ''application/json''
           \<and> header event ''gateway_name'' = Some ''ng911-bcf''))))"

text \<open>
  The two tests with an XML body depend on what \<open>quick-xml\<close> reads from it. The texts between the
  tags are reported as they stand; \<open>xml_heartbeat_events\<close> and \<open>xml_job_events\<close> list the events of
  the two documents.
\<close>

definition xml_heartbeat :: string where
  "xml_heartbeat =
     (''<event>'' @ [NL] @ ''<headers>'' @ [NL] @ ''<Event-Name>HEARTBEAT</Event-Name>'' @ [NL] @ ''<Core-UUID>abc-123</Core-UUID>'' @ [NL]) @
     (''<Up-Time>0 years, 1 day</Up-Time>'' @ [NL] @ ''</headers>'' @ [NL] @ ''</event>'')"

definition xml_element :: "string \<Rightarrow> string \<Rightarrow> xml_event list" where
  "xml_element tag s = [XStart tag, XText (Inr s), XEnd tag, XText (Inr [NL])]"

definition xml_heartbeat_events :: "xml_event list" where
  "xml_heartbeat_events =
     [XStart ''event'', XText (Inr [NL]), XStart ''headers'', XText (Inr [NL])]
     @ xml_element ''Event-Name'' ''HEARTBEAT'' @ xml_element ''Core-UUID'' ''abc-123''
     @ xml_element ''Up-Time'' ''0 years, 1 day''
     @ [XEnd ''headers'', XText (Inr [NL]), XEnd ''event'']"

definition test_parse_event_xml_heartbeat :: "(string \<Rightarrow> xml_event list) \<Rightarrow> bool" where
  "test_parse_event_xml_heartbeat xml_read =
     added parser_new (framed ''text/event-xml'' xml_heartbeat) (\<lambda>parser.
       parsed parser (\<lambda>m _. unwrap_some m (\<lambda>message.
         parsed_event xml_read message Xml (\<lambda>event.
           event_type event = Some HeartbeatEvent
           \<and> header event ''Core-UUID'' = Some ''abc-123''
           \<and> header event ''Up-Time'' = Some ''0 years, 1 day''))))"

definition xml_job :: string where
  "xml_job =
     (''<event>'' @ [NL] @ ''<headers>'' @ [NL] @ ''<Event-Name>BACKGROUND_JOB</Event-Name>'' @ [NL] @ ''<Job-UUID>def-456</Job-UUID>'' @ [NL]) @
     (''</headers>'' @ [NL] @ ''<body>+OK result data</body>'' @ [NL] @ ''</event>'')"

definition xml_job_events :: "xml_event list" where
  "xml_job_events =
     [XStart ''event'', XText (Inr [NL]), XStart ''headers'', XText (Inr [NL])]
     @ xml_element ''Event-Name'' ''BACKGROUND_JOB'' @ xml_element ''Job-UUID'' ''def-456''
     @ [XEnd ''headers'', XText (Inr [NL])] @ xml_element ''body'' ''+OK result data'' @ [XEnd ''event'']"

definition test_parse_event_xml_with_body :: "(string \<Rightarrow> xml_event list) \<Rightarrow> bool" where
  "test_parse_event_xml_with_body xml_read =
     added parser_new (framed ''text/event-xml'' xml_job) (\<lambda>parser.
       parsed parser (\<lambda>m _. unwrap_some m (\<lambda>message.
         parsed_event xml_read message Xml (\<lambda>event.
           event_type event = Some BackgroundJob
           \<and> header event ''Job-UUID'' = Some ''def-456''
           \<and> ev_body event = Some ''+OK result data''))))"

section \<open>The tests pass\<close>

lemma header_tests:
  "test_parse_headers \<and> test_parse_headers_percent_decodes_values
   \<and> test_parse_headers_noop_for_plain_values \<and> test_parse_headers_invalid_percent_sequence"
  by code_simp

lemma framing_tests:
  "test_parse_auth_request \<and> test_parse_api_response \<and> test_incomplete_message
   \<and> test_crlf_header_terminator_not_matched \<and> test_crlf_in_header_values_parsed_correctly
   \<and> test_oversized_content_length_rejected \<and> test_undersized_content_length_corrupts_next_message
   \<and> test_undersized_content_length_followed_by_valid_message
   \<and> test_non_numeric_content_length_rejected \<and> test_parse_connect_response"
  by code_simp

lemma event_format_tests:
  "test_parse_event_plain \<and> test_parse_event_plain_percent_decoding
   \<and> test_parse_event_plain_with_inner_body \<and> test_notify_in_event_with_pl_data"
  by (intro conjI; code_simp; simp)

text \<open>The XML tests pass with a reader that reports these events for their two documents.\<close>

definition xml_reference :: "string \<Rightarrow> xml_event list" where
  "xml_reference s =
     (if s = xml_heartbeat then xml_heartbeat_events else if s = xml_job then xml_job_events else [])"

lemma xml_tests:
  "test_parse_event_xml_heartbeat xml_reference \<and> test_parse_event_xml_with_body xml_reference"
  by (intro conjI; code_simp; simp)

end
