(* ===== verification/Tests_Event.thy ===== *)
theory Tests_Event
  imports Test_Support
begin

text \<open>
  The unit tests of \<open>src/src/event.rs\<close>: event names, priorities and formats, headers that are
  set, deleted and stacked, the typed accessors, and \<open>to_plain_format\<close> with its round trips.
\<close>

section \<open>Names\<close>

definition test_notify_in_parse :: bool where
  "test_notify_in_parse =
     (parse_event_type ''NOTIFY_IN'' = Some NotifyIn \<and> parse_event_type ''notify_in'' = Some NotifyIn)"

definition test_notify_in_display :: bool where
  "test_notify_in_display =
     (event_type_display NotifyIn = ''NOTIFY_IN'')"

definition test_notify_in_distinct_from_notify :: bool where
  "test_notify_in_distinct_from_notify =
     (Notify \<noteq> NotifyIn \<and> event_type_display Notify \<noteq> event_type_display NotifyIn)"

definition test_wire_names_match_c_esl :: bool where
  "test_wire_names_match_c_esl =
     (event_type_display ChannelOutgoing = ''CHANNEL_OUTGOING''
      \<and> event_type_display ApiEvent = ''API''
      \<and> event_type_display ReloadXml = ''RELOADXML''
      \<and> event_type_display PresenceIn = ''PRESENCE_IN''
      \<and> event_type_display Roster = ''ROSTER''
      \<and> event_type_display TextEvent = ''TEXT''
      \<and> event_type_display ReSchedule = ''RE_SCHEDULE''
      \<and> parse_event_type ''CHANNEL_OUTGOING'' = Some ChannelOutgoing
      \<and> parse_event_type ''API'' = Some ApiEvent
      \<and> parse_event_type ''RELOADXML'' = Some ReloadXml
      \<and> parse_event_type ''PRESENCE_IN'' = Some PresenceIn)"

definition test_event_type_from_str :: bool where
  "test_event_type_from_str =
     (event_type_from_str ''CHANNEL_ANSWER'' = Inr ChannelAnswer
      \<and> event_type_from_str ''channel_answer'' = Inr ChannelAnswer
      \<and> is_err (event_type_from_str ''UNKNOWN_EVENT''))"

definition test_priority_display :: bool where
  "test_priority_display =
     (priority_display Normal = ''NORMAL'' \<and> priority_display Low = ''LOW'' \<and> priority_display High = ''HIGH'')"

definition test_priority_from_str :: bool where
  "test_priority_from_str =
     (priority_from_str ''NORMAL'' = Inr Normal \<and> priority_from_str ''LOW'' = Inr Low
      \<and> priority_from_str ''HIGH'' = Inr High \<and> is_err (priority_from_str ''INVALID''))"

definition test_priority_from_str_case_insensitive :: bool where
  "test_priority_from_str_case_insensitive =
     (priority_from_str ''normal'' = Inr Normal \<and> priority_from_str ''Low'' = Inr Low
      \<and> priority_from_str ''hIgH'' = Inr High)"

definition test_event_format_from_str :: bool where
  "test_event_format_from_str =
     (event_format_from_str ''plain'' = Inr Plain \<and> event_format_from_str ''json'' = Inr Json
      \<and> event_format_from_str ''xml'' = Inr Xml \<and> is_err (event_format_from_str ''foo''))"

definition test_event_format_from_content_type :: bool where
  "test_event_format_from_content_type =
     (from_content_type ''text/event-json'' = Json \<and> from_content_type ''text/event-xml'' = Xml
      \<and> from_content_type ''text/event-plain'' = Plain \<and> from_content_type ''unknown'' = Plain)"

section \<open>Headers\<close>

definition test_del_header :: bool where
  "test_del_header =
     (let event = set_header (set_header event_new ''Foo'' ''bar'') ''Baz'' ''qux'';
         (removed, event) = del_header event ''Foo''
      in removed = Some ''bar'' \<and> header event ''Foo'' = None \<and> header event ''Baz'' = Some ''qux''
         \<and> (let (removed_again, event) = del_header event ''Foo'' in removed_again = None))"

definition test_set_priority_normal :: bool where
  "test_set_priority_normal =
     (let event = set_priority event_new Normal
      in priority event = Some Normal \<and> header event ''priority'' = Some ''NORMAL'')"

definition test_set_priority_high :: bool where
  "test_set_priority_high =
     (let event = set_priority event_new High
      in priority event = Some High \<and> header event ''priority'' = Some ''HIGH'')"

definition test_push_header_new :: bool where
  "test_push_header_new =
     (header (push_header event_new ''X-Test'' ''first'') ''X-Test'' = Some ''first'')"

definition test_push_header_existing_plain :: bool where
  "test_push_header_existing_plain =
     (let event = set_header event_new ''X-Test'' ''first''
      in header (push_header event ''X-Test'' ''second'') ''X-Test'' = Some ''ARRAY::first|:second'')"

definition test_push_header_existing_array :: bool where
  "test_push_header_existing_array =
     (let event = set_header event_new ''X-Test'' ''ARRAY::a|:b''
      in header (push_header event ''X-Test'' ''c'') ''X-Test'' = Some ''ARRAY::a|:b|:c'')"

definition test_unshift_header_new :: bool where
  "test_unshift_header_new =
     (header (unshift_header event_new ''X-Test'' ''only'') ''X-Test'' = Some ''only'')"

definition test_unshift_header_existing_array :: bool where
  "test_unshift_header_existing_array =
     (let event = set_header event_new ''X-Test'' ''ARRAY::b|:c''
      in header (unshift_header event ''X-Test'' ''a'') ''X-Test'' = Some ''ARRAY::a|:b|:c'')"

definition test_convenience_accessors :: bool where
  "test_convenience_accessors =
     (let event = fold (\<lambda>(name, v) event. set_header event name v)
           [(''Channel-Name'', ''sofia/internal/1000@example.com''),
            (''Caller-Caller-ID-Number'', ''1000''),
            (''Caller-Caller-ID-Name'', ''Alice''),
            (''Hangup-Cause'', ''NORMAL_CLEARING''),
            (''Event-Subclass'', ''sofia::register''),
            (''variable_sip_from_display'', ''Bob'')] event_new
      in channel_name event = Some ''sofia/internal/1000@example.com''
         \<and> caller_id_number event = Some ''1000''
         \<and> caller_id_name event = Some ''Alice''
         \<and> hangup_cause event = Some ''NORMAL_CLEARING''
         \<and> event_subclass event = Some ''sofia::register''
         \<and> variable event ''sip_from_display'' = Some ''Bob''
         \<and> variable event ''nonexistent'' = None)"

section \<open>Typed accessors\<close>

definition test_event_channel_state_accessor :: bool where
  "test_event_channel_state_accessor =
     (channel_state (set_header event_new ''Channel-State'' ''CS_EXECUTE'') = Some CsExecute)"

definition test_event_channel_state_number_accessor :: bool where
  "test_event_channel_state_number_accessor =
     (channel_state_number (set_header event_new ''Channel-State-Number'' ''4'') = Some CsExecute)"

definition test_event_call_state_accessor :: bool where
  "test_event_call_state_accessor =
     (call_state (set_header event_new ''Channel-Call-State'' ''ACTIVE'') = Some Active)"

definition test_event_answer_state_accessor :: bool where
  "test_event_answer_state_accessor =
     (answer_state (set_header event_new ''Answer-State'' ''answered'') = Some Answered)"

definition test_event_call_direction_accessor :: bool where
  "test_event_call_direction_accessor =
     (call_direction (set_header event_new ''Call-Direction'' ''inbound'') = Some Inbound)"

text \<open>The five assertions of the last two tests.\<close>

definition no_typed_state :: "EslEvent \<Rightarrow> bool" where
  "no_typed_state event =
     (channel_state event = None \<and> channel_state_number event = None \<and> call_state event = None
      \<and> answer_state event = None \<and> call_direction event = None)"

definition test_event_typed_accessors_missing_headers :: bool where
  "test_event_typed_accessors_missing_headers =
     no_typed_state event_new"

definition test_event_typed_accessors_invalid_values :: bool where
  "test_event_typed_accessors_invalid_values =
     no_typed_state (fold (\<lambda>(name, v) event. set_header event name v)
       [(''Channel-State'', ''BOGUS''),
        (''Channel-State-Number'', ''999''),
        (''Channel-Call-State'', ''BOGUS''),
        (''Answer-State'', ''bogus''),
        (''Call-Direction'', ''bogus'')] event_new)"

section \<open>Serialisation\<close>

abbreviation plain_format :: "EslEvent \<Rightarrow> string" where
  "plain_format \<equiv> to_plain_format percent_encode_ref"

definition test_to_plain_format_basic :: bool where
  "test_to_plain_format_basic =
     (let event = set_header (set_header (with_type HeartbeatEvent) ''Event-Name'' ''HEARTBEAT'') ''Core-UUID'' ''abc-123'';
         plain = plain_format event
      in starts_with_str plain ''Event-Name: '' \<and> contains_str plain ''Core-UUID: ''
         \<and> ends_with_str plain [NL, NL])"

definition test_to_plain_format_percent_encoding :: bool where
  "test_to_plain_format_percent_encoding =
     (let event = set_header (set_header (with_type HeartbeatEvent) ''Event-Name'' ''HEARTBEAT'') ''Up-Time'' ''0 years, 0 days'';
         plain = plain_format event
      in \<not> contains_str plain ''0 years, 0 days'' \<and> contains_str plain ''Up-Time: ''
         \<and> contains_str plain ''%20'')"

definition test_to_plain_format_with_body :: bool where
  "test_to_plain_format_with_body =
     (let event = set_body (set_header (set_header (with_type BackgroundJob) ''Event-Name'' ''BACKGROUND_JOB'') ''Job-UUID'' ''def-456'') (''+OK result'' @ [NL]);
         plain = plain_format event
      in contains_str plain (''Content-Length: 11'' @ [NL]) \<and> ends_with_str plain ([NL, NL] @ ''+OK result'' @ [NL]))"

definition test_sendevent_with_priority_wire_format :: bool where
  "test_sendevent_with_priority_wire_format =
     (let event = set_priority (set_header (set_header (with_type Custom) ''Event-Name'' ''CUSTOM'') ''Event-Subclass'' ''test::priority'') High
      in contains_str (plain_format event) (''priority: HIGH'' @ [NL]))"

text \<open>The message the round trip tests parse, and the rest of the test after \<open>unwrap()\<close>.\<close>

definition plain_message :: "string \<Rightarrow> EslMessage" where
  "plain_message plain =
     message_new EventMsg (fmupd ''Content-Type'' ''text/event-plain'' fmempty) (Some plain)"

definition reparsed :: "string \<Rightarrow> (EslEvent \<Rightarrow> bool) \<Rightarrow> bool" where
  "reparsed plain k = parsed_event (\<lambda>_. []) (plain_message plain) Plain k"

definition same_event :: "EslEvent \<Rightarrow> EslEvent \<Rightarrow> bool" where
  "same_event a b =
     (event_type a = event_type b \<and> ev_headers a = ev_headers b \<and> ev_body a = ev_body b)"

definition test_to_plain_format_round_trip :: bool where
  "test_to_plain_format_round_trip =
     (let original = fold (\<lambda>(name, v) event. set_header event name v)
           [(''Event-Name'', ''HEARTBEAT''), (''Core-UUID'', ''abc-123''),
            (''Up-Time'', ''0 years, 0 days, 1 hour''), (''Event-Info'', ''System Ready'')]
           (with_type HeartbeatEvent)
      in reparsed (plain_format original) (\<lambda>parsed1.
           same_event parsed1 original
           \<and> reparsed (plain_format parsed1) (\<lambda>parsed2. same_event parsed2 original)))"

definition test_to_plain_format_round_trip_with_body :: bool where
  "test_to_plain_format_round_trip_with_body =
     (let body_text = (''+OK Status'' @ [NL] @ ''Line 2'' @ [NL]);
         original = set_body (fold (\<lambda>(name, v) event. set_header event name v)
           [(''Event-Name'', ''BACKGROUND_JOB''), (''Job-UUID'', ''job-789''),
            (''Content-Length'', nat_to_string (length body_text))]
           (with_type BackgroundJob)) body_text
      in reparsed (plain_format original) (\<lambda>parsed. same_event parsed original))"

section \<open>The tests pass\<close>

lemmas event_type_test_defs = test_notify_in_parse_def test_notify_in_display_def test_notify_in_distinct_from_notify_def
  test_wire_names_match_c_esl_def

lemma event_type_tests:
  "test_notify_in_parse \<and> test_notify_in_display \<and> test_notify_in_distinct_from_notify
   \<and> test_wire_names_match_c_esl"
  unfolding event_type_test_defs by (intro conjI; (code_simp; simp | simp))

lemma event_name_tests:
  "test_event_type_from_str \<and> test_priority_display \<and> test_priority_from_str \<and> test_priority_from_str_case_insensitive
   \<and> test_event_format_from_str \<and> test_event_format_from_content_type"
  by (intro conjI; code_simp; simp)

lemma event_header_tests:
  "test_del_header \<and> test_set_priority_normal \<and> test_set_priority_high \<and> test_push_header_new
   \<and> test_push_header_existing_plain \<and> test_push_header_existing_array
   \<and> test_unshift_header_new \<and> test_unshift_header_existing_array \<and> test_convenience_accessors"
  by code_simp

lemma event_accessor_tests:
  "test_event_channel_state_accessor \<and> test_event_channel_state_number_accessor
   \<and> test_event_call_state_accessor \<and> test_event_answer_state_accessor
   \<and> test_event_call_direction_accessor \<and> test_event_typed_accessors_missing_headers
   \<and> test_event_typed_accessors_invalid_values"
  by code_simp

lemma plain_format_tests:
  "test_to_plain_format_basic \<and> test_to_plain_format_percent_encoding
   \<and> test_to_plain_format_with_body \<and> test_sendevent_with_priority_wire_format
   \<and> test_to_plain_format_round_trip \<and> test_to_plain_format_round_trip_with_body"
  by (intro conjI; code_simp; simp)

end
