(* ===== verification/Tests_Command.thy ===== *)
theory Tests_Command
  imports Test_Support Esl_Api_Commands
begin

text \<open>
  The unit tests of \<open>src/src/command.rs\<close>: the wire text of the commands, the rejection of line
  breaks, redaction, and the classification of replies. The iteration order of a \<open>HashMap\<close>, which
  none of them depends on, is the order of the keys here.
\<close>

definition sorted_order :: header_order where
  "sorted_order = sorted_list_of_fmap"

definition wire_format :: "EslCommand \<Rightarrow> string EslResult" where
  "wire_format c = to_wire_format sorted_order sorted_order c"

text \<open>\<open>assert_eq!(cmd.to_wire_format().unwrap(), \<dots>)\<close>.\<close>

definition wire_is :: "EslCommand \<Rightarrow> string \<Rightarrow> bool" where
  "wire_is c s = unwrap_ok (wire_format c) (\<lambda>w. w = s)"

section \<open>Wire texts\<close>

definition test_command_builder :: bool where
  "test_command_builder =
     unwrap_ok (builder_header (builder_new ''api status'') ''Custom-Header'' ''value'') (\<lambda>b.
       let cmd = build sorted_order (builder_body b ''test body'')
       in contains_str cmd ''api status'' \<and> contains_str cmd ''Custom-Header: value''
          \<and> contains_str cmd ''Content-Length: 9'' \<and> contains_str cmd ''test body'')"

definition test_esl_commands :: bool where
  "test_esl_commands =
     (wire_is (Auth ''test'') (''auth test'' @ [NL, NL])
      \<and> wire_is (Api ''status'') (''api status'' @ [NL, NL])
      \<and> wire_is (Events ''plain'' ''ALL'') (''event plain ALL'' @ [NL, NL]))"

definition test_app_commands :: bool where
  "test_app_commands =
     unwrap_ok (wire_format app_answer) (\<lambda>answer.
       contains_str answer ''execute-app-name: answer''
       \<and> unwrap_ok (wire_format (app_hangup (Some ''NORMAL_CLEARING''))) (\<lambda>hangup.
           contains_str hangup ''execute-app-name: hangup''
           \<and> contains_str hangup ''execute-app-arg: NORMAL_CLEARING''))"

definition test_myevents_wire_format :: bool where
  "test_myevents_wire_format =
     wire_is (MyEvents ''plain'' None) (''myevents plain'' @ [NL, NL])"

definition test_myevents_uuid_wire_format :: bool where
  "test_myevents_uuid_wire_format =
     wire_is (MyEvents ''json'' (Some ''abc-123'')) (''myevents abc-123 json'' @ [NL, NL])"

definition test_linger_wire_format :: bool where
  "test_linger_wire_format =
     wire_is (Linger None) (''linger'' @ [NL, NL])"

definition test_linger_timeout_wire_format :: bool where
  "test_linger_timeout_wire_format =
     wire_is (Linger (Some 600)) (''linger 600'' @ [NL, NL])"

definition test_nolinger_wire_format :: bool where
  "test_nolinger_wire_format =
     wire_is NoLinger (''nolinger'' @ [NL, NL])"

definition test_resume_wire_format :: bool where
  "test_resume_wire_format =
     wire_is Resume (''resume'' @ [NL, NL])"

definition test_sendevent_wire_format :: bool where
  "test_sendevent_wire_format =
     (let event = set_header (set_header (with_type Custom) ''Event-Name'' ''CUSTOM'') ''Event-Subclass'' ''my::test_event''
      in unwrap_ok (wire_format (SendEvent event)) (\<lambda>wire.
           starts_with_str wire (''sendevent CUSTOM'' @ [NL])
           \<and> contains_str wire (''Event-Name: CUSTOM'' @ [NL])
           \<and> contains_str wire (''Event-Subclass: my::test_event'' @ [NL])
           \<and> ends_with_str wire [NL, NL]))"

definition test_sendevent_wire_format_with_body :: bool where
  "test_sendevent_wire_format_with_body =
     (let event = set_body (set_header (with_type Custom) ''Event-Name'' ''CUSTOM'') ''hello world''
      in unwrap_ok (wire_format (SendEvent event)) (\<lambda>wire.
           starts_with_str wire (''sendevent CUSTOM'' @ [NL])
           \<and> contains_str wire (''Content-Length: 11'' @ [NL])
           \<and> ends_with_str wire ''hello world''))"

definition test_nixevent_wire_format :: bool where
  "test_nixevent_wire_format =
     wire_is (NixEvent ''CHANNEL_CREATE CHANNEL_DESTROY'') (''nixevent CHANNEL_CREATE CHANNEL_DESTROY'' @ [NL, NL])"

definition test_noevents_wire_format :: bool where
  "test_noevents_wire_format =
     wire_is NoEvents (''noevents'' @ [NL, NL])"

definition test_filter_delete_wire_format :: bool where
  "test_filter_delete_wire_format =
     wire_is (FilterDelete ''Event-Name'' None) (''filter delete Event-Name'' @ [NL, NL])"

definition test_filter_delete_value_wire_format :: bool where
  "test_filter_delete_value_wire_format =
     wire_is (FilterDelete ''Event-Name'' (Some ''CHANNEL_CREATE'')) (''filter delete Event-Name CHANNEL_CREATE'' @ [NL, NL])"

definition test_filter_delete_all_wire_format :: bool where
  "test_filter_delete_all_wire_format =
     wire_is (FilterDelete ''all'' None) (''filter delete all'' @ [NL, NL])"

definition test_divert_events_wire_format :: bool where
  "test_divert_events_wire_format =
     (wire_is (DivertEvents True) (''divert_events on'' @ [NL, NL])
      \<and> wire_is (DivertEvents False) (''divert_events off'' @ [NL, NL]))"

definition test_getvar_wire_format :: bool where
  "test_getvar_wire_format =
     wire_is (GetVar ''caller_id_name'') (''getvar caller_id_name'' @ [NL, NL])"

definition test_connect_wire_format :: bool where
  "test_connect_wire_format =
     wire_is ConnectCmd (''connect'' @ [NL, NL])"

definition test_sendevent_no_event_type :: bool where
  "test_sendevent_no_event_type =
     unwrap_ok (wire_format (SendEvent (set_header event_new ''Event-Name'' ''CUSTOM''))) (\<lambda>wire.
       starts_with_str wire (''sendevent CUSTOM'' @ [NL])
       \<and> unwrap_ok (wire_format (SendEvent event_new)) (\<lambda>wire2.
           starts_with_str wire2 (''sendevent CUSTOM'' @ [NL])))"

definition test_newline_injection_rejected :: bool where
  "test_newline_injection_rejected =
     (is_err (wire_format (Api (''status'' @ [NL, NL] @ ''event plain ALL'')))
      \<and> is_err (wire_format (Auth (''test'' @ [NL] @ ''api status'')))
      \<and> is_err (wire_format (Filter (''Event-Name'' @ [CR, NL]) ''CHANNEL_CREATE'')))"

definition test_header_newline_rejected :: bool where
  "test_header_newline_rejected =
     (is_err (builder_header (builder_new ''test'') (''X-Bad'' @ [NL]) ''value'')
      \<and> is_err (builder_header (builder_new ''test'') ''X-Key'' (''bad'' @ [NL] @ ''value'')))"

section \<open>Redaction\<close>

text \<open>
  \<open>debug_struct\<close> prints the name and then the fields between braces, a string in quotation marks.
  \<open>debug_string\<close> is \<open>None\<close> for the strings in which the \<open>Debug\<close> of \<open>str\<close> escapes something, and
  for the fields that are no strings, which the test has none of.
\<close>

definition plain_char :: "char \<Rightarrow> bool" where
  "plain_char c = (32 \<le> byte_val c \<and> byte_val c \<le> 126 \<and> c \<noteq> CHR 0x22 \<and> c \<noteq> BSLASH)"

fun debug_string :: "debug_value \<Rightarrow> string option" where
  "debug_string (DStr s) = (if list_all plain_char s then Some ([CHR 0x22] @ s @ [CHR 0x22]) else None)"
| "debug_string _ = None"

fun debug_fields :: "(string \<times> debug_value) list \<Rightarrow> string list option" where
  "debug_fields [] = Some []"
| "debug_fields ((name, v) # fs) =
     (case (debug_string v, debug_fields fs) of
        (Some s, Some r) \<Rightarrow> Some ((name @ '': '' @ s) # r)
      | _ \<Rightarrow> None)"

definition debug_struct_text :: "string \<times> (string \<times> debug_value) list \<Rightarrow> string option" where
  "debug_struct_text d =
     (case d of (name, fs) \<Rightarrow>
        (case debug_fields fs of
           None \<Rightarrow> None
         | Some [] \<Rightarrow> Some name
         | Some ss \<Rightarrow> Some (name @ '' { '' @ join '', '' ss @ '' }'')))"

definition test_debug_redacts_password :: bool where
  "test_debug_redacts_password =
     unwrap_some (debug_struct_text (command_debug (Auth ''secret''))) (\<lambda>debug_str.
       \<not> contains_str debug_str ''secret'' \<and> contains_str debug_str ''REDACTED''
       \<and> unwrap_some (debug_struct_text (command_debug (UserAuth ''admin@default'' ''secret''))) (\<lambda>debug_str.
           \<not> contains_str debug_str ''secret'' \<and> contains_str debug_str ''admin@default''
           \<and> contains_str debug_str ''REDACTED''))"

section \<open>Replies\<close>

definition response_to :: "string \<Rightarrow> EslResponse" where
  "response_to reply = response_new (fmupd ''Reply-Text'' reply fmempty) None"

definition test_reply_status_ok :: bool where
  "test_reply_status_ok =
     (let resp = response_to ''+OK accepted''
      in reply_status resp = StatusOk \<and> is_success resp \<and> is_ok (into_result resp))"

definition test_reply_status_ok_prefix_only :: bool where
  "test_reply_status_ok_prefix_only =
     (let resp = response_to ''+OK'' in reply_status resp = StatusOk \<and> is_success resp)"

definition test_reply_status_empty :: bool where
  "test_reply_status_empty =
     (let resp = response_to [] in reply_status resp = StatusOk \<and> is_success resp)"

definition test_reply_status_missing_header :: bool where
  "test_reply_status_missing_header =
     (let resp = response_new fmempty None in reply_status resp = StatusOk \<and> is_success resp)"

definition test_reply_status_err :: bool where
  "test_reply_status_err =
     (let resp = response_to ''-ERR invalid command''
      in reply_status resp = StatusErr \<and> \<not> is_success resp
         \<and> into_result resp = Inl (CommandFailed ''-ERR invalid command''))"

definition test_reply_status_err_bare :: bool where
  "test_reply_status_err_bare =
     (let resp = response_to ''-ERR'' in reply_status resp = StatusErr \<and> \<not> is_success resp)"

definition test_reply_status_other_getvar :: bool where
  "test_reply_status_other_getvar =
     (let resp = response_to ''sip_from_user''
      in reply_status resp = StatusOther \<and> \<not> is_success resp
         \<and> into_result resp = Inl (UnexpectedReply ''sip_from_user''))"

definition test_reply_status_other_random :: bool where
  "test_reply_status_other_random =
     (let resp = response_to ''something unexpected''
      in reply_status resp = StatusOther \<and> \<not> is_success resp)"

section \<open>The tests pass\<close>

lemma wire_tests_1:
  "test_command_builder \<and> test_esl_commands \<and> test_app_commands \<and> test_myevents_wire_format
   \<and> test_myevents_uuid_wire_format \<and> test_linger_wire_format \<and> test_linger_timeout_wire_format
   \<and> test_nolinger_wire_format \<and> test_resume_wire_format \<and> test_sendevent_wire_format
   \<and> test_sendevent_wire_format_with_body"
  by (intro conjI; code_simp; simp only: event_type_display.simps; code_simp)

lemma wire_tests_2:
  "test_nixevent_wire_format \<and> test_noevents_wire_format \<and> test_filter_delete_wire_format
   \<and> test_filter_delete_value_wire_format \<and> test_filter_delete_all_wire_format
   \<and> test_divert_events_wire_format \<and> test_getvar_wire_format \<and> test_connect_wire_format
   \<and> test_sendevent_no_event_type \<and> test_newline_injection_rejected \<and> test_header_newline_rejected"
  by code_simp

lemma redaction_test: "test_debug_redacts_password"
  by code_simp

lemma reply_tests:
  "test_reply_status_ok \<and> test_reply_status_ok_prefix_only \<and> test_reply_status_empty
   \<and> test_reply_status_missing_header \<and> test_reply_status_err \<and> test_reply_status_err_bare
   \<and> test_reply_status_other_getvar \<and> test_reply_status_other_random"
  by code_simp

end
