(* ===== verification/Tests_Channel.thy ===== *)
theory Tests_Channel
  imports Test_Support
begin

text \<open>
  The unit tests of \<open>src/src/channel.rs\<close>: the names and numbers of the four enumerations, and the
  timetables of \<open>EslEvent\<close>. A test of the source whose name a definition of the model already has
  carries the suffix \<open>_test\<close>.
\<close>

section \<open>Enumerations\<close>

definition test_channel_state_display :: bool where
  "test_channel_state_display =
     (map channel_state_display
        [CsNew, CsInit, CsRouting, CsSoftExecute, CsExecute, CsExchangeMedia, CsPark, CsConsumeMedia,
         CsHibernate, CsReset, CsHangup, CsReporting, CsDestroy, CsNone]
      = [''CS_NEW'', ''CS_INIT'', ''CS_ROUTING'', ''CS_SOFT_EXECUTE'', ''CS_EXECUTE'', ''CS_EXCHANGE_MEDIA'',
         ''CS_PARK'', ''CS_CONSUME_MEDIA'', ''CS_HIBERNATE'', ''CS_RESET'', ''CS_HANGUP'', ''CS_REPORTING'',
         ''CS_DESTROY'', ''CS_NONE''])"

definition test_channel_state_from_str :: bool where
  "test_channel_state_from_str =
     (channel_state_from_str ''CS_NEW'' = Inr CsNew
      \<and> channel_state_from_str ''CS_EXECUTE'' = Inr CsExecute
      \<and> channel_state_from_str ''CS_HANGUP'' = Inr CsHangup
      \<and> channel_state_from_str ''CS_DESTROY'' = Inr CsDestroy)"

definition test_channel_state_from_str_case_insensitive :: bool where
  "test_channel_state_from_str_case_insensitive =
     (channel_state_from_str ''cs_new'' = Inr CsNew \<and> channel_state_from_str ''Cs_Routing'' = Inr CsRouting)"

definition test_channel_state_from_str_unknown :: bool where
  "test_channel_state_from_str_unknown =
     (is_err (channel_state_from_str ''CS_BOGUS'') \<and> is_err (channel_state_from_str []))"

definition test_channel_state_from_number :: bool where
  "test_channel_state_from_number =
     (from_number 0 = Some CsNew \<and> from_number 4 = Some CsExecute \<and> from_number 10 = Some CsHangup
      \<and> from_number 13 = Some CsNone \<and> from_number 14 = None \<and> from_number 255 = None)"

definition test_channel_state_as_number :: bool where
  "test_channel_state_as_number =
     (as_number CsNew = 0 \<and> as_number CsExecute = 4 \<and> as_number CsHangup = 10 \<and> as_number CsNone = 13)"

definition test_call_state_display :: bool where
  "test_call_state_display =
     (map call_state_display
        [Down, Dialing, CallState.Ringing, CallState.Early, Active, Held, RingWait, CallState.Hangup, Unheld]
      = [''DOWN'', ''DIALING'', ''RINGING'', ''EARLY'', ''ACTIVE'', ''HELD'', ''RING_WAIT'', ''HANGUP'', ''UNHELD''])"

definition test_call_state_from_str :: bool where
  "test_call_state_from_str =
     (call_state_from_str ''DOWN'' = Inr Down \<and> call_state_from_str ''ACTIVE'' = Inr Active
      \<and> call_state_from_str ''RING_WAIT'' = Inr RingWait \<and> call_state_from_str ''UNHELD'' = Inr Unheld)"

definition test_call_state_from_str_case_insensitive :: bool where
  "test_call_state_from_str_case_insensitive =
     (call_state_from_str ''down'' = Inr Down \<and> call_state_from_str ''Active'' = Inr Active)"

definition test_call_state_from_str_unknown :: bool where
  "test_call_state_from_str_unknown =
     is_err (call_state_from_str ''BOGUS'')"

definition test_answer_state_display :: bool where
  "test_answer_state_display =
     (map answer_state_display [AnswerState.Hangup, Answered, AnswerState.Early, AnswerState.Ringing]
      = [''hangup'', ''answered'', ''early'', ''ringing''])"

definition test_answer_state_from_str :: bool where
  "test_answer_state_from_str =
     (answer_state_from_str ''hangup'' = Inr AnswerState.Hangup
      \<and> answer_state_from_str ''answered'' = Inr Answered
      \<and> answer_state_from_str ''early'' = Inr AnswerState.Early
      \<and> answer_state_from_str ''ringing'' = Inr AnswerState.Ringing)"

definition test_answer_state_from_str_case_insensitive :: bool where
  "test_answer_state_from_str_case_insensitive =
     (answer_state_from_str ''HANGUP'' = Inr AnswerState.Hangup
      \<and> answer_state_from_str ''Answered'' = Inr Answered)"

definition test_answer_state_from_str_unknown :: bool where
  "test_answer_state_from_str_unknown =
     is_err (answer_state_from_str ''bogus'')"

definition test_call_direction_display :: bool where
  "test_call_direction_display =
     (call_direction_display Inbound = ''inbound'' \<and> call_direction_display Outbound = ''outbound'')"

definition test_call_direction_from_str :: bool where
  "test_call_direction_from_str =
     (call_direction_from_str ''inbound'' = Inr Inbound \<and> call_direction_from_str ''outbound'' = Inr Outbound)"

definition test_call_direction_from_str_case_insensitive :: bool where
  "test_call_direction_from_str_case_insensitive =
     (call_direction_from_str ''INBOUND'' = Inr Inbound \<and> call_direction_from_str ''Outbound'' = Inr Outbound)"

definition test_call_direction_from_str_unknown :: bool where
  "test_call_direction_from_str_unknown =
     is_err (call_direction_from_str ''bogus'')"

section \<open>Timetables\<close>

text \<open>The tests set one header after the other on a new event.\<close>

definition event_with :: "(string \<times> string) list \<Rightarrow> EslEvent" where
  "event_with hs = fold (\<lambda>(name, v) event. set_header event name v) hs event_new"

definition caller_timetable_all_fields :: bool where
  "caller_timetable_all_fields =
     unwrap_some (caller_timetable (event_with
       [(''Caller-Profile-Created-Time'', ''1700000000000000''),
        (''Caller-Channel-Created-Time'', ''1700000001000000''),
        (''Caller-Channel-Answered-Time'', ''1700000005000000''),
        (''Caller-Channel-Progress-Time'', ''1700000002000000''),
        (''Caller-Channel-Progress-Media-Time'', ''1700000003000000''),
        (''Caller-Channel-Hangup-Time'', ''0''),
        (''Caller-Channel-Transfer-Time'', ''0''),
        (''Caller-Channel-Resurrect-Time'', ''0''),
        (''Caller-Channel-Bridged-Time'', ''1700000006000000''),
        (''Caller-Channel-Last-Hold'', ''0''),
        (''Caller-Channel-Hold-Accum'', ''0'')])) (\<lambda>tt.
       profile_created tt = Some 1700000000000000
       \<and> created tt = Some 1700000001000000
       \<and> answered tt = Some 1700000005000000
       \<and> progress tt = Some 1700000002000000
       \<and> progress_media tt = Some 1700000003000000
       \<and> hungup tt = Some 0 \<and> transferred tt = Some 0 \<and> resurrected tt = Some 0
       \<and> bridged tt = Some 1700000006000000
       \<and> last_hold tt = Some 0 \<and> hold_accum tt = Some 0)"

definition other_leg_timetable_test :: bool where
  "other_leg_timetable_test =
     unwrap_some (other_leg_timetable (event_with
       [(''Other-Leg-Profile-Created-Time'', ''1700000000000000''),
        (''Other-Leg-Channel-Created-Time'', ''1700000001000000''),
        (''Other-Leg-Channel-Answered-Time'', ''1700000005000000''),
        (''Other-Leg-Channel-Progress-Time'', ''0''),
        (''Other-Leg-Channel-Progress-Media-Time'', ''0''),
        (''Other-Leg-Channel-Hangup-Time'', ''0''),
        (''Other-Leg-Channel-Transfer-Time'', ''0''),
        (''Other-Leg-Channel-Resurrect-Time'', ''0''),
        (''Other-Leg-Channel-Bridged-Time'', ''1700000006000000''),
        (''Other-Leg-Channel-Last-Hold'', ''0''),
        (''Other-Leg-Channel-Hold-Accum'', ''0'')])) (\<lambda>tt.
       created tt = Some 1700000001000000 \<and> bridged tt = Some 1700000006000000)"

definition timetable_no_headers :: bool where
  "timetable_no_headers =
     (caller_timetable event_new = None \<and> other_leg_timetable event_new = None)"

definition timetable_partial_headers :: bool where
  "timetable_partial_headers =
     unwrap_some (caller_timetable (event_with [(''Caller-Channel-Created-Time'', ''1700000001000000'')])) (\<lambda>tt.
       created tt = Some 1700000001000000 \<and> answered tt = None \<and> profile_created tt = None)"

definition timetable_invalid_value_only :: bool where
  "timetable_invalid_value_only =
     (caller_timetable (event_with [(''Caller-Channel-Created-Time'', ''not_a_number'')]) = None)"

definition timetable_zero_preserved :: bool where
  "timetable_zero_preserved =
     unwrap_some (caller_timetable (event_with [(''Caller-Channel-Hangup-Time'', ''0'')])) (\<lambda>tt.
       hungup tt = Some 0)"

definition timetable_custom_prefix :: bool where
  "timetable_custom_prefix =
     unwrap_some (timetable (event_with [(''Channel-Channel-Created-Time'', ''1700000001000000'')]) ''Channel'')
       (\<lambda>tt. created tt = Some 1700000001000000)"

section \<open>The tests pass\<close>

lemma channel_state_tests:
  "test_channel_state_display \<and> test_channel_state_from_str
   \<and> test_channel_state_from_str_case_insensitive \<and> test_channel_state_from_str_unknown
   \<and> test_channel_state_from_number \<and> test_channel_state_as_number"
  by code_simp

lemma call_state_tests:
  "test_call_state_display \<and> test_call_state_from_str \<and> test_call_state_from_str_case_insensitive
   \<and> test_call_state_from_str_unknown"
  by code_simp

lemma answer_and_direction_tests:
  "test_answer_state_display \<and> test_answer_state_from_str
   \<and> test_answer_state_from_str_case_insensitive \<and> test_answer_state_from_str_unknown
   \<and> test_call_direction_display \<and> test_call_direction_from_str
   \<and> test_call_direction_from_str_case_insensitive \<and> test_call_direction_from_str_unknown"
  by code_simp

lemma timetable_tests:
  "caller_timetable_all_fields \<and> other_leg_timetable_test \<and> timetable_no_headers
   \<and> timetable_partial_headers \<and> timetable_invalid_value_only \<and> timetable_zero_preserved
   \<and> timetable_custom_prefix"
  by code_simp

end
