(* ===== verification/Tests_Originate.thy ===== *)
theory Tests_Originate
  imports Test_Support Esl_Originate
begin

text \<open>
  The unit tests of \<open>src/src/commands/originate.rs\<close> and of the tokeniser in
  \<open>src/src/commands/mod.rs\<close>, and the documentation test of \<open>src/src/lib.rs\<close> with what its command
  means. A test whose name a definition of the model already has carries the
  suffix \<open>_test\<close>.
\<close>

definition is_at :: "'a list \<Rightarrow> nat \<Rightarrow> ('a \<Rightarrow> bool) \<Rightarrow> bool" where
  "is_at xs i k = (case drop i xs of [] \<Rightarrow> False | x # _ \<Rightarrow> k x)"

definition one_var :: "VariablesType \<Rightarrow> string \<Rightarrow> string \<Rightarrow> Variables" where
  "one_var t k v = variables_insert (variables_new t) k v"

section \<open>Tokens\<close>

definition split_with_quotes_ignores_spaces_inside :: bool where
  "split_with_quotes_ignores_spaces_inside =
     unwrap_ok (originate_split (''originate {test='' @ [QUOTE] @ ''variable with quote'' @ [QUOTE] @ ''}sofia/test 123'') SP) (\<lambda>result.
       is_at result 0 (\<lambda>t. t = ''originate'')
       \<and> is_at result 1 (\<lambda>t. t = (''{test='' @ [QUOTE] @ ''variable with quote'' @ [QUOTE] @ ''}sofia/test''))
       \<and> is_at result 2 (\<lambda>t. t = ''123''))"

definition split_missing_quote_returns_error :: bool where
  "split_missing_quote_returns_error =
     is_err (originate_split (''originate {test='' @ [QUOTE] @ ''variable with missing quote}sofia/test 123'') SP)"

definition split_string_starting_ending_with_quote :: bool where
  "split_string_starting_ending_with_quote =
     unwrap_ok (originate_split ([QUOTE] @ ''this is test'' @ [QUOTE]) SP) (\<lambda>result. is_at result 0 (\<lambda>t. t = ([QUOTE] @ ''this is test'' @ [QUOTE])))"

definition split_comma_separated :: bool where
  "split_comma_separated =
     unwrap_ok (originate_split ''item1,item2'' COMMA) (\<lambda>result.
       is_at result 0 (\<lambda>t. t = ''item1'') \<and> is_at result 1 (\<lambda>t. t = ''item2''))"

definition split_with_escaped_quotes :: bool where
  "split_with_escaped_quotes =
     unwrap_ok (originate_split
         (''originate {test='' @ [QUOTE] @ ''variable with quote'' @ [QUOTE] @ ''}sofia/test let'' @ [BSLASH, QUOTE] @ ''s add a quote'') SP) (\<lambda>result.
       is_at result 0 (\<lambda>t. t = ''originate'')
       \<and> is_at result 1 (\<lambda>t. t = (''{test='' @ [QUOTE] @ ''variable with quote'' @ [QUOTE] @ ''}sofia/test''))
       \<and> is_at result 2 (\<lambda>t. t = (''let'' @ [BSLASH, QUOTE] @ ''s'')) \<and> is_at result 3 (\<lambda>t. t = ''add'')
       \<and> is_at result 4 (\<lambda>t. t = ''a'') \<and> is_at result 5 (\<lambda>t. t = ''quote''))"

definition quote_without_spaces_returns_as_is :: bool where
  "quote_without_spaces_returns_as_is =
     (originate_quote ''&park()'' = ''&park()'')"

definition quote_with_spaces_wraps_in_single_quotes :: bool where
  "quote_with_spaces_wraps_in_single_quotes =
     (originate_quote ''&socket(127.0.0.1:8040 async full)'' = ([QUOTE] @ ''&socket(127.0.0.1:8040 async full)'' @ [QUOTE]))"

definition quote_with_single_quote_and_spaces_escapes_quote :: bool where
  "quote_with_single_quote_and_spaces_escapes_quote =
     (originate_quote (''&playback(it'' @ [QUOTE] @ ''s a test file)'') = ([QUOTE] @ ''&playback(it'' @ [BSLASH, QUOTE] @ ''s a test file)'' @ [QUOTE]))"

definition unquote_non_quoted_returns_as_is :: bool where
  "unquote_non_quoted_returns_as_is =
     (originate_unquote ''&park()'' = ''&park()'')"

definition unquote_strips_outer_quotes :: bool where
  "unquote_strips_outer_quotes =
     (originate_unquote ([QUOTE] @ ''&socket(127.0.0.1:8040 async full)'' @ [QUOTE]) = ''&socket(127.0.0.1:8040 async full)'')"

definition unquote_unescapes_inner_quotes :: bool where
  "unquote_unescapes_inner_quotes =
     (originate_unquote ([QUOTE] @ ''&playback(it'' @ [BSLASH, QUOTE] @ ''s a test file)'' @ [QUOTE]) = (''&playback(it'' @ [QUOTE] @ ''s a test file)''))"

definition quote_unquote_round_trip :: bool where
  "quote_unquote_round_trip =
     (let original = ''&socket(127.0.0.1:8040 async full)''
      in originate_unquote (originate_quote original) = original)"

definition quote_unquote_round_trip_with_inner_quote :: bool where
  "quote_unquote_round_trip_with_inner_quote =
     (let original = (''&playback(it'' @ [QUOTE] @ ''s a test file)'')
      in originate_unquote (originate_quote original) = original)"

definition parse_application_list_bare_extension :: bool where
  "parse_application_list_bare_extension =
     unwrap_ok (parse_application_list ''123'' None) (\<lambda>list.
       is_at list 0 (\<lambda>app. app_name app = ''123'' \<and> app_args app = None))"

definition parse_application_list_xml_no_args :: bool where
  "parse_application_list_xml_no_args =
     unwrap_ok (parse_application_list ''&conference()'' None) (\<lambda>list.
       is_at list 0 (\<lambda>app. app_name app = ''conference'' \<and> app_args app = None))"

definition parse_application_list_xml_with_args :: bool where
  "parse_application_list_xml_with_args =
     unwrap_ok (parse_application_list ''&conference(1)'' None) (\<lambda>list.
       length list = 1 \<and> is_at list 0 (\<lambda>app. app_name app = ''conference'' \<and> app_args app = Some ''1''))"

definition parse_application_list_two_inline_apps :: bool where
  "parse_application_list_two_inline_apps =
     unwrap_ok (parse_application_list ''conference:1,hangup:NORMAL_CLEARING'' (Some Inline)) (\<lambda>list.
       length list = 2
       \<and> is_at list 0 (\<lambda>app. app_name app = ''conference'' \<and> app_args app = Some ''1'')
       \<and> is_at list 1 (\<lambda>app. app_name app = ''hangup'' \<and> app_args app = Some ''NORMAL_CLEARING''))"

section \<open>Variables\<close>

definition variables_standard_chars :: bool where
  "variables_standard_chars =
     (let result = variables_display (one_var Default ''test_key'' ''this_value'')
      in contains_str result ''test_key'' \<and> contains_str result ''this_value'')"

definition variables_comma_escaped :: bool where
  "variables_comma_escaped =
     contains_str (variables_display (one_var Default ''test_key'' ''this,is,a,value'')) ([BSLASH] @ '','')"

definition variables_spaces_quoted :: bool where
  "variables_spaces_quoted =
     (length (filter (\<lambda>c. c = QUOTE) (variables_display (one_var Default ''test_key'' ''this is a value''))) = 2)"

definition variables_single_quote_escaped :: bool where
  "variables_single_quote_escaped =
     contains_str (variables_display (one_var Default ''test_key'' (''let'' @ [QUOTE] @ ''s_this_be_a_value''))) [BSLASH, QUOTE]"

definition variables_enterprise_delimiters :: bool where
  "variables_enterprise_delimiters =
     (let result = variables_display (one_var Enterprise ''k'' ''v'')
      in starts_with_str result ''<'' \<and> ends_with_str result ''>'')"

definition variables_channel_delimiters :: bool where
  "variables_channel_delimiters =
     (let result = variables_display (one_var Channel ''k'' ''v'')
      in starts_with_str result ''['' \<and> ends_with_str result '']'')"

definition variables_default_delimiters :: bool where
  "variables_default_delimiters =
     (let result = variables_display (one_var Default ''k'' ''v'')
      in starts_with_str result ''{'' \<and> ends_with_str result ''}'')"

definition variables_parse_round_trip :: bool where
  "variables_parse_round_trip =
     (let vars = variables_insert (one_var Default ''origination_caller_id_number'' ''9005551212'') ''sip_h_Call-Info'' ''<url>;meta=123,<uri>''
      in unwrap_ok (variables_from_str (variables_display vars)) (\<lambda>parsed.
           variables_get parsed ''origination_caller_id_number'' = Some ''9005551212''
           \<and> variables_get parsed ''sip_h_Call-Info'' = Some ''<url>;meta=123,<uri>''))"

section \<open>Endpoints and applications\<close>

definition endpoint_uri_only :: bool where
  "endpoint_uri_only =
     (endpoint_display (GenericEndpoint ''sofia/internal/123@cauca.ca'' None) = ''sofia/internal/123@cauca.ca'')"

definition endpoint_uri_with_variable :: bool where
  "endpoint_uri_with_variable =
     (endpoint_display (GenericEndpoint ''sofia/internal/123@cauca.ca'' (Some (one_var Default ''one_variable'' ''1'')))
      = ''{one_variable=1}sofia/internal/123@cauca.ca'')"

definition endpoint_variable_with_quote :: bool where
  "endpoint_variable_with_quote =
     (endpoint_display (GenericEndpoint ''sofia/internal/123@cauca.ca'' (Some (one_var Default ''one_variable'' (''one'' @ [QUOTE] @ ''quote''))))
      = (''{one_variable=one'' @ [BSLASH, QUOTE] @ ''quote}sofia/internal/123@cauca.ca''))"

definition loopback_endpoint_display :: bool where
  "loopback_endpoint_display =
     (endpoint_display (Loopback ''aUri'' ''aContext'' (Some (one_var Default ''one_variable'' ''1'')))
      = ''{one_variable=1}loopback/aUri/aContext'')"

definition sofia_gateway_endpoint_display :: bool where
  "sofia_gateway_endpoint_display =
     (endpoint_display (SofiaGateway ''aUri'' None ''internal'' (Some (one_var Default ''one_variable'' ''1'')))
      = ''{one_variable=1}sofia/gateway/internal/aUri'')"

definition application_xml_format :: bool where
  "application_xml_format =
     (application_to_string (application_new ''testApp'' (Some ''testArg'')) Xml = ''&testApp(testArg)'')"

definition application_inline_format :: bool where
  "application_inline_format =
     (application_to_string (application_new ''testApp'' (Some ''testArg'')) Inline = ''testApp:testArg'')"

definition application_list_single_xml :: bool where
  "application_list_single_xml =
     unwrap_ok (applications_to_string [application_new ''testApp1'' (Some ''testArg1'')] Xml)
       (\<lambda>s. s = ''&testApp1(testArg1)'')"

definition application_list_single_inline :: bool where
  "application_list_single_inline =
     unwrap_ok (applications_to_string [application_new ''testApp1'' (Some ''testArg1'')] Inline)
       (\<lambda>s. s = ''testApp1:testArg1'')"

definition application_list_empty_xml_errors :: bool where
  "application_list_empty_xml_errors =
     is_err (applications_to_string [] Xml)"

definition application_list_empty_inline :: bool where
  "application_list_empty_inline =
     unwrap_ok (applications_to_string [] Inline) (\<lambda>s. s = [])"

definition two_apps :: "Application list" where
  "two_apps =
     [application_new ''testApp1'' (Some ''testArg1''), application_new ''testApp2'' (Some ''testArg2'')]"

definition application_list_two_xml_errors :: bool where
  "application_list_two_xml_errors =
     is_err (applications_to_string two_apps Xml)"

definition application_list_two_inline :: bool where
  "application_list_two_inline =
     unwrap_ok (applications_to_string two_apps Inline) (\<lambda>s. s = ''testApp1:testArg1,testApp2:testArg2'')"

section \<open>Originate\<close>

definition orig_of :: "Endpoint \<Rightarrow> Application list \<Rightarrow> DialplanType option \<Rightarrow> Originate" where
  "orig_of ep apps dp =
     \<lparr>endpoint = ep, applications = apps, dialplan = dp, orig_context = None, cid_name = None,
      cid_num = None, orig_timeout = None\<rparr>"

definition conference_call :: "DialplanType \<Rightarrow> Originate" where
  "conference_call dp =
     orig_of (GenericEndpoint ''sofia/internal/123@cauca.ca'' None)
       [application_new ''conference'' (Some ''1'')] (Some dp)"

definition originate_xml_display :: bool where
  "originate_xml_display =
     unwrap_some (originate_display (conference_call Xml)) (\<lambda>s.
       s = ''originate sofia/internal/123@cauca.ca &conference(1) XML'')"

definition originate_inline_display :: bool where
  "originate_inline_display =
     unwrap_some (originate_display (conference_call Inline)) (\<lambda>s.
       s = ''originate sofia/internal/123@cauca.ca conference:1 inline'')"

definition originate_from_string_round_trip :: bool where
  "originate_from_string_round_trip =
     unwrap_ok (originate_from_str (''originate {test='' @ [QUOTE] @ ''variable with quote'' @ [QUOTE] @ ''}sofia/test 123'')) (\<lambda>orig.
       contains_str (endpoint_display (endpoint orig)) ''sofia/test'')"

definition originate_socket_app_quoted :: bool where
  "originate_socket_app_quoted =
     unwrap_some (originate_display (orig_of (Loopback ''9199'' ''test'' None)
         [application_new ''socket'' (Some ''127.0.0.1:8040 async full'')] None)) (\<lambda>s.
       s = (''originate loopback/9199/test '' @ [QUOTE] @ ''&socket(127.0.0.1:8040 async full)'' @ [QUOTE]))"

definition originate_socket_round_trip :: bool where
  "originate_socket_round_trip =
     (let input = (''originate loopback/9199/test '' @ [QUOTE] @ ''&socket(127.0.0.1:8040 async full)'' @ [QUOTE])
      in unwrap_ok (originate_from_str input) (\<lambda>parsed.
           originate_display parsed = Some input
           \<and> is_at (applications parsed) 0 (\<lambda>app. app_args app = Some ''127.0.0.1:8040 async full'')))"

definition originate_display_round_trip :: bool where
  "originate_display_round_trip =
     unwrap_some (originate_display (conference_call Xml)) (\<lambda>s.
       unwrap_ok (originate_from_str s) (\<lambda>parsed. originate_display parsed = Some s))"

definition dialplan_type_display_test :: bool where
  "dialplan_type_display_test =
     (dialplan_type_display Inline = ''inline'' \<and> dialplan_type_display Xml = ''XML'')"

definition dialplan_type_from_str_test :: bool where
  "dialplan_type_from_str_test =
     (unwrap_ok (dialplan_type_from_str ''inline'') (\<lambda>d. d = Inline)
      \<and> unwrap_ok (dialplan_type_from_str ''XML'') (\<lambda>d. d = Xml))"

section \<open>The tests pass\<close>

lemma token_tests:
  "split_with_quotes_ignores_spaces_inside \<and> split_missing_quote_returns_error
   \<and> split_string_starting_ending_with_quote \<and> split_comma_separated \<and> split_with_escaped_quotes
   \<and> quote_without_spaces_returns_as_is \<and> quote_with_spaces_wraps_in_single_quotes
   \<and> quote_with_single_quote_and_spaces_escapes_quote \<and> unquote_non_quoted_returns_as_is
   \<and> unquote_strips_outer_quotes \<and> unquote_unescapes_inner_quotes \<and> quote_unquote_round_trip
   \<and> quote_unquote_round_trip_with_inner_quote"
  by code_simp

lemma application_list_tests:
  "parse_application_list_bare_extension \<and> parse_application_list_xml_no_args
   \<and> parse_application_list_xml_with_args \<and> parse_application_list_two_inline_apps
   \<and> application_xml_format \<and> application_inline_format \<and> application_list_single_xml
   \<and> application_list_single_inline \<and> application_list_empty_xml_errors
   \<and> application_list_empty_inline \<and> application_list_two_xml_errors \<and> application_list_two_inline"
  by code_simp

lemma variables_tests:
  "variables_standard_chars \<and> variables_comma_escaped \<and> variables_spaces_quoted
   \<and> variables_single_quote_escaped \<and> variables_enterprise_delimiters
   \<and> variables_channel_delimiters \<and> variables_default_delimiters \<and> variables_parse_round_trip"
  by code_simp

lemma endpoint_tests:
  "endpoint_uri_only \<and> endpoint_uri_with_variable \<and> endpoint_variable_with_quote
   \<and> loopback_endpoint_display \<and> sofia_gateway_endpoint_display"
  by code_simp

lemma originate_tests:
  "originate_xml_display \<and> originate_inline_display \<and> originate_from_string_round_trip
   \<and> originate_socket_app_quoted \<and> originate_socket_round_trip \<and> originate_display_round_trip
   \<and> dialplan_type_display_test \<and> dialplan_type_from_str_test"
  by code_simp

section \<open>Optional fields are positional\<close>

text \<open>The example of the crate documentation, with its assertion.\<close>

definition lib_example :: Originate where
  "lib_example =
     \<lparr>endpoint = SofiaGateway ''18005551234'' None ''my_provider'' None,
      applications = [application_new ''park'' None], dialplan = None, orig_context = None,
      cid_name = Some ''Outbound Call'', cid_num = Some ''5551234'', orig_timeout = Some 30\<rparr>"

definition lib_doc_test :: bool where
  "lib_doc_test =
     unwrap_some (originate_display lib_example) (\<lambda>cmd.
       contains_str cmd ''sofia/gateway/my_provider/18005551234'')"

text \<open>The assertion holds, but the caller name has become the context and the second caller name word
  the name; \<open>FromStr\<close> reads the text this way too.\<close>

lemma lib_example_text:
  "lib_doc_test
   \<and> originate_display lib_example
      = Some ''originate sofia/gateway/my_provider/18005551234 &park() Outbound Call 5551234 30''
   \<and> unwrap_ok (originate_from_str
         ''originate sofia/gateway/my_provider/18005551234 &park() Outbound Call 5551234 30'') (\<lambda>o1.
       orig_context o1 = Some ''Outbound'' \<and> cid_name o1 = Some ''Call'' \<and> cid_num o1 = Some ''5551234''
       \<and> orig_timeout o1 = Some 30)"
  by code_simp

end
