(* ===== verification/Tests_Api.thy ===== *)
theory Tests_Api
  imports Esl_Api_Commands
begin

text \<open>
  The unit tests of \<open>src/src/commands/channel.rs\<close> and \<open>src/src/commands/conference.rs\<close>: the text
  of every API command builder, with and without its optional words.
\<close>

definition UUID :: string where
  "UUID = ''abc12345-6789-0abc-def0-123456789abc''"

definition OTHER :: string where
  "OTHER = ''def12345-6789-0abc-def0-123456789abc''"

section \<open>Channel commands\<close>

definition uuid_answer :: bool where
  "uuid_answer =
     (uuid_answer_display \<lparr>ua_uuid = UUID\<rparr> = ''uuid_answer '' @ UUID)"

definition uuid_bridge :: bool where
  "uuid_bridge =
     (uuid_bridge_display \<lparr>ub_uuid = UUID, ub_other = OTHER\<rparr> = ''uuid_bridge '' @ UUID @ '' '' @ OTHER)"

definition uuid_deflect :: bool where
  "uuid_deflect =
     (uuid_deflect_display \<lparr>ud_uuid = UUID, ud_uri = ''sip:user@host''\<rparr>
      = ''uuid_deflect '' @ UUID @ '' sip:user@host'')"

definition uuid_hold_on :: bool where
  "uuid_hold_on =
     (uuid_hold_display \<lparr>uh_uuid = UUID, uh_off = False\<rparr> = ''uuid_hold '' @ UUID)"

definition uuid_hold_off :: bool where
  "uuid_hold_off =
     (uuid_hold_display \<lparr>uh_uuid = UUID, uh_off = True\<rparr> = ''uuid_hold off '' @ UUID)"

definition uuid_kill_no_cause :: bool where
  "uuid_kill_no_cause =
     (uuid_kill_display \<lparr>uk_uuid = UUID, uk_cause = None\<rparr> = ''uuid_kill '' @ UUID)"

definition uuid_kill_with_cause :: bool where
  "uuid_kill_with_cause =
     (uuid_kill_display \<lparr>uk_uuid = UUID, uk_cause = Some ''NORMAL_CLEARING''\<rparr>
      = ''uuid_kill '' @ UUID @ '' NORMAL_CLEARING'')"

definition uuid_getvar :: bool where
  "uuid_getvar =
     (uuid_getvar_display \<lparr>ug_uuid = UUID, ug_key = ''sip_call_id''\<rparr>
      = ''uuid_getvar '' @ UUID @ '' sip_call_id'')"

definition uuid_setvar :: bool where
  "uuid_setvar =
     (uuid_setvar_display \<lparr>us_uuid = UUID, us_key = ''hangup_after_bridge'', us_value = ''true''\<rparr>
      = ''uuid_setvar '' @ UUID @ '' hangup_after_bridge true'')"

definition uuid_transfer_no_dialplan :: bool where
  "uuid_transfer_no_dialplan =
     (uuid_transfer_display \<lparr>ut_uuid = UUID, ut_destination = ''1000'', ut_dialplan = None\<rparr>
      = ''uuid_transfer '' @ UUID @ '' 1000'')"

definition uuid_transfer_with_dialplan :: bool where
  "uuid_transfer_with_dialplan =
     (uuid_transfer_display \<lparr>ut_uuid = UUID, ut_destination = ''1000'', ut_dialplan = Some ''XML''\<rparr>
      = ''uuid_transfer '' @ UUID @ '' 1000 XML'')"

definition uuid_send_dtmf :: bool where
  "uuid_send_dtmf =
     (uuid_send_dtmf_display \<lparr>uf_uuid = UUID, uf_dtmf = ''1234#''\<rparr> = ''uuid_send_dtmf '' @ UUID @ '' 1234#'')"

section \<open>Conference commands\<close>

definition conference_mute :: bool where
  "conference_mute =
     (conference_mute_display \<lparr>cm_name = ''conf1'', cm_action = Mute, cm_member_id = ''5''\<rparr>
      = ''conference conf1 mute 5'')"

definition conference_unmute :: bool where
  "conference_unmute =
     (conference_mute_display \<lparr>cm_name = ''conf1'', cm_action = Unmute, cm_member_id = ''5''\<rparr>
      = ''conference conf1 unmute 5'')"

definition conference_hold_all :: bool where
  "conference_hold_all =
     (conference_hold_display \<lparr>ch_name = ''conf1'', ch_action = Hold, ch_member = ''all'', ch_stream = None\<rparr>
      = ''conference conf1 hold all'')"

definition conference_hold_with_stream :: bool where
  "conference_hold_with_stream =
     (conference_hold_display \<lparr>ch_name = ''conf1'', ch_action = Hold, ch_member = ''all'', ch_stream = Some ''local_stream://moh''\<rparr>
      = ''conference conf1 hold all local_stream://moh'')"

definition conference_unhold :: bool where
  "conference_unhold =
     (conference_hold_display \<lparr>ch_name = ''conf1'', ch_action = Unhold, ch_member = ''all'', ch_stream = None\<rparr>
      = ''conference conf1 unhold all'')"

definition conference_dtmf :: bool where
  "conference_dtmf =
     (conference_dtmf_display \<lparr>cd_name = ''conf1'', cd_member = ''all'', cd_dtmf = ''1234''\<rparr>
      = ''conference conf1 dtmf all 1234'')"

section \<open>The tests pass\<close>

lemma channel_command_tests:
  "uuid_answer \<and> uuid_bridge \<and> uuid_deflect \<and> uuid_hold_on \<and> uuid_hold_off \<and> uuid_kill_no_cause
   \<and> uuid_kill_with_cause \<and> uuid_getvar \<and> uuid_setvar \<and> uuid_transfer_no_dialplan
   \<and> uuid_transfer_with_dialplan \<and> uuid_send_dtmf"
  by code_simp

lemma conference_command_tests:
  "conference_mute \<and> conference_unmute \<and> conference_hold_all \<and> conference_hold_with_stream
   \<and> conference_unhold \<and> conference_dtmf"
  by code_simp

end
