(* ===== verification/Tests_Data.thy ===== *)
theory Tests_Data
  imports Test_Support Esl_Array Esl_Handles
begin

text \<open>
  The unit tests of \<open>src/src/buffer.rs\<close>, of \<open>esl_array.rs\<close> and \<open>sip_multipart.rs\<close> under
  \<open>src/src/variables\<close>, and of \<open>src/src/connection.rs\<close>.
\<close>

section \<open>The receive buffer\<close>

definition buffer_of :: "bytes \<Rightarrow> EslBuffer" where
  "buffer_of d = extend_from_slice buf_new d"

definition test_basic_operations :: bool where
  "test_basic_operations =
     (buf_len buf_new = 0
      \<and> (let buf = buffer_of ''Hello World'' in buf_len buf = 11 \<and> buf_data buf = ''Hello World''))"

definition test_advance :: bool where
  "test_advance =
     (case advance (buffer_of ''Hello World'') 6 of (r, buf) \<Rightarrow>
        unwrap_ok r (\<lambda>_. buf_data buf = ''World'' \<and> buf_len buf = 5))"

definition test_advance_overflow :: bool where
  "test_advance_overflow =
     is_err (fst (advance (buffer_of ''Hello'') 10))"

definition test_find_pattern :: bool where
  "test_find_pattern =
     (find_pattern (buffer_of (''Header1: Value1'' @ [CR, NL] @ ''Header2: Value2'' @ [CR, NL, CR, NL] @ ''Body'')) [CR, NL, CR, NL] = Some 32)"

definition test_extract_until_pattern :: bool where
  "test_extract_until_pattern =
     (case extract_until_pattern (buffer_of (''Header1: Value1'' @ [CR, NL] @ ''Header2: Value2'' @ [CR, NL, CR, NL] @ ''Body'')) [CR, NL, CR, NL] of
        (r, buf) \<Rightarrow> unwrap_some r (\<lambda>hdrs.
          hdrs = (''Header1: Value1'' @ [CR, NL] @ ''Header2: Value2'') \<and> buf_data buf = ''Body''))"

definition test_extract_bytes :: bool where
  "test_extract_bytes =
     (case extract_bytes (buffer_of ''Hello World'') 5 of (r, buf) \<Rightarrow>
        unwrap_some r (\<lambda>d. d = ''Hello'' \<and> buf_data buf = '' World''))"

definition test_compact :: bool where
  "test_compact =
     (case advance (buffer_of ''Hello World'') 6 of (r, buf) \<Rightarrow>
        unwrap_ok r (\<lambda>_. buf_data buf = ''World'' \<and> buf_data (compact buf) = ''World''))"

section \<open>Arrays\<close>

definition parse_single_item :: bool where
  "parse_single_item =
     unwrap_some (array_parse ''ARRAY::hello'') (\<lambda>arr. array_items arr = [''hello''] \<and> array_len arr = 1)"

definition parse_multiple_items :: bool where
  "parse_multiple_items =
     unwrap_some (array_parse ''ARRAY::one|:two|:three'') (\<lambda>arr.
       array_items arr = [''one'', ''two'', ''three''] \<and> array_len arr = 3)"

definition parse_non_array_returns_none :: bool where
  "parse_non_array_returns_none =
     (array_parse ''not an array'' = None \<and> array_parse [] = None \<and> array_parse ''ARRAY:'' = None)"

definition display_round_trip :: bool where
  "display_round_trip =
     (let input = ''ARRAY::one|:two|:three'' in
      unwrap_some (array_parse input) (\<lambda>arr. array_display arr = input))"

definition display_single_item :: bool where
  "display_single_item =
     unwrap_some (array_parse ''ARRAY::only'') (\<lambda>arr. array_display arr = ''ARRAY::only'')"

definition empty_items_in_array :: bool where
  "empty_items_in_array =
     unwrap_some (array_parse ''ARRAY::|:|:stuff'') (\<lambda>arr. array_items arr = [[], [], ''stuff''])"

definition test_new :: bool where
  "test_new =
     (let arr = array_new [''a'', ''b'', ''c''] in array_items arr = [''a'', ''b'', ''c''] \<and> array_len arr = 3)"

definition test_push :: bool where
  "test_push =
     (let arr = array_push (array_push (array_new [''first'']) ''second'') ''third''
      in array_items arr = [''first'', ''second'', ''third'']
         \<and> array_display arr = ''ARRAY::first|:second|:third'')"

definition test_unshift :: bool where
  "test_unshift =
     (let arr = array_unshift (array_unshift (array_new [''last'']) ''middle'') ''first''
      in array_items arr = [''first'', ''middle'', ''last'']
         \<and> array_display arr = ''ARRAY::first|:middle|:last'')"

section \<open>Multipart bodies\<close>

definition parse_multipart_body :: bool where
  "parse_multipart_body =
     unwrap_some (multipart_parse
         (''ARRAY::application/sdp:v=0'' @ [CR, NL] @ ''o=...|:application/pidf+xml:<presence>...</presence>'')) (\<lambda>body.
       map mime_type (multipart_items body) = [''application/sdp'', ''application/pidf+xml'']
       \<and> map part_data (multipart_items body) = [(''v=0'' @ [CR, NL] @ ''o=...''), ''<presence>...</presence>''])"

definition by_mime_type_filtering :: bool where
  "by_mime_type_filtering =
     unwrap_some (multipart_parse
         ''ARRAY::text/plain:hello|:application/pidf+xml:<pidf/>|:text/plain:world'') (\<lambda>body.
       by_mime_type body ''application/pidf+xml'' = [''<pidf/>'']
       \<and> by_mime_type body ''text/plain'' = [''hello'', ''world'']
       \<and> by_mime_type body ''application/json'' = [])"

definition non_array_returns_none :: bool where
  "non_array_returns_none =
     (multipart_parse ''not an array'' = None)"

definition malformed_entries_skipped :: bool where
  "malformed_entries_skipped =
     unwrap_some (multipart_parse ''ARRAY::application/sdp:v=0|:no-colon-here|:text/plain:ok'') (\<lambda>body.
       map mime_type (multipart_items body) = [''application/sdp'', ''text/plain''])"

section \<open>Connections\<close>

definition test_connection_mode :: bool where
  "test_connection_mode =
     (InboundMode = InboundMode \<and> InboundMode \<noteq> OutboundMode)"

definition test_connection_status_eq :: bool where
  "test_connection_status_eq =
     (Connected = Connected
      \<and> Disconnected ServerNotice = Disconnected ServerNotice
      \<and> Connected \<noteq> Disconnected PeerClosed)"

section \<open>The tests pass\<close>

lemma buffer_tests:
  "test_basic_operations \<and> test_advance \<and> test_advance_overflow \<and> test_find_pattern
   \<and> test_extract_until_pattern \<and> test_extract_bytes \<and> test_compact"
  by code_simp

lemma array_tests:
  "parse_single_item \<and> parse_multiple_items \<and> parse_non_array_returns_none \<and> display_round_trip
   \<and> display_single_item \<and> empty_items_in_array \<and> test_new \<and> test_push \<and> test_unshift"
  by code_simp

lemma multipart_tests:
  "parse_multipart_body \<and> by_mime_type_filtering \<and> non_array_returns_none \<and> malformed_entries_skipped"
  by code_simp

lemma connection_tests: "test_connection_mode \<and> test_connection_status_eq"
  by code_simp

end
