(* ===== verification/Esl_Mock.thy ===== *)
theory Esl_Mock
  imports Esl_Calls
begin

text \<open>
  The mock server of \<open>src/tests/mock_server.rs\<close>, which the integration tests connect the client to: the bytes
  it sends, how it reads a command, and its handshake. The library is composed with it: the
  client's side of the handshake and of a command against this server, with the reader in
  between. \<open>percent_encode\<close> and the order of a \<open>HashMap\<close> are arguments.
\<close>

section \<open>What the server sends\<close>

definition mock_auth_request :: bytes where
  "mock_auth_request = ''Content-Type: auth/request'' @ [NL, NL]"

definition mock_event_body :: "(bytes \<Rightarrow> string) \<Rightarrow> header_order \<Rightarrow> string \<Rightarrow> headers \<Rightarrow> string" where
  "mock_event_body penc ord event_name headers =
     ''Event-Name: '' @ penc event_name @ [NL] @ concat (map (header_line penc) (ord headers)) @ [NL]"

definition mock_event_plain :: "(bytes \<Rightarrow> string) \<Rightarrow> header_order \<Rightarrow> string \<Rightarrow> headers \<Rightarrow> bytes" where
  "mock_event_plain penc ord event_name headers =
     (let body = mock_event_body penc ord event_name headers;
          envelope = ''Content-Length: '' @ nat_to_string (length body) @ [NL]
                     @ ''Content-Type: text/event-plain'' @ [NL, NL]
      in envelope @ body)"

definition heartbeat_headers :: headers where
  "heartbeat_headers = fmap_of_list
     [(''Core-UUID'', ''test-core-uuid''), (''FreeSWITCH-Hostname'', ''test-host''),
      (''Event-Info'', ''System Ready''), (''Up-Time'', ''0 years, 0 days, 1 hour, 23 minutes''),
      (''Session-Count'', ''5''), (''Max-Sessions'', ''1000''), (''Heartbeat-Interval'', ''20'')]"

definition mock_heartbeat :: "(bytes \<Rightarrow> string) \<Rightarrow> header_order \<Rightarrow> bytes" where
  "mock_heartbeat penc ord = mock_event_plain penc ord ''HEARTBEAT'' heartbeat_headers"

definition mock_disconnect_notice :: "string \<Rightarrow> bytes" where
  "mock_disconnect_notice message =
     ''Content-Type: text/disconnect-notice'' @ [NL] @ ''Content-Disposition: disconnect'' @ [NL]
       @ ''Content-Length: '' @ nat_to_string (length message) @ [NL, NL] @ message"

definition mock_reply_ok :: bytes where
  "mock_reply_ok = ''Content-Type: command/reply'' @ [NL] @ ''Reply-Text: +OK accepted'' @ [NL, NL]"

definition mock_reply_api :: "string \<Rightarrow> bytes" where
  "mock_reply_api body =
     ''Content-Type: api/response'' @ [NL] @ ''Content-Length: '' @ nat_to_string (length body) @ [NL, NL] @ body"

definition mock_reply_err :: "string \<Rightarrow> bytes" where
  "mock_reply_err t = ''Content-Type: command/reply'' @ [NL] @ ''Reply-Text: -ERR '' @ t @ [NL, NL]"

definition mock_reply_raw_text :: "string \<Rightarrow> bytes" where
  "mock_reply_raw_text t = ''Content-Type: command/reply'' @ [NL] @ ''Reply-Text: '' @ t @ [NL, NL]"

definition protocol_headers :: "(string \<times> string) list" where
  "protocol_headers =
     [(''Content-Type'', ''command/reply''), (''Reply-Text'', ''+OK''), (''Socket-Mode'', ''async''),
      (''Control'', ''full'')]"

definition mock_connect_response :: "(bytes \<Rightarrow> string) \<Rightarrow> header_order \<Rightarrow> headers \<Rightarrow> bytes" where
  "mock_connect_response penc ord channel_headers =
     concat (map (header_line penc) (ord channel_headers)) @ concat (map (header_line penc) protocol_headers) @ [NL]"

section \<open>Reading a command\<close>

text \<open>\<open>BufReader::read_line\<close> on a buffer and the reads of the socket that will succeed before the client
  closes: the line, what is left in the buffer, and the reads that are left.\<close>

fun read_line :: "bytes \<Rightarrow> bytes list \<Rightarrow> string \<times> bytes \<times> bytes list" where
  "read_line buf [] =
     (case split_once NL buf of Some (l, rest) \<Rightarrow> (l @ [NL], rest, []) | None \<Rightarrow> (buf, [], []))"
| "read_line buf (c # cs) =
     (case split_once NL buf of
        Some (l, rest) \<Rightarrow> (l @ [NL], rest, c # cs)
      | None \<Rightarrow> (case read_line c cs of (l, rest, rs) \<Rightarrow> (buf @ l, rest, rs)))"

lemma read_line_split:
  "read_line buf reads = (l, b, rs) \<Longrightarrow> buf @ concat reads = l @ b @ concat rs"
  by (induction buf reads arbitrary: l b rs rule: read_line.induct)
    (auto simp: split_once_Some split: option.splits prod.splits)

lemma read_line_shorter:
  "read_line buf reads = (l, b, rs) \<Longrightarrow> l \<noteq> [] \<Longrightarrow> length b + length (concat rs) < length buf + length (concat reads)"
  by (drule read_line_split, drule arg_cong [where f = length]) simp

text \<open>The loop of \<open>read_command\<close>. The buffer lives as long as the call: what is left in it is dropped.\<close>

function read_command_loop :: "bytes \<Rightarrow> bytes list \<Rightarrow> string \<Rightarrow> string \<times> bytes list" where
  "read_command_loop buf reads result =
     (case read_line buf reads of (line, buf', reads') \<Rightarrow>
        if line = [] then (result, reads')
        else if strip_suffix [NL, NL] (result @ line) \<noteq> None then (result @ line, reads')
        else read_command_loop buf' reads' (result @ line))"
  by pat_completeness auto
termination
  by (relation "measure (\<lambda>(buf, reads, _). length buf + length (concat reads))") (auto intro: read_line_shorter [OF sym])

declare read_command_loop.simps [simp del]

definition read_command :: "bytes list \<Rightarrow> string \<times> bytes list" where
  "read_command reads = read_command_loop [] reads []"

lemma read_line_first:
  assumes "buf @ concat reads = l @ NL # r" "NL \<notin> set l"
  shows "\<exists>b rs. read_line buf reads = (l @ [NL], b, rs) \<and> b @ concat rs = r"
  using assms
proof (induction buf reads arbitrary: l rule: read_line.induct)
  case (1 buf)
  then show ?case by (simp add: split_once_append)
next
  case (2 buf c cs)
  show ?case
  proof (cases "split_once NL buf")
    case (Some x)
    then obtain k rest where x: "split_once NL buf = Some (k, rest)" by (cases x) auto
    then have "split_once NL (l @ NL # r) = Some (k, rest @ concat (c # cs))"
      using 2(2) by (simp add: split_once_Some flip: 2(2))
    with 2(3) have "k = l" "rest @ concat (c # cs) = r" by (simp_all add: split_once_append)
    with x show ?thesis by simp
  next
    case None
    then have "NL \<notin> set buf" by (simp add: split_once_None)
    moreover obtain us where "buf = l @ us \<and> us @ c @ concat cs = NL # r \<or> buf @ us = l \<and> c @ concat cs = us @ NL # r"
      using 2(2) append_eq_append_conv2 [of buf "c @ concat cs" l "NL # r"] by auto
    ultimately obtain l' where "l = buf @ l'" "c @ concat cs = l' @ NL # r"
      by (cases us) auto
    with 2(1) [OF None, of l'] 2(3) None show ?thesis by fastforce
  qed
qed

text \<open>A whole block of lines is read to its blank line, whatever the reads; what came with its last
  bytes is lost.\<close>

lemma read_command_block:
  assumes "buf @ concat reads = block ls @ NL # rest" "\<forall>l \<in> set ls. wire_line l" "done @ ls \<noteq> []"
  shows "\<exists>lost rs. read_command_loop buf reads (block done) = (block (done @ ls) @ [NL], rs)
     \<and> rest = lost @ concat rs"
  using assms
proof (induction ls arbitrary: buf reads "done")
  case Nil
  then obtain b rs where r: "read_line buf reads = ([NL], b, rs)" "b @ concat rs = rest"
    using read_line_first [of buf reads "[]" rest] by auto
  from Nil.prems(3) have "block done @ [NL] = join [NL] done @ [NL, NL]" by (simp add: block_join)
  then have "strip_suffix [NL, NL] (block done @ [NL]) \<noteq> None" by (metis option.distinct(1) strip_suffix_append)
  with r show ?case by (auto simp: read_command_loop.simps [of buf])
next
  case (Cons l ls)
  have l: "NL \<notin> set l" "l \<noteq> []" using Cons.prems(2) by (simp_all add: wire_line_def)
  have "buf @ concat reads = l @ NL # block ls @ NL # rest" using Cons.prems(1) by simp
  from read_line_first [OF this l(1)] obtain b rs where
    r: "read_line buf reads = (l @ [NL], b, rs)" "b @ concat rs = block ls @ NL # rest" by blast
  have "strip_suffix [NL, NL] (block done @ l @ [NL]) = None"
  proof -
    have "block done @ l @ [NL] \<noteq> t @ [NL, NL]" for t
    proof
      assume "block done @ l @ [NL] = t @ [NL, NL]"
      then have "block done @ l = t @ [NL]" by (metis append.assoc append_Cons append_Nil append_same_eq)
      then have "last l = NL" using l(2) by (metis last_appendR last_snoc)
      with l show False by (metis last_in_set)
    qed
    then show ?thesis unfolding strip_suffix_None by blast
  qed
  with r(1) have "read_command_loop buf reads (block done) = read_command_loop b rs (block (done @ [l]))"
    by (simp add: read_command_loop.simps [of buf])
  with Cons.IH [OF r(2), of "done @ [l]"] Cons.prems(2) show ?case by simp
qed

lemma mock_reads_block:
  assumes "concat reads = block ls @ NL # rest" "\<forall>l \<in> set ls. wire_line l" "ls \<noteq> []"
  shows "fst (read_command reads) = block ls @ [NL]"
  using read_command_block [of "[]" reads ls rest "[]"] assms by (auto simp: read_command_def)

section \<open>Its messages are read back\<close>

lemma decoded:
  assumes "percent_codec penc pdec"
  shows "utf8_valid v \<Longrightarrow> header_value pdec (penc v) = v"
    and "CHR ''%'' \<notin> set v \<Longrightarrow> header_value pdec v = v"
  using percent_codec.pdec_penc [OF assms] percent_codec.pdec_plain [OF assms] by (simp_all add: header_value_def)

definition reply_raws :: "string \<Rightarrow> (string \<times> string) list" where
  "reply_raws t = [(''Content-Type'', ''command/reply''), (''Reply-Text'', t)]"

lemma mock_replies:
  "mock_reply_raw_text t = wire_message (reply_raws t) []"
  "mock_reply_ok = mock_reply_raw_text ''+OK accepted''" "mock_reply_err t = mock_reply_raw_text (''-ERR '' @ t)"
  by (simp_all add: mock_reply_raw_text_def mock_reply_ok_def mock_reply_err_def wire_message_def reply_raws_def
      block_def raw_line_def)

definition the_reply :: "(string \<Rightarrow> bytes) \<Rightarrow> string \<Rightarrow> EslMessage" where
  "the_reply pdec t = message_new CommandReply (set_raws pdec (reply_raws t) fmempty) None"

lemma reply_framed:
  assumes "percent_codec penc pdec" "tidy t" "utf8_valid t"
  shows "next_frame pdec (mock_reply_raw_text t @ rest) = Frame (the_reply pdec t) rest"
    and "reply_text (into_response (the_reply pdec t)) = Some (header_value pdec t)"
    and "is_reply (the_reply pdec t)"
proof -
  have g: "tidy ''command/reply''" by code_simp
  have "utf8_valid (''Content-Type: command/reply'' @ NL # ''Reply-Text: '')" by code_simp
  moreover have "join [NL] (map raw_line (reply_raws t)) = (''Content-Type: command/reply'' @ NL # ''Reply-Text: '') @ t"
    by (simp add: reply_raws_def raw_line_def)
  ultimately have u: "utf8_valid (join [NL] (map raw_line (reply_raws t)))"
    using assms(3) by (simp only: utf8_valid_append)
  have "type_from_content_type (header_value pdec ''command/reply'') = CommandReply"
    by (subst decoded(2) [OF assms(1)]) (code_simp, code_simp)
  with g u assms(2) show "next_frame pdec (mock_reply_raw_text t @ rest) = Frame (the_reply pdec t) rest"
    unfolding mock_replies the_reply_def
    by (subst framed_no_body [where ct = "''command/reply''"]) (auto simp: reply_raws_def good_raw_def)
  show "reply_text (into_response (the_reply pdec t)) = Some (header_value pdec t)"
    by (simp add: the_reply_def into_response_def message_new_def reply_raws_def)
  show "is_reply (the_reply pdec t)"
    by (simp add: the_reply_def is_reply_def message_new_def)
qed

lemma api_framed:
  assumes "percent_codec penc pdec" "length body \<le> MAX_MESSAGE_SIZE" "utf8_valid body"
  shows "\<exists>m. next_frame pdec (mock_reply_api body @ rest) = Frame m rest \<and> is_reply m
     \<and> is_success (into_response m) \<and> resp_body (into_response m) = (if body = [] then None else Some body)"
proof -
  let ?raws = "[(''Content-Type'', ''api/response''), (''Content-Length'', nat_to_string (length body))]"
  have w: "mock_reply_api body = wire_message ?raws body"
    by (simp add: mock_reply_api_def wire_message_def block_def raw_line_def)
  have "tidy ''api/response''" by code_simp
  then have g: "\<forall>kv \<in> set ?raws. good_raw kv"
    using nat_to_string_digits is_digit_solid by (auto simp: good_raw_def tidy_solid)
  have "\<forall>c \<in> set (''Content-Type: api/response'' @ [NL] @ ''Content-Length: ''). is_ascii c" by code_simp
  then have u: "utf8_valid (join [NL] (map raw_line ?raws))"
    using nat_to_string_digits [of "length body"] is_digit_ascii by (intro utf8_valid_ascii) (auto simp: raw_line_def)
  have ct: "type_from_content_type (header_value pdec ''api/response'') = ApiResponse"
    by (subst decoded(2) [OF assms(1)]) (code_simp, code_simp)
  have "is_success (into_response (message_new ApiResponse (set_raws pdec ?raws fmempty) b))" for b
    by (simp add: into_response_def is_success_def resp_status_new message_new_def)
  with framed_message [OF assms(1) g _ u _ _ assms(2,3), of "''api/response''" rest] ct show ?thesis
    by (intro exI [of _ "message_new ApiResponse (set_raws pdec ?raws fmempty) (if body = [] then None else Some body)"])
      (simp add: w is_reply_def into_response_def message_new_def)
qed

text \<open>Header lines whose values are percent-encoded.\<close>

definition enc_raws :: "(bytes \<Rightarrow> string) \<Rightarrow> (string \<times> string) list \<Rightarrow> (string \<times> string) list" where
  "enc_raws penc kvs = map (\<lambda>(k, v). (k, penc v)) kvs"

lemma enc_raws_block: "concat (map (header_line penc) kvs) = block (map raw_line (enc_raws penc kvs))"
  by (induction kvs) (auto simp: enc_raws_def header_line_def raw_line_def)

lemma enc_raws_good:
  assumes "percent_codec penc pdec" "\<forall>(k, v) \<in> set kvs. good_key k \<and> utf8_valid k"
  shows "\<forall>kv \<in> set (enc_raws penc kvs). good_raw kv"
    and "utf8_valid (join [NL] (map raw_line (enc_raws penc kvs)))"
    and "utf8_valid (block (map raw_line (enc_raws penc kvs)))"
proof -
  note solid = percent_codec.penc_solid [OF assms(1)]
  then show "\<forall>kv \<in> set (enc_raws penc kvs). good_raw kv"
    using assms(2) by (auto simp: enc_raws_def good_raw_def tidy_solid)
  have "utf8_valid ('': '' @ penc v)" for v
    using solid [of v] by (intro utf8_valid_ascii) (auto simp: solid_def is_ascii_def byte_val_def)
  then have line: "utf8_valid l" if "l \<in> set (map raw_line (enc_raws penc kvs))" for l
    using that assms(2) by (auto simp: enc_raws_def raw_line_def utf8_valid_append)
  have nl: "is_ascii NL" by code_simp
  have "utf8_valid (join [NL] ls) \<and> utf8_valid (block ls)" if "\<forall>l \<in> set ls. utf8_valid l" for ls
    using that nl by (induction ls) (auto simp: join_Cons utf8_valid_append)
  with line show "utf8_valid (join [NL] (map raw_line (enc_raws penc kvs)))"
    "utf8_valid (block (map raw_line (enc_raws penc kvs)))" by blast+
qed

lemma enc_raws_map_of: "map_of (enc_raws penc kvs) k = map_option penc (map_of kvs k)"
  by (simp add: enc_raws_def map_of_map)

lemma enc_raws_lookup:
  assumes "percent_codec penc pdec" "distinct (map fst kvs)" "\<forall>(k, v) \<in> set kvs. utf8_valid v"
  shows "fmlookup (set_raws pdec (enc_raws penc kvs) fmempty) k = map_of kvs k"
proof -
  have "map fst (enc_raws penc kvs) = map fst kvs" by (auto simp: enc_raws_def)
  moreover have "header_value pdec (penc v) = v" if "map_of kvs k = Some v" for v
    using assms(3) map_of_SomeD [OF that] by (intro decoded(1) [OF assms(1)]) auto
  ultimately show ?thesis
    using assms(2) by (auto simp: set_raws_lookup enc_raws_map_of split: option.splits)
qed

lemma map_order_entries:
  "map_order ord \<Longrightarrow> map_of (ord m) k = fmlookup m k"
  by (metis fmlookup_of_list map_order.entries_map)

lemma mock_event_received:
  assumes "percent_codec penc pdec" "map_order ord"
    and "fmlookup headers ''Event-Name'' = None" "utf8_valid event_name"
    and "\<forall>(k, v) \<in> set (ord headers). good_key k \<and> utf8_valid k \<and> utf8_valid v"
    and "length (mock_event_body penc ord event_name headers) \<le> MAX_MESSAGE_SIZE"
  shows "\<exists>m. next_frame pdec (mock_event_plain penc ord event_name headers @ rest) = Frame m rest \<and> is_event m
     \<and> (\<forall>json xml. parse_event pdec json xml m (message_format m)
          = Inr (event_of (fmupd ''Event-Name'' event_name headers) None))"
proof -
  let ?kvs = "(''Event-Name'', event_name) # ord headers"
  let ?raws = "enc_raws penc ?kvs"
  let ?body = "mock_event_body penc ord event_name headers"
  have body: "?body = wire_message ?raws []"
    by (simp add: mock_event_body_def wire_message_def enc_raws_block) (simp add: enc_raws_def raw_line_def)
  have "utf8_valid ''Event-Name''" by code_simp
  with assms(5) have ok: "\<forall>(k, v) \<in> set ?kvs. good_key k \<and> utf8_valid k" by auto
  note good = enc_raws_good [OF assms(1) ok]
  have dist: "distinct (map fst ?kvs)"
    using map_order.entries_distinct [OF assms(2)] map_order_entries [OF assms(2), of headers "''Event-Name''"] assms(3)
    by (simp add: map_of_eq_None_iff)
  have "utf8_valid [NL]" by code_simp
  then have utf8: "utf8_valid ?body" "?body \<noteq> []"
    using good(3) by (simp_all add: body wire_message_def utf8_valid_append)
  note framed = plain_envelope_framed [OF assms(1) utf8(2) assms(6) utf8(1)]
  have vals: "\<forall>(k, v) \<in> set ?kvs. utf8_valid v" using assms(4,5) by auto
  have "fmlookup (set_raws pdec ?raws fmempty) k = fmlookup (fmupd ''Event-Name'' event_name headers) k" for k
    using enc_raws_lookup [OF assms(1) dist vals, of k] map_order_entries [OF assms(2)] by auto
  then have "set_raws pdec ?raws fmempty = fmupd ''Event-Name'' event_name headers"
    by (rule fmap_ext)
  moreover have "?raws \<noteq> []" by (simp add: enc_raws_def)
  ultimately have "parse_plain_event pdec (message_new EventMsg h (Some ?body))
      = Inr (event_of (fmupd ''Event-Name'' event_name headers) None)" for h
    using parse_plain_event_block [of ?raws pdec h "[]"] good(1) by (simp add: body)
  moreover have "mock_event_plain penc ord event_name headers = wire_message (plain_envelope ?body) ?body"
    by (simp add: mock_event_plain_def wire_message_def plain_envelope_def block_def raw_line_def Let_def)
  moreover have "message_format (message_new EventMsg (set_raws pdec (plain_envelope ?body) fmempty) (Some ?body)) = Plain"
    using framed(2) by (simp add: message_format_def message_new_def from_content_type_def)
  ultimately show ?thesis
    using framed(1) [of rest]
    by (intro exI [of _ "message_new EventMsg (set_raws pdec (plain_envelope ?body) fmempty) (Some ?body)"])
      (simp add: is_event_def message_new_def parse_event_def)
qed

lemma connect_response_received:
  assumes "percent_codec penc pdec" "map_order ord"
    and "\<forall>k \<in> {''Content-Type'', ''Reply-Text'', ''Socket-Mode'', ''Control'', ''Content-Length''}. fmlookup h k = None"
    and "\<forall>(k, v) \<in> set (ord h). good_key k \<and> utf8_valid k \<and> utf8_valid v"
  shows "\<exists>m. next_frame pdec (mock_connect_response penc ord h @ rest) = Frame m rest \<and> is_reply m
     \<and> is_success (into_response m)
     \<and> (\<forall>k. resp_header (into_response m) k =
          (case map_of protocol_headers k of Some v \<Rightarrow> Some v | None \<Rightarrow> fmlookup h k))"
proof -
  let ?kvs = "ord h @ protocol_headers"
  let ?raws = "enc_raws penc ?kvs"
  have w: "mock_connect_response penc ord h = wire_message ?raws []"
    by (simp add: mock_connect_response_def wire_message_def enc_raws_block enc_raws_def)
  have p: "list_all (\<lambda>(k, v). good_key k \<and> utf8_valid k \<and> utf8_valid v) protocol_headers"
    "distinct (map fst protocol_headers)" "map fst protocol_headers = [''Content-Type'', ''Reply-Text'', ''Socket-Mode'', ''Control'']"
    by code_simp+
  have ok: "\<forall>(k, v) \<in> set ?kvs. good_key k \<and> utf8_valid k" "\<forall>(k, v) \<in> set ?kvs. utf8_valid v"
    using assms(4) p(1) by (auto simp: list_all_iff)
  note good = enc_raws_good [OF assms(1) ok(1)]
  have keys: "k \<in> set (map fst (ord h)) \<longleftrightarrow> fmlookup h k \<noteq> None" for k
    using map_order_entries [OF assms(2), of h k] map_of_eq_None_iff [of "ord h" k] by auto
  have dist: "distinct (map fst ?kvs)"
    using map_order.entries_distinct [OF assms(2)] p(2) assms(3) keys unfolding map_append distinct_append p(3) by auto
  note look = enc_raws_lookup [OF assms(1) dist ok(2)]
  have both: "map_of ?kvs k = (case map_of protocol_headers k of Some v \<Rightarrow> Some v | None \<Rightarrow> fmlookup h k)" for k
  proof (cases "map_of protocol_headers k")
    case None
    then show ?thesis
      using map_order_entries [OF assms(2), of h k] by (simp add: map_add_def split: option.splits)
  next
    case (Some v)
    then have "k \<in> set (map fst protocol_headers)" by (metis map_of_eq_None_iff option.distinct(1) set_map)
    then have "fmlookup h k = None" using assms(3) unfolding p(3) by auto
    then show ?thesis
      using Some map_order_entries [OF assms(2), of h k] by (simp add: map_add_def split: option.splits)
  qed
  have "map_of ?kvs ''Content-Type'' = Some ''command/reply''" "map_of ?kvs ''Content-Length'' = None"
    unfolding both using assms(3) by (simp_all add: protocol_headers_def)
  then have ct: "map_of ?raws ''Content-Type'' = Some (penc ''command/reply'')" "map_of ?raws ''Content-Length'' = None"
    by (simp_all only: enc_raws_map_of option.map)
  have "utf8_valid ''command/reply''" by code_simp
  then have "type_from_content_type (header_value pdec (penc ''command/reply'')) = CommandReply"
    by (subst decoded(1) [OF assms(1)]) (assumption, code_simp)
  with framed_no_body [OF good(1) _ good(2) ct, of pdec rest] dist
  have f: "next_frame pdec (mock_connect_response penc ord h @ rest)
      = Frame (message_new CommandReply (set_raws pdec ?raws fmempty) None) rest"
    unfolding w by (auto simp: enc_raws_def comp_def split_beta)
  have "map_of protocol_headers ''Reply-Text'' = Some ''+OK''" "starts_with ''+OK'' ''+OK''" by code_simp+
  then have "is_success (into_response (message_new CommandReply (set_raws pdec ?raws fmempty) None))"
    by (simp add: into_response_def is_success_def resp_status_new message_new_def look both del: map_of_append)
  with f show ?thesis
    by (intro exI [of _ "message_new CommandReply (set_raws pdec ?raws fmempty) None"])
      (simp add: is_reply_def message_new_def into_response_def resp_header_def look both del: map_of_append)
qed

section \<open>The handshake with the mock server\<close>

text \<open>The answer of \<open>accept\<close> to the command it has read.\<close>

definition mock_auth_reply :: "string \<Rightarrow> string \<Rightarrow> bytes" where
  "mock_auth_reply password cmd =
     (if cmd = ''auth '' @ password @ [NL, NL] then mock_reply_ok else mock_reply_err ''Invalid password'')"

lemma auth_request_framed:
  assumes "percent_codec penc pdec"
  shows "\<exists>m. next_frame pdec (mock_auth_request @ rest) = Frame m rest \<and> message_type m = AuthRequest"
proof -
  let ?raws = "[(''Content-Type'', ''auth/request'')]"
  have "tidy ''auth/request''" "utf8_valid (join [NL] (map raw_line ?raws))" by code_simp+
  moreover have "type_from_content_type (header_value pdec ''auth/request'') = AuthRequest"
    by (subst decoded(2) [OF assms]) (code_simp, code_simp)
  moreover have "mock_auth_request = wire_message ?raws []"
    by (simp add: mock_auth_request_def wire_message_def block_def raw_line_def)
  ultimately show ?thesis
    using framed_no_body [of ?raws "''auth/request''" pdec rest] by (simp add: good_raw_def message_new_def)
qed

lemma auth_reply_text:
  "mock_auth_reply password cmd =
     mock_reply_raw_text (if cmd = ''auth '' @ password @ [NL, NL] then ''+OK accepted'' else ''-ERR Invalid password'')"
  by (simp add: mock_auth_reply_def mock_replies)

lemma auth_texts:
  assumes "t = ''+OK accepted'' \<or> t = ''-ERR Invalid password''"
  shows "tidy t" "utf8_valid t" "CHR ''%'' \<notin> set t" "length (mock_reply_raw_text t) \<le> 100"
    "starts_with ''+OK'' t \<longleftrightarrow> t = ''+OK accepted''"
proof -
  have "list_all (\<lambda>t. tidy t \<and> utf8_valid t \<and> CHR ''%'' \<notin> set t \<and> length (mock_reply_raw_text t) \<le> 100
      \<and> (starts_with ''+OK'' t \<longleftrightarrow> t = ''+OK accepted'')) [''+OK accepted'', ''-ERR Invalid password'']"
    by code_simp
  with assms show "tidy t" "utf8_valid t" "CHR ''%'' \<notin> set t" "length (mock_reply_raw_text t) \<le> 100"
    "starts_with ''+OK'' t \<longleftrightarrow> t = ''+OK accepted''"
    by (auto simp: list_all_iff)
qed

lemma mock_reads_auth:
  assumes "\<not> has_newline password" "concat reads = ''auth '' @ password @ [NL, NL]"
  shows "fst (read_command reads) = ''auth '' @ password @ [NL, NL]"
proof -
  have "concat reads = block [''auth '' @ password] @ NL # []" using assms(2) by simp
  from mock_reads_block [OF this] assms(1) show ?thesis by (simp add: wire_line_def has_newline_def)
qed

lemma mock_reads_nothing:
  assumes "concat reads = []"
  shows "fst (read_command reads) = []"
proof -
  obtain l b rs where r: "read_line [] reads = (l, b, rs)" by (cases "read_line [] reads")
  with read_line_split [OF r] assms show ?thesis
    by (simp add: read_command_def read_command_loop.simps [of "[]"])
qed

text \<open>What the client writes, for any password.\<close>

definition login_line :: "string \<Rightarrow> bytes" where
  "login_line password = (if has_newline password then [] else ''auth '' @ password @ [NL, NL])"

lemma mock_reads_login: "concat reads = login_line password \<Longrightarrow> fst (read_command reads) = login_line password"
  using mock_reads_auth [of password reads] mock_reads_nothing [of reads] by (simp add: login_line_def split: if_splits)

lemma mock_accepts:
  assumes "percent_codec penc pdec"
    and "hs = authenticate pdec ord_ev ord_cb parser_new (map ReadData cs) None (Password password)"
    and "concat cs = mock_auth_request @ mock_auth_reply secret (fst (read_command reads))"
    and "\<forall>c \<in> set cs. c \<noteq> []" "concat reads = concat (hs_written hs)"
  shows "concat (hs_written hs) = login_line password \<and> fst (read_command reads) = login_line password
     \<and> hs_result hs =
         (if has_newline password then Inl (ProtocolError ''password must not contain newlines'')
          else if password = secret then Inr ()
          else Inl (AuthenticationFailed ''-ERR Invalid password''))
     \<and> (\<not> has_newline password \<longrightarrow> represents pdec (hs_parser hs) [] \<and> hs_reads hs = [])"
proof -
  let ?cmd = "fst (read_command reads)"
  define t where "t = (if ?cmd = ''auth '' @ secret @ [NL, NL] then ''+OK accepted'' else ''-ERR Invalid password'')"
  have t: "t = ''+OK accepted'' \<or> t = ''-ERR Invalid password''" by (simp add: t_def)
  note texts = auth_texts [OF t]
  have cs: "concat cs = mock_auth_request @ mock_reply_raw_text t"
    by (simp add: assms(3) auth_reply_text t_def)
  from auth_request_framed [OF assms(1), of "mock_reply_raw_text t"] obtain m1 where
    m1: "next_frame pdec (concat cs) = Frame m1 (mock_reply_raw_text t)" "message_type m1 = AuthRequest"
    by (auto simp: cs)
  note reply = reply_framed [OF assms(1) texts(1,2)]
  have "length mock_auth_request \<le> 100" by code_simp
  then have len: "length (concat cs) \<le> MAX_BUFFER_SIZE"
    using texts(4) by (simp add: cs MAX_BUFFER_SIZE_def)
  have wire: "to_wire_format ord_ev ord_cb (auth_command (Password password)) =
      (if has_newline password then Inl (ProtocolError ''password must not contain newlines'')
       else Inr (''auth '' @ password @ [NL, NL]))"
    by (simp add: auth_command_def validate_no_newlines_def format_simple_command_def)
  from reply(1) [of "[]"] have m2: "next_frame pdec (mock_reply_raw_text t) = Frame (the_reply pdec t) []" by simp
  have ok: "is_success (into_response (the_reply pdec t)) \<longleftrightarrow> t = ''+OK accepted''"
    and rt: "fmlookup (msg_headers (the_reply pdec t)) ''Reply-Text'' = Some t"
    using reply(2) texts(5) t decoded(2) [OF assms(1) texts(3)]
    by (auto simp: is_success_def into_response_def resp_status_new)
  note steps = handshake_steps [OF m1(1) m2 assms(4) len assms(2)]
  show ?thesis
  proof (cases "has_newline password")
    case True
    with steps m1(2) wire have h: "hs_written hs = []"
      "hs_result hs = Inl (ProtocolError ''password must not contain newlines'')" by simp_all
    with True assms(5) mock_reads_login [of reads password] show ?thesis by (simp add: login_line_def)
  next
    case False
    with steps m1(2) wire ok rt have h:
      "hs_written hs = [''auth '' @ password @ [NL, NL]]"
      "hs_result hs = (if t = ''+OK accepted'' then Inr () else Inl (AuthenticationFailed t))"
      and "\<exists>bs cs'. represents pdec (hs_parser hs) bs \<and> hs_reads hs = map ReadData cs'
                    \<and> bs @ concat cs' = [] \<and> set cs' \<subseteq> set cs"
      by auto
    then obtain cs' where rest: "represents pdec (hs_parser hs) []" "hs_reads hs = map ReadData cs'" "concat cs' = []"
      "set cs' \<subseteq> set cs" by auto
    then have "cs' = []" using assms(4) by (cases cs') auto
    have cmd: "?cmd = ''auth '' @ password @ [NL, NL]"
      using mock_reads_auth [OF False] assms(5) h(1) by simp
    then have "t = (if password = secret then ''+OK accepted'' else ''-ERR Invalid password'')"
      by (auto simp: t_def)
    with h rest \<open>cs' = []\<close> False cmd show ?thesis by (auto simp: login_line_def)
  qed
qed

text \<open>C13. Client and server of the tests log in together. However TCP cuts what the server sends, and
  however it cuts what the client writes: the client writes the one line with its password, the server reads exactly
  this line, and connecting succeeds if and only if the passwords are equal; otherwise it fails with
  \<open>AuthenticationFailed\<close> and the server's text. The reader then starts on an empty parser with no read pending.
  A password with a line break (\<open>has_newline\<close>) is refused by the client, whatever the server's is: nothing is written
  (\<open>login_line\<close>), and nothing is read by the server.\<close>

theorem mock_login:
  assumes "percent_codec penc pdec"
    and "hs = authenticate pdec ord_ev ord_cb parser_new (map ReadData cs) None (Password password)"
    and "concat cs = mock_auth_request @ mock_auth_reply secret (fst (read_command reads))"
    and "\<forall>c \<in> set cs. c \<noteq> []" "concat reads = concat (hs_written hs)"
  shows "concat (hs_written hs) = login_line password \<and> fst (read_command reads) = login_line password
     \<and> hs_result hs =
         (if has_newline password then Inl (ProtocolError ''password must not contain newlines'')
          else if password = secret then Inr ()
          else Inl (AuthenticationFailed ''-ERR Invalid password''))
     \<and> (\<not> has_newline password \<longrightarrow> represents pdec (hs_parser hs) [] \<and> hs_reads hs = [])"
  using assms by (rule mock_accepts)

theorem mock_login_witness:
  "\<exists>reads. length reads = 2 \<and> fst (read_command reads) = ''auth b'' @ [NL, NL]
     \<and> hs_result (authenticate percent_decode_ref sorted_list_of_fmap sorted_list_of_fmap parser_new
          (map ReadData [mock_auth_request, mock_reply_err ''Invalid password'']) None (Password ''b''))
         = Inl (AuthenticationFailed ''-ERR Invalid password'')"
proof -
  define hs where "hs = authenticate percent_decode_ref sorted_list_of_fmap sorted_list_of_fmap parser_new
      (map ReadData [mock_auth_request, mock_reply_err ''Invalid password'']) None (Password ''b'')"
  have w: "hs_written hs = [''auth b'' @ [NL, NL]]" unfolding hs_def by code_simp
  let ?reads = "[''aut'', ''h b'' @ [NL, NL]]"
  have "fst (read_command ?reads) = ''auth b'' @ [NL, NL]" by code_simp
  then have cs: "concat [mock_auth_request, mock_reply_err ''Invalid password'']
      = mock_auth_request @ mock_auth_reply ''a'' (fst (read_command ?reads))"
    by (simp add: mock_auth_reply_def)
  have ne: "\<forall>c \<in> set [mock_auth_request, mock_reply_err ''Invalid password'']. c \<noteq> []"
    by (simp add: mock_auth_request_def mock_reply_err_def)
  have "concat ?reads = concat (hs_written hs)" by (simp add: w)
  note mock_login [OF percent_ref.percent_codec_axioms hs_def cs ne this]
  moreover have "\<not> has_newline ''b''" by code_simp
  ultimately show ?thesis
    unfolding hs_def [symmetric] by (intro exI [of _ ?reads]) (simp add: login_line_def)
qed

section \<open>A command to the mock server\<close>

text \<open>A call on a connection whose reader waits for data: the sender is put into the shared state, and the reader
  runs over what the server sends. The reply is the one that was delivered, if any.\<close>

definition armed :: "'q reader \<Rightarrow> 'q reader" where
  "armed r =
     r\<lparr>rd_world := (rd_world r)\<lparr>w_shared := (w_shared (rd_world r))\<lparr>pending_reply := Some (length (w_replies (rd_world r)))\<rparr>\<rparr>\<rparr>"

definition after_call :: "('q, 'v) reader_env \<Rightarrow> 'q reader \<Rightarrow> (nat \<times> bytes) list \<Rightarrow> 'q reader" where
  "after_call env r tcs =
     (let r' = the_reader (reader_loop_inner env (armed r) (map data_input tcs))
      in r'\<lparr>rd_world := (rd_world r')\<lparr>w_shared := (w_shared (rd_world r'))\<lparr>pending_reply := None\<rparr>\<rparr>\<rparr>)"

definition call_exchange :: "('q, 'v) reader_env \<Rightarrow> 'q reader \<Rightarrow> (nat \<times> bytes) list \<Rightarrow> exchange" where
  "call_exchange env r tcs =
     (let replies = w_replies (rd_world (after_call env r tcs))
      in if length replies > length (w_replies (rd_world r)) then Replied (snd (last replies)) else ReplyTimeout)"

definition client_of :: "('q, 'v) reader_env \<Rightarrow> header_order \<Rightarrow> header_order \<Rightarrow> 'q reader
    \<Rightarrow> (string \<Rightarrow> (nat \<times> bytes) list) \<Rightarrow> client_ctx" where
  "client_of env ord_ev ord_cb r server =
     \<lparr>cx_ord_ev = ord_ev, cx_ord_cb = ord_cb, cx_status = w_status (rd_world r),
      cx_shared = w_shared (rd_world r), cx_exchange = (\<lambda>t. call_exchange env r (server t))\<rparr>"

lemma one_reply_exchange:
  assumes "represents (env_pdec env) (rd_parser r) []"
    and "next_frame (env_pdec env) (concat (map snd tcs)) = Frame m []" "is_reply m"
    and "\<forall>tc \<in> set tcs. snd tc \<noteq> []" "length (concat (map snd tcs)) \<le> MAX_BUFFER_SIZE"
  shows "call_exchange env r tcs = Replied m"
proof -
  have rep: "represents (env_pdec env) (rd_parser (armed r)) []" using assms(1) by (simp add: armed_def)
  have fr: "frames (env_pdec env) (concat (map snd tcs)) = ([m], None, [])"
    using frames_Frame [OF assms(2)] by (simp add: frames_Nil)
  have "within_buffer (env_pdec env) [] (map snd tcs)" using assms(5) by (intro within_buffer_total) simp
  with reader_loop_stream [OF rep assms(4)] fr
  have "observed (reader_loop_inner env (armed r) (map data_input tcs))
      = ReadMore (handle_reply (rd_world (armed r)) m)"
    by (simp add: stream_outcome_def handle_message_reply [OF assms(3)])
  from observed_cases(1) [OF this] obtain r' where
    "reader_loop_inner env (armed r) (map data_input tcs) = ReadMore r'"
    "rd_world r' = handle_reply (rd_world (armed r)) m" by blast
  then show ?thesis
    by (simp add: call_exchange_def after_call_def Let_def handle_reply_def armed_def)
qed

text \<open>The server reads a one-line command exactly as it was written, and the client's result is decided by the
  text of the server's reply.\<close>

lemma mock_command:
  assumes "percent_codec penc (env_pdec env)" "represents (env_pdec env) (rd_parser r) []"
    and "w_status (rd_world r) = Connected" "to_wire_format ord_ev ord_cb c = Inr s" "\<not> event_command c"
    and "concat reads = s" "concat (map snd (server s)) = mock_reply_raw_text t" "\<forall>tc \<in> set (server s). snd tc \<noteq> []"
    and "tidy t" "utf8_valid t" "CHR ''%'' \<notin> set t" "length t < MAX_MESSAGE_SIZE"
  shows "fst (read_command reads) = s
     \<and> send_command_ok (client_of env ord_ev ord_cb r server) c =
         (if t = [] \<or> starts_with ''+OK'' t then Inr ()
          else if starts_with ''-ERR'' t then Inl (CommandFailed t) else Inl (UnexpectedReply t))"
proof
  from to_wire_simple [OF assms(5), of ord_ev ord_cb] obtain fs args where
    w: "to_wire_format ord_ev ord_cb c = checked fs (format_simple_command (command_word c) args)"
      "map fst fs = command_texts c"
      "(\<forall>t \<in> set (command_texts c). \<not> has_newline t) \<longrightarrow> (\<forall>a \<in> set args. \<not> has_newline a)"
    unfolding simple_wire_def by blast
  with assms(4) have s: "s = format_simple_command (command_word c) args" "\<forall>a \<in> set args. \<not> has_newline a"
    by (simp_all add: checked_Inr_iff fst_checks [OF w(2)])
  then have "concat reads = block [words (command_word c) args] @ NL # []"
    using assms(6) by (simp add: format_simple_command_def words_def)
  from mock_reads_block [OF this] words_clean [OF command_word_clean s(2), of c]
  show "fst (read_command reads) = s"
    using s(1) by (simp add: clean_line_def wire_line_def has_newline_def format_simple_command_def words_def)
  note reply = reply_framed [OF assms(1,9,10)]
  have "length (mock_reply_raw_text t) \<le> length t + 100" by (simp add: mock_reply_raw_text_def)
  then have "length (concat (map snd (server s))) \<le> MAX_BUFFER_SIZE"
    using assms(12) by (simp add: assms(7) MAX_MESSAGE_SIZE_def MAX_BUFFER_SIZE_def)
  from one_reply_exchange [OF assms(2) _ reply(3) assms(8) this] reply(1) [of "[]"]
  have ex: "call_exchange env r (server s) = Replied (the_reply (env_pdec env) t)"
    by (simp add: assms(7))
  have "fmlookup (msg_headers (the_reply (env_pdec env) t)) ''Reply-Text'' = Some t"
    using reply(2) decoded(2) [OF assms(1,11)] by (simp add: into_response_def)
  then show "send_command_ok (client_of env ord_ev ord_cb r server) c =
         (if t = [] \<or> starts_with ''+OK'' t then Inr ()
          else if starts_with ''-ERR'' t then Inl (CommandFailed t) else Inl (UnexpectedReply t))"
    using assms(3,4) ex
    by (simp add: send_command_ok_def send_command_def client_of_def is_connected_def res_bind_def into_result_def
        into_response_def resp_status_new)
qed

end
