(* ===== verification/Tests_Session.thy ===== *)
theory Tests_Session
  imports Test_Support Esl_Mock Esl_Handles
begin

text \<open>
  The integration tests under \<open>src/tests\<close> that need no FreeSWITCH: \<open>connection_tests.rs\<close> against the mock server of
  \<open>Esl_Mock\<close>, and \<open>integration_tests.rs\<close>. A test is run in one order of its tasks: a call's text is
  what the server reads, the server's bytes are what the reader reads, each write arriving in one read.
  An \<open>assert!\<close> on a command the server has read is a condition of its reply: where it fails, the
  call times out and the test fails with it.
\<close>

section \<open>The pair of a client and the server\<close>

definition mock_network :: "string \<Rightarrow> string \<Rightarrow> event_item list_queue network" where
  "mock_network server_password client_password =
     \<lparr>net_pdec = percent_decode_ref, net_ord_ev = sorted_list_of_fmap, net_ord_cb = sorted_list_of_fmap,
      net_make_channel = (\<lambda>n. \<lparr>lq_items = [], lq_open = True, lq_cap = n\<rparr>), net_tcp = TcpOk,
      net_reads =
        [ReadData mock_auth_request,
         ReadData (mock_auth_reply server_password (fst (read_command
           (case to_wire_format sorted_list_of_fmap sorted_list_of_fmap (Auth client_password) of
              Inr t \<Rightarrow> [t] | Inl _ \<Rightarrow> []))))],
      net_write_error = None, net_now = 0\<rparr>"

type_synonym mock_reader = "event_item list_queue reader"

definition setup_connected_pair :: "string \<Rightarrow> (mock_reader \<Rightarrow> bool) \<Rightarrow> bool" where
  "setup_connected_pair password k = unwrap_ok (connect (mock_network password password) password) k"

text \<open>The client handle while the server answers a call with these bytes at one second.\<close>

definition client :: "mock_reader \<Rightarrow> (string \<Rightarrow> bytes list) \<Rightarrow> client_ctx" where
  "client r server =
     client_of sample_env sorted_list_of_fmap sorted_list_of_fmap r (\<lambda>t. map (Pair 1000000000) (server t))"

text \<open>The server reads a command, asserts something of it and replies.\<close>

definition reads_then :: "(string \<Rightarrow> bool) \<Rightarrow> bytes \<Rightarrow> string \<Rightarrow> bytes list" where
  "reads_then is_expected reply t = (if is_expected (fst (read_command [t])) then [reply] else [])"

definition silent :: "string \<Rightarrow> bytes list" where
  "silent t = []"

text \<open>The reader after a call that was answered, after data, and after reads that time out.\<close>

definition replied :: "mock_reader \<Rightarrow> bytes list \<Rightarrow> mock_reader" where
  "replied r ds = after_call sample_env r (map (Pair 1000000000) ds)"

definition reads :: "mock_reader \<Rightarrow> (nat \<times> read_result) list \<Rightarrow> mock_reader loop_ctl" where
  "reads r xs = reader_loop_inner sample_env r (map (\<lambda>(t, x). \<lparr>in_now = t, in_result = x, in_others = id\<rparr>) xs)"

definition recv_event :: "mock_reader loop_ctl \<Rightarrow> (EslEvent \<Rightarrow> bool) \<Rightarrow> bool" where
  "recv_event c k =
     (case fst (stream_recv lq_recv (rd_world (the_reader c))) of Some (Inr ev) \<Rightarrow> k ev | _ \<Rightarrow> False)"

text \<open>\<open>recv\<close> returns \<open>None\<close>: the reader has ended and the queue is empty. The status is the reason.\<close>

definition ended_with :: "mock_reader loop_ctl \<Rightarrow> DisconnectReason \<Rightarrow> bool" where
  "ended_with c reason =
     (case c of
        Return r \<Rightarrow> fst (stream_recv lq_recv (rd_world r)) = None
          \<and> \<not> is_connected (client r silent) \<and> client_status (client r silent) = Disconnected reason
      | _ \<Rightarrow> False)"

definition with_shared :: "(SharedState \<Rightarrow> SharedState) \<Rightarrow> mock_reader \<Rightarrow> mock_reader" where
  "with_shared f r = r\<lparr>rd_world := (rd_world r)\<lparr>w_shared := f (w_shared (rd_world r))\<rparr>\<rparr>"

abbreviation event_plain :: "string \<Rightarrow> headers \<Rightarrow> bytes" where
  "event_plain \<equiv> mock_event_plain percent_encode_ref sorted_list_of_fmap"

abbreviation heartbeat :: bytes where
  "heartbeat \<equiv> mock_heartbeat percent_encode_ref sorted_list_of_fmap"

definition seconds :: "nat \<Rightarrow> nat" where
  "seconds n = n * 1000000000"

text \<open>The application has received everything in the queue.\<close>

definition all_received :: "mock_reader \<Rightarrow> mock_reader" where
  "all_received r = r\<lparr>rd_world := (rd_world r)\<lparr>w_queue := (w_queue (rd_world r))\<lparr>lq_items := []\<rparr>\<rparr>\<rparr>"

section \<open>Connecting and disconnecting\<close>

definition test_connect_and_authenticate :: bool where
  "test_connect_and_authenticate =
     setup_connected_pair ''ClueCon'' (\<lambda>r. is_connected (client r silent))"

definition test_auth_failure :: bool where
  "test_auth_failure =
     (case connect (mock_network ''correct_password'' ''wrong_password'') ''wrong_password'' of
        Inl (AuthenticationFailed _) \<Rightarrow> True | _ \<Rightarrow> False)"

definition test_disconnect_notice :: bool where
  "test_disconnect_notice =
     setup_connected_pair ''ClueCon'' (\<lambda>r.
       ended_with (reads r [(seconds 1, ReadData (mock_disconnect_notice (''Disconnected, goodbye.'' @ [NL] @ ''See you later.'' @ [NL])))])
         ServerNotice)"

definition test_tcp_disconnect :: bool where
  "test_tcp_disconnect =
     setup_connected_pair ''ClueCon'' (\<lambda>r. ended_with (reads r [(seconds 1, ReadData [])]) PeerClosed)"

definition test_command_after_disconnect :: bool where
  "test_command_after_disconnect =
     setup_connected_pair ''ClueCon'' (\<lambda>r.
       case api (client (the_reader (reads r [(seconds 1, ReadData [])])) silent) ''status'' of
         Inl NotConnected \<Rightarrow> True | _ \<Rightarrow> False)"

section \<open>Events\<close>

definition test_recv_event_plain :: bool where
  "test_recv_event_plain =
     setup_connected_pair ''ClueCon'' (\<lambda>r.
       unwrap_ok (subscribe_events (client r (\<lambda>_. [mock_reply_ok])) Plain [AllEvents]) (\<lambda>_.
         recv_event (reads (replied r [mock_reply_ok])
             [(seconds 2, ReadData (event_plain ''CHANNEL_CREATE''
                (fmap_of_list [(''Unique-ID'', ''test-uuid-abc''), (''Caller-Caller-ID-Number'', ''1001'')])))])
           (\<lambda>event. unique_id event = Some ''test-uuid-abc'' \<and> event_type event = Some ChannelCreate)))"

definition test_concurrent_command_and_events :: bool where
  "test_concurrent_command_and_events =
     setup_connected_pair ''ClueCon'' (\<lambda>r.
       let r1 = the_reader (reads r [(0, ReadData (event_plain ''CHANNEL_CREATE''
                  (fmap_of_list [(''Unique-ID'', ''event-uuid'')])))])
       in unwrap_ok (api (client r1 (reads_then (\<lambda>cmd. starts_with_str cmd ''api status'') (mock_reply_api ''UP 0 years'')))
            ''status'') (\<lambda>response. resp_body response = Some ''UP 0 years''
              \<and> recv_event (Continue (replied r1 [mock_reply_api ''UP 0 years'']))
                  (\<lambda>event. event_type event = Some ChannelCreate)))"

definition test_heartbeat_event_headers :: bool where
  "test_heartbeat_event_headers =
     setup_connected_pair ''ClueCon'' (\<lambda>r.
       recv_event (reads r [(seconds 1, ReadData heartbeat)]) (\<lambda>event.
         header event ''Event-Info'' = Some ''System Ready''
         \<and> header event ''Up-Time'' = Some ''0 years, 0 days, 1 hour, 23 minutes''
         \<and> header event ''Session-Count'' = Some ''5'' \<and> header event ''Heartbeat-Interval'' = Some ''20''
         \<and> event_type event = Some HeartbeatEvent))"

definition test_url_decoded_headers :: bool where
  "test_url_decoded_headers =
     setup_connected_pair ''ClueCon'' (\<lambda>r.
       recv_event (reads r [(seconds 1, ReadData (event_plain ''CHANNEL_CREATE''
           (fmap_of_list [(''Caller-Caller-ID-Name'', ''John Doe''), (''variable_sip_from_display'', ''Test User (123)'')])))])
         (\<lambda>event. header event ''Caller-Caller-ID-Name'' = Some ''John Doe''
           \<and> header event ''variable_sip_from_display'' = Some ''Test User (123)''))"

section \<open>Liveness\<close>

text \<open>The reads of the reader time out every two seconds.\<close>

definition test_liveness_expired :: bool where
  "test_liveness_expired =
     setup_connected_pair ''ClueCon'' (\<lambda>r.
       ended_with (reads (with_shared (\<lambda>sh. set_liveness_timeout sh (seconds 1)) r) [(seconds 2, ReadTimeout)])
         HeartbeatExpired)"

definition test_stall_detected :: bool where
  "test_stall_detected =
     setup_connected_pair ''ClueCon'' (\<lambda>r.
       ended_with (reads (with_shared (\<lambda>sh. set_liveness_timeout sh (seconds 1)) r) [(seconds 2, ReadTimeout)])
         HeartbeatExpired)"

definition test_liveness_reset_by_traffic :: bool where
  "test_liveness_reset_by_traffic =
     setup_connected_pair ''ClueCon'' (\<lambda>r.
       case reads (with_shared (\<lambda>sh. set_liveness_timeout sh (seconds 3)) r)
           [(seconds 2, ReadData heartbeat), (seconds 4, ReadData heartbeat), (seconds 6, ReadData heartbeat)] of
         ReadMore r1 \<Rightarrow>
           (case lq_items (w_queue (rd_world r1)) of
              [Inr a, Inr b, Inr c] \<Rightarrow>
                ended_with (reads (all_received r1) [(seconds 8, ReadTimeout), (seconds 10, ReadTimeout)]) HeartbeatExpired
                \<and> event_type a = Some HeartbeatEvent \<and> event_type b = Some HeartbeatEvent
                \<and> event_type c = Some HeartbeatEvent
            | _ \<Rightarrow> False)
       | _ \<Rightarrow> False)"

section \<open>Calls and timeouts\<close>

definition test_client_clone :: bool where
  "test_client_clone =
     setup_connected_pair ''ClueCon'' (\<lambda>r.
       unwrap_ok (api (client r (reads_then (\<lambda>cmd. starts_with_str cmd ''api status'') (mock_reply_api ''OK''))) ''status'') (\<lambda>_.
       unwrap_ok (api (client (replied r [mock_reply_api ''OK''])
           (reads_then (\<lambda>cmd. starts_with_str cmd ''api version'') (mock_reply_api ''1.0''))) ''version'') (\<lambda>_. True)))"

definition test_command_timeout :: bool where
  "test_command_timeout =
     setup_connected_pair ''ClueCon'' (\<lambda>r.
       case api (client (with_shared (\<lambda>sh. set_command_timeout sh 200000000) r) silent) ''status'' of
         Inl (Timeout _) \<Rightarrow> True | _ \<Rightarrow> False)"

definition test_command_timeout_default :: bool where
  "test_command_timeout_default =
     setup_connected_pair ''ClueCon'' (\<lambda>r.
       unwrap_ok (api (client r (reads_then (\<lambda>_. True) (mock_reply_api ''OK''))) ''status'') (\<lambda>_. True))"

definition test_command_timeout_cleanup :: bool where
  "test_command_timeout_cleanup =
     setup_connected_pair ''ClueCon'' (\<lambda>r0.
       let r = with_shared (\<lambda>sh. set_command_timeout sh 200000000) r0
       in (case api (client r silent) ''status'' of Inl (Timeout _) \<Rightarrow> True | _ \<Rightarrow> False)
          \<and> unwrap_ok (api (client (replied r []) (reads_then (\<lambda>_. True) (mock_reply_api ''1.0''))) ''version'') (\<lambda>_. True))"

section \<open>Commands\<close>

definition test_sendevent_command :: bool where
  "test_sendevent_command =
     setup_connected_pair ''ClueCon'' (\<lambda>r.
       unwrap_ok (sendevent
           (client r (reads_then (\<lambda>cmd. starts_with_str cmd (''sendevent CUSTOM'' @ [NL])
              \<and> contains_str cmd (''Event-Subclass: test::my_event'' @ [NL])) mock_reply_ok))
           (set_header (set_header (with_type Custom) ''Event-Name'' ''CUSTOM'') ''Event-Subclass'' ''test::my_event''))
         (\<lambda>response. is_success response))"

definition test_myevents_command :: bool where
  "test_myevents_command =
     setup_connected_pair ''ClueCon'' (\<lambda>r.
       unwrap_ok (myevents (client r (reads_then (\<lambda>cmd. cmd = (''myevents plain'' @ [NL, NL])) mock_reply_ok)) Plain) (\<lambda>_. True))"

definition test_myevents_uuid_command :: bool where
  "test_myevents_uuid_command =
     setup_connected_pair ''ClueCon'' (\<lambda>r.
       unwrap_ok (myevents_uuid (client r (reads_then (\<lambda>cmd. cmd = (''myevents abc-123-def json'' @ [NL, NL])) mock_reply_ok))
         ''abc-123-def'' Json) (\<lambda>_. True))"

definition test_linger_command :: bool where
  "test_linger_command =
     setup_connected_pair ''ClueCon'' (\<lambda>r.
       unwrap_ok (linger (client r (reads_then (\<lambda>cmd. cmd = (''linger'' @ [NL, NL])) mock_reply_ok)) None) (\<lambda>_. True))"

definition test_linger_timeout_command :: bool where
  "test_linger_timeout_command =
     setup_connected_pair ''ClueCon'' (\<lambda>r.
       unwrap_ok (linger (client r (reads_then (\<lambda>cmd. cmd = (''linger 300'' @ [NL, NL])) mock_reply_ok)) (Some 300)) (\<lambda>_. True))"

definition test_nolinger_command :: bool where
  "test_nolinger_command =
     setup_connected_pair ''ClueCon'' (\<lambda>r.
       unwrap_ok (nolinger (client r (reads_then (\<lambda>cmd. cmd = (''nolinger'' @ [NL, NL])) mock_reply_ok))) (\<lambda>_. True))"

definition test_resume_command :: bool where
  "test_resume_command =
     setup_connected_pair ''ClueCon'' (\<lambda>r.
       unwrap_ok (resume (client r (reads_then (\<lambda>cmd. cmd = (''resume'' @ [NL, NL])) mock_reply_ok))) (\<lambda>_. True))"

definition test_nixevent_command :: bool where
  "test_nixevent_command =
     setup_connected_pair ''ClueCon'' (\<lambda>r.
       unwrap_ok (nixevent (client r (reads_then (\<lambda>cmd. cmd = (''nixevent CHANNEL_CREATE CHANNEL_DESTROY'' @ [NL, NL])) mock_reply_ok))
         [ChannelCreate, ChannelDestroy]) (\<lambda>_. True))"

definition test_noevents_command :: bool where
  "test_noevents_command =
     setup_connected_pair ''ClueCon'' (\<lambda>r.
       unwrap_ok (noevents (client r (reads_then (\<lambda>cmd. cmd = (''noevents'' @ [NL, NL])) mock_reply_ok))) (\<lambda>_. True))"

definition test_filter_delete_command :: bool where
  "test_filter_delete_command =
     setup_connected_pair ''ClueCon'' (\<lambda>r.
       unwrap_ok (filter_delete (client r (reads_then (\<lambda>cmd. cmd = (''filter delete Event-Name CHANNEL_CREATE'' @ [NL, NL])) mock_reply_ok))
         ''Event-Name'' (Some ''CHANNEL_CREATE'')) (\<lambda>_. True))"

definition test_divert_events_command :: bool where
  "test_divert_events_command =
     setup_connected_pair ''ClueCon'' (\<lambda>r.
       unwrap_ok (divert_events (client r (reads_then (\<lambda>cmd. cmd = (''divert_events on'' @ [NL, NL])) mock_reply_ok)) True) (\<lambda>_. True))"

definition test_getvar_command :: bool where
  "test_getvar_command =
     setup_connected_pair ''ClueCon'' (\<lambda>r.
       unwrap_ok (getvar (client r (reads_then (\<lambda>cmd. cmd = (''getvar caller_id_name'' @ [NL, NL])) (mock_reply_raw_text ''John Doe'')))
         ''caller_id_name'') (\<lambda>value. value = ''John Doe''))"

definition test_outbound_connect_session :: bool where
  "test_outbound_connect_session =
     unwrap_ok (accept_outbound (\<lambda>n. \<lparr>lq_items = [], lq_open = True, lq_cap = n\<rparr>) None 0) (\<lambda>r.
       unwrap_ok (connect_session (client r (reads_then (\<lambda>cmd. cmd = (''connect'' @ [NL, NL]))
           (mock_connect_response percent_encode_ref sorted_list_of_fmap
             (fmap_of_list [(''Event-Name'', ''CHANNEL_DATA''), (''Channel-Name'', ''sofia/internal/1000@example.com''),
                (''Unique-ID'', ''abcd-1234-efgh''), (''Caller-Caller-ID-Name'', ''Test User''),
                (''Caller-Caller-ID-Number'', ''1000'')]))))) (\<lambda>response.
         is_success response \<and> reply_text response = Some ''+OK''
         \<and> resp_header response ''Channel-Name'' = Some ''sofia/internal/1000@example.com''
         \<and> resp_header response ''Unique-ID'' = Some ''abcd-1234-efgh''
         \<and> resp_header response ''Caller-Caller-ID-Name'' = Some ''Test User''
         \<and> resp_header response ''Caller-Caller-ID-Number'' = Some ''1000''
         \<and> resp_header response ''Socket-Mode'' = Some ''async'' \<and> resp_header response ''Control'' = Some ''full''))"

section \<open>The public interface\<close>

definition test_event_types :: bool where
  "test_event_types =
     (event_type_display ChannelAnswer = ''CHANNEL_ANSWER'' \<and> event_type_display ChannelCreate = ''CHANNEL_CREATE''
      \<and> event_type_display HeartbeatEvent = ''HEARTBEAT''
      \<and> parse_event_type ''CHANNEL_ANSWER'' = Some ChannelAnswer \<and> parse_event_type ''channel_answer'' = Some ChannelAnswer
      \<and> parse_event_type ''DTMF'' = Some Dtmf \<and> parse_event_type ''UNKNOWN_EVENT'' = None)"

definition test_error_handling :: bool where
  "test_error_handling =
     (is_connection_error (Io ''Connection refused'') \<and> is_recoverable (Timeout 5000)
      \<and> \<not> is_recoverable (protocol_error ''Invalid message format'') \<and> \<not> is_connection_error (auth_failed ''Invalid password'')
      \<and> is_connection_error (EslError.HeartbeatExpired 60000) \<and> \<not> is_recoverable (EslError.HeartbeatExpired 60000))"

definition test_connection_error_detection :: bool where
  "test_connection_error_detection =
     (is_connection_error ConnectionClosed \<and> \<not> is_recoverable ConnectionClosed
      \<and> is_connection_error NotConnected \<and> \<not> is_recoverable NotConnected \<and> is_connection_error (Io ''test error''))"

definition test_connection_states :: bool where
  "test_connection_states =
     (InboundMode = InboundMode \<and> InboundMode \<noteq> OutboundMode
      \<and> event_format_display Plain = ''plain'' \<and> event_format_display Json = ''json'' \<and> event_format_display Xml = ''xml'')"

section \<open>The tests pass\<close>

text \<open>The handshake of almost every test, once; it leaves a fresh reader.\<close>

lemma clue_con_connects:
  "connect (mock_network ''ClueCon'' ''ClueCon'') ''ClueCon''
     = Inr (spawn_reader (\<lambda>n. \<lparr>lq_items = [], lq_open = True, lq_cap = n\<rparr>) connect_options_default parser_new 0)"
  by code_simp

lemma clue_con_pair:
  "setup_connected_pair ''ClueCon'' k
     = k (spawn_reader (\<lambda>n. \<lparr>lq_items = [], lq_open = True, lq_cap = n\<rparr>) connect_options_default parser_new 0)"
  by (simp only: setup_connected_pair_def clue_con_connects unwrap_ok_def sum.case)

lemma authentication_tests: "test_connect_and_authenticate \<and> test_auth_failure"
  by code_simp

lemma disconnection_tests: "test_disconnect_notice \<and> test_tcp_disconnect \<and> test_command_after_disconnect"
  unfolding test_disconnect_notice_def test_tcp_disconnect_def test_command_after_disconnect_def clue_con_pair
  by code_simp

lemma session_event_tests:
  "test_recv_event_plain \<and> test_concurrent_command_and_events \<and> test_heartbeat_event_headers \<and> test_url_decoded_headers"
  unfolding test_recv_event_plain_def test_concurrent_command_and_events_def test_heartbeat_event_headers_def
    test_url_decoded_headers_def clue_con_pair Let_def
  by (intro conjI; code_simp; simp)

lemma liveness_tests: "test_liveness_expired \<and> test_stall_detected \<and> test_liveness_reset_by_traffic"
  unfolding test_liveness_expired_def test_stall_detected_def test_liveness_reset_by_traffic_def clue_con_pair Let_def
  by (intro conjI; code_simp; simp)

lemma timeout_tests:
  "test_client_clone \<and> test_command_timeout \<and> test_command_timeout_default \<and> test_command_timeout_cleanup"
  unfolding test_client_clone_def test_command_timeout_def test_command_timeout_default_def
    test_command_timeout_cleanup_def clue_con_pair Let_def
  by code_simp

lemmas session_command_defs = test_myevents_command_def test_myevents_uuid_command_def test_linger_command_def
  test_linger_timeout_command_def test_nolinger_command_def test_resume_command_def test_noevents_command_def
  test_filter_delete_command_def test_divert_events_command_def test_getvar_command_def

lemma session_command_tests:
  "test_myevents_command \<and> test_myevents_uuid_command \<and> test_linger_command
   \<and> test_linger_timeout_command \<and> test_nolinger_command \<and> test_resume_command \<and> test_noevents_command
   \<and> test_filter_delete_command \<and> test_divert_events_command \<and> test_getvar_command"
  unfolding session_command_defs clue_con_pair by code_simp

lemma session_event_type_tests: "test_sendevent_command \<and> test_nixevent_command"
  unfolding test_sendevent_command_def test_nixevent_command_def clue_con_pair
  by (intro conjI; code_simp; simp only: event_type_display.simps; code_simp)

lemma outbound_session_test: "test_outbound_connect_session"
  by code_simp

lemma interface_tests: "test_error_handling \<and> test_connection_error_detection \<and> test_connection_states"
  by code_simp

lemma interface_event_test: "test_event_types"
  unfolding test_event_types_def by (intro conjI; (code_simp; simp | simp))

end
